(* ===== verification/Prelude.thy ===== *)
theory Prelude
  imports Main "HOL-Library.Word"
begin

text \<open>
  What every component of the model shares: Go's fixed-width integers, the outcome of a call
  (a value, a panic, or a goroutine that never gets past a lock), wall-clock arithmetic,
  \<open>%d\<close> formatting and its inverse, byte strings, and a few facts on lists and maps.
\<close>

section \<open>Outcomes of Go calls\<close>

text \<open>
  A Go call returns, panics, or blocks for ever (here: on a mutex its own goroutine holds, or on
  a wait group whose goroutines cannot finish). Errors returned as values are sums inside
  \<open>Ret\<close>.
\<close>

datatype panic = NilDereference | IndexOutOfRange | SliceOutOfRange | CloseOfClosedChannel | DuplicateRoute
  | NegativeChannelSize | DuplicateMetric | LabelMismatch | TypeAssertion

datatype 'a outcome = Ret 'a | Panic panic | Blocked

text \<open>Sequencing: a panic or a block ends the caller too.\<close>

fun obind :: "'a outcome \<Rightarrow> ('a \<Rightarrow> 'b outcome) \<Rightarrow> 'b outcome" where
  "obind (Ret x) f = f x"
| "obind (Panic e) f = Panic e"
| "obind Blocked f = Blocked"

lemma obind_Ret [simp]: "obind m f = Ret y \<longleftrightarrow> (\<exists>x. m = Ret x \<and> f x = Ret y)"
  by (cases m) simp_all

named_theorems model_defs \<open>definitions of the model's operations, for unfolding\<close>

section \<open>Fixed-width integers\<close>

type_synonym u8 = "8 word"
type_synonym u32 = "32 word"
type_synonym u64 = "64 word"
type_synonym bytes = "u8 list"

text \<open>Go's \<open>int\<close>, \<open>int64\<close> and \<open>int32\<close> are two's complement and wrap around.\<close>

definition i64 :: "int \<Rightarrow> int" where
  "i64 n = (n + 2 ^ 63) mod 2 ^ 64 - 2 ^ 63"

definition i32 :: "int \<Rightarrow> int" where
  "i32 n = (n + 2 ^ 31) mod 2 ^ 32 - 2 ^ 31"

definition u32_of :: "int \<Rightarrow> u32" where
  "u32_of n = word_of_int n"

lemma i64_id [simp]: "- (2 ^ 63) \<le> n \<Longrightarrow> n < 2 ^ 63 \<Longrightarrow> i64 n = n"
  by (simp add: i64_def)

lemma i64_range: "- (2 ^ 63) \<le> i64 n \<and> i64 n < 2 ^ 63"
proof -
  have "0 \<le> (n + 2 ^ 63) mod (2 ^ 64 :: int)" and "(n + 2 ^ 63) mod (2 ^ 64 :: int) < 2 ^ 64"
    by (rule pos_mod_sign pos_mod_bound; simp)+
  then show ?thesis by (simp add: i64_def)
qed

lemma i32_id [simp]: "- (2 ^ 31) \<le> n \<Longrightarrow> n < 2 ^ 31 \<Longrightarrow> i32 n = n"
  by (simp add: i32_def)

lemma i32_range: "- (2 ^ 31) \<le> i32 n \<and> i32 n < 2 ^ 31"
proof -
  have "0 \<le> (n + 2 ^ 31) mod (2 ^ 32 :: int)" and "(n + 2 ^ 31) mod (2 ^ 32 :: int) < 2 ^ 32"
    by (rule pos_mod_sign pos_mod_bound; simp)+
  then show ?thesis by (simp add: i32_def)
qed

definition max_int :: int where
  "max_int = 2 ^ 63 - 1"

section \<open>Messages\<close>

text \<open>
  The header and the envelope messages of \<open>proto/*.proto\<close>. A nil header is \<open>None\<close>;
  the generated getters read zero from it.
\<close>

record msg_header =
  mh_MsgId :: u32
  mh_Seq :: u32
  mh_UserId :: u64
  mh_Timestamp :: u32
  mh_SessionId :: string

record base_request =
  rq_Header :: "msg_header option"
  rq_Data :: bytes

record base_response =
  rs_Header :: "msg_header option"
  rs_Code :: int
  rs_Msg :: string
  rs_Data :: bytes

definition GetUserId :: "msg_header option \<Rightarrow> u64" where
  "GetUserId h = (case h of None \<Rightarrow> 0 | Some m \<Rightarrow> mh_UserId m)"

definition respond :: "msg_header option \<Rightarrow> int \<Rightarrow> string \<Rightarrow> base_response" where
  "respond h code msg = \<lparr>rs_Header = h, rs_Code = code, rs_Msg = msg, rs_Data = []\<rparr>"

lemma respond_simps [simp]:
  "rs_Header (respond h c m) = h" "rs_Code (respond h c m) = c"
  "rs_Msg (respond h c m) = m" "rs_Data (respond h c m) = []"
  by (simp_all add: respond_def)

section \<open>Time\<close>

text \<open>
  A \<open>time.Time\<close> is the number of nanoseconds since the Unix epoch and a
  \<open>time.Duration\<close> a number of nanoseconds; \<open>Sub\<close> saturates at the range of int64.
\<close>

type_synonym time = int
type_synonym duration = int

abbreviation second :: duration where "second \<equiv> 1000000000"

definition time_sub :: "time \<Rightarrow> time \<Rightarrow> duration" where
  "time_sub t u = max (- (2 ^ 63)) (min (2 ^ 63 - 1) (t - u))"

definition unix :: "time \<Rightarrow> int" where
  "unix t = t div 1000000000"

text \<open>\<open>time.Time{}\<close>, the first of January of year 1.\<close>

definition zero_time :: time where
  "zero_time = - 62135596800 * 1000000000"

lemma time_sub_gt:
  assumes "0 \<le> d" and "d < 2 ^ 63 - 1"
  shows "time_sub t u > d \<longleftrightarrow> t - u > d"
  using assms by (auto simp: time_sub_def)

lemma unix_mono: "t \<le> u \<Longrightarrow> unix t \<le> unix u"
  by (simp add: unix_def zdiv_mono1)

section \<open>Decimal formatting\<close>

definition digit :: "nat \<Rightarrow> char" where
  "digit d = char_of (48 + d)"

fun show_nat :: "nat \<Rightarrow> string" where
  "show_nat n = (if n < 10 then [digit n] else show_nat (n div 10) @ [digit (n mod 10)])"

declare show_nat.simps [simp del]

definition show_u64 :: "u64 \<Rightarrow> string" where
  "show_u64 w = show_nat (unat w)"

definition show_int :: "int \<Rightarrow> string" where
  "show_int n = (if n < 0 then ''-'' @ show_nat (nat (- n)) else show_nat (nat n))"

definition is_digit :: "char \<Rightarrow> bool" where
  "is_digit c \<longleftrightarrow> 48 \<le> (of_char c :: nat) \<and> (of_char c :: nat) \<le> 57"

definition digit_val :: "char \<Rightarrow> nat" where
  "digit_val c = of_char c - 48"

definition parse_digits :: "string \<Rightarrow> nat" where
  "parse_digits s = foldl (\<lambda>acc c. acc * 10 + digit_val c) 0 s"

lemma of_char_digit: "d < 10 \<Longrightarrow> (of_char (digit d) :: nat) = 48 + d"
  by (simp add: digit_def)

lemma is_digit_digit [simp]: "d < 10 \<Longrightarrow> is_digit (digit d)"
  by (simp add: is_digit_def of_char_digit)

lemma digit_val_digit [simp]: "d < 10 \<Longrightarrow> digit_val (digit d) = d"
  by (simp add: digit_val_def of_char_digit)

lemma show_nat_digits: "list_all is_digit (show_nat n)"
proof (induction n rule: show_nat.induct)
  case (1 n)
  then show ?case by (simp add: show_nat.simps [of n])
qed

lemma show_nat_ne [simp]: "show_nat n \<noteq> []"
  by (simp add: show_nat.simps [of n])

lemma parse_digits_snoc: "parse_digits (s @ [c]) = parse_digits s * 10 + digit_val c"
  by (simp add: parse_digits_def)

lemma parse_show_nat [simp]: "parse_digits (show_nat n) = n"
proof (induction n rule: show_nat.induct)
  case (1 n)
  show ?case
  proof (cases "n < 10")
    case True
    then show ?thesis by (simp add: show_nat.simps [of n] parse_digits_def)
  next
    case False
    with 1 have "parse_digits (show_nat (n div 10)) = n div 10" by simp
    with False show ?thesis
      by (simp add: show_nat.simps [of n] parse_digits_snoc)
  qed
qed

lemma show_nat_inj [simp]: "show_nat m = show_nat n \<longleftrightarrow> m = n"
  by (metis parse_show_nat)

lemma show_u64_inj [simp]: "show_u64 a = show_u64 b \<longleftrightarrow> a = b"
  by (simp add: show_u64_def word_unat_eq_iff)

text \<open>No leading zero, unless the number is zero.\<close>

lemma hd_show_nat: "n > 0 \<Longrightarrow> hd (show_nat n) \<noteq> digit 0"
proof (induction n rule: show_nat.induct)
  case (1 n)
  show ?case
  proof (cases "n < 10")
    case True
    have "digit_val (digit n) \<noteq> digit_val (digit 0)" using True 1 by simp
    then have "digit n \<noteq> digit 0" by metis
    with True show ?thesis by (simp add: show_nat.simps [of n])
  next
    case False
    then have "hd (show_nat n) = hd (show_nat (n div 10))"
      by (simp add: show_nat.simps [of n])
    with False 1 show ?thesis by simp
  qed
qed

section \<open>Hexadecimal digits and byte strings\<close>

definition hex_digit :: "nat \<Rightarrow> char" where
  "hex_digit n = (if n < 10 then char_of (48 + n) else char_of (87 + n))"

definition bytes_of :: "string \<Rightarrow> bytes" where
  "bytes_of s = map (\<lambda>c. word_of_nat (of_char c)) s"

definition string_of :: "bytes \<Rightarrow> string" where
  "string_of bs = map (\<lambda>b. char_of (unat b)) bs"

lemma string_of_bytes_of [simp]: "string_of (bytes_of s) = s"
proof -
  have "char_of (unat (word_of_nat (of_char c) :: u8)) = c" for c
  proof -
    have "unat (word_of_nat (of_char c) :: u8) = of_char c mod 256" by (simp add: unat_of_nat)
    then show ?thesis by simp
  qed
  then show ?thesis by (simp add: string_of_def bytes_of_def comp_def)
qed

section \<open>Lists and maps\<close>

lemma filter_distinct_length:
  assumes "distinct (map f xs)" and "x \<in> set xs"
  shows "Suc (length (filter (\<lambda>y. f y \<noteq> f x) xs)) = length xs"
  using assms
proof (induction xs)
  case Nil
  then show ?case by simp
next
  case (Cons y ys)
  show ?case
  proof (cases "f y = f x")
    case True
    with Cons.prems(1) have "\<forall>z \<in> set ys. f z \<noteq> f x" by (metis distinct.simps(2) image_eqI list.set_map list.simps(9))
    then have "filter (\<lambda>z. f z \<noteq> f x) ys = ys" by simp
    with True show ?thesis by simp
  next
    case False
    with Cons show ?thesis by auto
  qed
qed

lemma find_Some_mem: "List.find P xs = Some x \<Longrightarrow> x \<in> set xs \<and> P x"
  by (auto simp: find_Some_iff)

section \<open>Background loops\<close>

text \<open>
  A goroutine that serves a ticker until its context or stop channel is closed: the events its
  \<open>select\<close> takes, in their order. Where both are ready it may take either.
\<close>

datatype 't loop_event = Tick 't | Done

datatype 's loop_result = Waiting 's | Returned 's | Crashed panic | Stuck

fun ticker_loop :: "('t \<Rightarrow> 's \<Rightarrow> 's outcome) \<Rightarrow> 't loop_event list \<Rightarrow> 's \<Rightarrow> 's loop_result" where
  "ticker_loop body [] s = Waiting s"
| "ticker_loop body (Tick t # es) s =
     (case body t s of Ret s' \<Rightarrow> ticker_loop body es s' | Panic p \<Rightarrow> Crashed p | Blocked \<Rightarrow> Stuck)"
| "ticker_loop body (Done # es) s = Returned s"

lemma ticker_loop_fold:
  "(\<And>t s. body t s = Ret (f t s)) \<Longrightarrow> ticker_loop body (map Tick ts) s = Waiting (fold f ts s)"
  "(\<And>t s. body t s = Ret (f t s)) \<Longrightarrow> ticker_loop body (map Tick ts @ Done # es) s = Returned (fold f ts s)"
  by (induction ts arbitrary: s) simp_all

lemma ticker_loop_invariant:
  assumes "\<And>t s s'. body t s = Ret s' \<Longrightarrow> P s \<Longrightarrow> P s'" and "P s"
  shows "ticker_loop body es s = Waiting s' \<or> ticker_loop body es s = Returned s' \<Longrightarrow> P s'"
  using assms(2)
proof (induction es arbitrary: s)
  case (Cons e es)
  then show ?case using assms(1) by (cases e) (auto split: outcome.splits)
qed simp

end
