(* ===== verification/Repos.thy ===== *)
theory Repos
  imports Prelude "HOL-Library.Multiset"
begin

text \<open>
  The documents of \<open>internal/model\<close> and the repositories of \<open>internal/database/mongodb\<close>.
  The MongoDB driver is a parameter: a record of the collection methods the repositories call,
  on an abstract database state. What MongoDB documents of them is the locale
  \<open>mongo_driver\<close>; a driver kept in memory interprets it.
\<close>

section \<open>Documents\<close>

record room_player =
  rp_UserID :: u64
  rp_Nickname :: string
  rp_Level :: int
  rp_Status :: int
  rp_JoinTime :: int

record room =
  r_ID :: string
  r_RoomID :: u64
  r_RoomName :: string
  r_GameType :: int
  r_MaxPlayers :: int
  r_CurrentPlayers :: int
  r_Status :: int
  r_IsPrivate :: bool
  r_Password :: string
  r_OwnerID :: u64
  r_Players :: "room_player list"
  r_CreatedAt :: time
  r_UpdatedAt :: time

record user =
  u_ID :: string
  u_UserID :: u64
  u_Username :: string
  u_Password :: string
  u_Nickname :: string
  u_Email :: string
  u_Phone :: string
  u_Level :: int
  u_Experience :: int
  u_Gold :: int
  u_Diamond :: int
  u_Avatar :: string
  u_Status :: int
  u_LastLoginIP :: string
  u_LastLoginAt :: time
  u_CreatedAt :: time
  u_UpdatedAt :: time

section \<open>The driver\<close>

text \<open>The filter and update documents that the repositories build.\<close>

datatype room_filter = RoomIdIs u64 | WaitingRooms "int option" int

datatype room_update = SetRoom room | PushPlayer room_player | IncPlayers int
  | PullPlayer u64 | SetRoomUpdatedAt time

datatype user_filter = UserIdIs u64 | UsernameIs string | AnyUser

datatype field_value = FStr string | FInt int | FTime time

datatype user_update = SetUser user | SetFields "(string \<times> field_value) list"

datatype db_error = NoDocuments | DriverError

datatype find_error = FindFailed | DecodeFailed

text \<open>The \<open>_id\<close> an insertion reports: an ObjectID the driver made, or the caller's own value.\<close>

datatype inserted_id = ObjectID string | OtherID string

record 'd mongo =
  rooms_InsertOne :: "room \<Rightarrow> 'd \<Rightarrow> (db_error + inserted_id) \<times> 'd"
  rooms_FindOne :: "room_filter \<Rightarrow> 'd \<Rightarrow> (db_error + room) \<times> 'd"
  rooms_Find :: "room_filter \<Rightarrow> int \<Rightarrow> int \<Rightarrow> 'd \<Rightarrow> (find_error + room list) \<times> 'd"
  rooms_UpdateOne :: "room_filter \<Rightarrow> room_update list \<Rightarrow> 'd \<Rightarrow> db_error option \<times> 'd"
  rooms_DeleteOne :: "room_filter \<Rightarrow> 'd \<Rightarrow> db_error option \<times> 'd"
  rooms_CountDocuments :: "room_filter \<Rightarrow> 'd \<Rightarrow> (db_error + int) \<times> 'd"
  users_InsertOne :: "user \<Rightarrow> 'd \<Rightarrow> (db_error + inserted_id) \<times> 'd"
  users_FindOne :: "user_filter \<Rightarrow> 'd \<Rightarrow> (db_error + user) \<times> 'd"
  users_Find :: "user_filter \<Rightarrow> int \<Rightarrow> int \<Rightarrow> 'd \<Rightarrow> (find_error + user list) \<times> 'd"
  users_UpdateOne :: "user_filter \<Rightarrow> user_update list \<Rightarrow> 'd \<Rightarrow> db_error option \<times> 'd"
  users_DeleteOne :: "user_filter \<Rightarrow> 'd \<Rightarrow> db_error option \<times> 'd"

section \<open>Indexes\<close>

text \<open>
  The index documents of the two constructors: key, direction, unique. \<open>create\<close> is
  \<open>CreateMany\<close>, whose error is ignored; a repository is its collection.
\<close>

type_synonym index_model = "string \<times> int \<times> bool"

definition room_indexes :: "index_model list" where
  "room_indexes = [(''room_id'', 1, True), (''status'', 1, False), (''game_type'', 1, False), (''owner_id'', 1, False),
     (''created_at'', - 1, False)]"

definition user_indexes :: "index_model list" where
  "user_indexes = [(''user_id'', 1, True), (''username'', 1, True), (''email'', 1, False)]"

definition NewRoomRepository :: "(string \<Rightarrow> index_model list \<Rightarrow> 'd \<Rightarrow> bool \<times> 'd) \<Rightarrow> 'd \<Rightarrow> string \<times> 'd" where
  "NewRoomRepository create d = (''rooms'', snd (create ''rooms'' room_indexes d))"

definition NewUserRepository :: "(string \<Rightarrow> index_model list \<Rightarrow> 'd \<Rightarrow> bool \<times> 'd) \<Rightarrow> 'd \<Rightarrow> string \<times> 'd" where
  "NewUserRepository create d = (''users'', snd (create ''users'' user_indexes d))"

section \<open>The room repository\<close>

datatype repo_error = NotFound | OpFailed | ListDecodeFailed

definition repo_CreateRoom ::
  "'d mongo \<Rightarrow> (nat \<Rightarrow> time) \<Rightarrow> room \<Rightarrow> 'd \<Rightarrow> (repo_error + room) outcome \<times> 'd" where
  "repo_CreateRoom db now room0 d =
     (let room = room0\<lparr>r_CreatedAt := now 0, r_UpdatedAt := now 1\<rparr>;
          (res, d') = rooms_InsertOne db room d
      in case res of
           Inl _ \<Rightarrow> (Ret (Inl OpFailed), d')
         | Inr (ObjectID oid) \<Rightarrow> (Ret (Inr (room\<lparr>r_ID := oid\<rparr>)), d')
         | Inr (OtherID _) \<Rightarrow> (Panic TypeAssertion, d'))"

definition repo_GetRoomByID :: "'d mongo \<Rightarrow> u64 \<Rightarrow> 'd \<Rightarrow> (repo_error + room) \<times> 'd" where
  "repo_GetRoomByID db roomID d =
     (let (res, d') = rooms_FindOne db (RoomIdIs roomID) d
      in case res of
           Inl NoDocuments \<Rightarrow> (Inl NotFound, d')
         | Inl DriverError \<Rightarrow> (Inl OpFailed, d')
         | Inr room \<Rightarrow> (Inr room, d'))"

definition room_list_filter :: "int \<Rightarrow> room_filter" where
  "room_list_filter gameType = WaitingRooms (if gameType > 0 then Some gameType else None) 0"

definition repo_GetRoomList ::
  "'d mongo \<Rightarrow> int \<Rightarrow> int \<Rightarrow> int \<Rightarrow> 'd \<Rightarrow> (repo_error + room list) \<times> 'd" where
  "repo_GetRoomList db gameType limit offset d =
     (let (res, d') = rooms_Find db (room_list_filter gameType) limit offset d
      in case res of
           Inl FindFailed \<Rightarrow> (Inl OpFailed, d')
         | Inl DecodeFailed \<Rightarrow> (Inl ListDecodeFailed, d')
         | Inr rooms \<Rightarrow> (Inr rooms, d'))"

definition db_result :: "db_error option \<times> 'd \<Rightarrow> repo_error option \<times> 'd" where
  "db_result x = (case x of (None, d) \<Rightarrow> (None, d) | (Some _, d) \<Rightarrow> (Some OpFailed, d))"

definition repo_UpdateRoom :: "'d mongo \<Rightarrow> time \<Rightarrow> room \<Rightarrow> 'd \<Rightarrow> repo_error option \<times> 'd" where
  "repo_UpdateRoom db now room0 d =
     (let room = room0\<lparr>r_UpdatedAt := now\<rparr>
      in db_result (rooms_UpdateOne db (RoomIdIs (r_RoomID room)) [SetRoom room] d))"

definition repo_AddPlayerToRoom ::
  "'d mongo \<Rightarrow> time \<Rightarrow> u64 \<Rightarrow> room_player \<Rightarrow> 'd \<Rightarrow> repo_error option \<times> 'd" where
  "repo_AddPlayerToRoom db now roomID player d =
     db_result (rooms_UpdateOne db (RoomIdIs roomID)
       [PushPlayer player, IncPlayers 1, SetRoomUpdatedAt now] d)"

definition repo_RemovePlayerFromRoom ::
  "'d mongo \<Rightarrow> time \<Rightarrow> u64 \<Rightarrow> u64 \<Rightarrow> 'd \<Rightarrow> repo_error option \<times> 'd" where
  "repo_RemovePlayerFromRoom db now roomID userID d =
     db_result (rooms_UpdateOne db (RoomIdIs roomID)
       [PullPlayer userID, IncPlayers (- 1), SetRoomUpdatedAt now] d)"

definition repo_DeleteRoom :: "'d mongo \<Rightarrow> u64 \<Rightarrow> 'd \<Rightarrow> repo_error option \<times> 'd" where
  "repo_DeleteRoom db roomID d = db_result (rooms_DeleteOne db (RoomIdIs roomID) d)"

definition repo_CountRooms :: "'d mongo \<Rightarrow> int \<Rightarrow> 'd \<Rightarrow> (repo_error + int) \<times> 'd" where
  "repo_CountRooms db gameType d =
     (let (res, d') = rooms_CountDocuments db (room_list_filter gameType) d
      in case res of Inl _ \<Rightarrow> (Inl OpFailed, d') | Inr n \<Rightarrow> (Inr n, d'))"

section \<open>The user repository\<close>

definition repo_CreateUser ::
  "'d mongo \<Rightarrow> (nat \<Rightarrow> time) \<Rightarrow> user \<Rightarrow> 'd \<Rightarrow> (repo_error + user) outcome \<times> 'd" where
  "repo_CreateUser db now user0 d =
     (let user = user0\<lparr>u_CreatedAt := now 0, u_UpdatedAt := now 1\<rparr>;
          (res, d') = users_InsertOne db user d
      in case res of
           Inl _ \<Rightarrow> (Ret (Inl OpFailed), d')
         | Inr (ObjectID oid) \<Rightarrow> (Ret (Inr (user\<lparr>u_ID := oid\<rparr>)), d')
         | Inr (OtherID _) \<Rightarrow> (Panic TypeAssertion, d'))"

definition find_user :: "'d mongo \<Rightarrow> user_filter \<Rightarrow> 'd \<Rightarrow> (repo_error + user) \<times> 'd" where
  "find_user db filt d =
     (let (res, d') = users_FindOne db filt d
      in case res of
           Inl NoDocuments \<Rightarrow> (Inl NotFound, d')
         | Inl DriverError \<Rightarrow> (Inl OpFailed, d')
         | Inr user \<Rightarrow> (Inr user, d'))"

definition repo_GetByUserID :: "'d mongo \<Rightarrow> u64 \<Rightarrow> 'd \<Rightarrow> (repo_error + user) \<times> 'd" where
  "repo_GetByUserID db userID d = find_user db (UserIdIs userID) d"

definition repo_GetByUsername :: "'d mongo \<Rightarrow> string \<Rightarrow> 'd \<Rightarrow> (repo_error + user) \<times> 'd" where
  "repo_GetByUsername db username d = find_user db (UsernameIs username) d"

definition repo_UpdateUser :: "'d mongo \<Rightarrow> time \<Rightarrow> user \<Rightarrow> 'd \<Rightarrow> repo_error option \<times> 'd" where
  "repo_UpdateUser db now user0 d =
     (let user = user0\<lparr>u_UpdatedAt := now\<rparr>
      in db_result (users_UpdateOne db (UserIdIs (u_UserID user)) [SetUser user] d))"

text \<open>The caller's map gets the key \<open>updated_at\<close>, replacing one it may have.\<close>

definition repo_UpdateFields ::
  "'d mongo \<Rightarrow> time \<Rightarrow> u64 \<Rightarrow> (string \<times> field_value) list \<Rightarrow> 'd \<Rightarrow> repo_error option \<times> 'd" where
  "repo_UpdateFields db now userID flds d =
     (let flds' = (''updated_at'', FTime now) # filter (\<lambda>kv. fst kv \<noteq> ''updated_at'') flds
      in db_result (users_UpdateOne db (UserIdIs userID) [SetFields flds'] d))"

definition repo_DeleteUser :: "'d mongo \<Rightarrow> u64 \<Rightarrow> 'd \<Rightarrow> repo_error option \<times> 'd" where
  "repo_DeleteUser db userID d = db_result (users_DeleteOne db (UserIdIs userID) d)"

definition repo_ListUsers ::
  "'d mongo \<Rightarrow> int \<Rightarrow> int \<Rightarrow> 'd \<Rightarrow> (repo_error + user list) \<times> 'd" where
  "repo_ListUsers db offset limit d =
     (let (res, d') = users_Find db AnyUser limit offset d
      in case res of
           Inl FindFailed \<Rightarrow> (Inl OpFailed, d')
         | Inl DecodeFailed \<Rightarrow> (Inl ListDecodeFailed, d')
         | Inr users \<Rightarrow> (Inr users, d'))"

section \<open>What MongoDB documents\<close>

text \<open>A BSON date keeps milliseconds.\<close>

definition bson_date :: "time \<Rightarrow> time" where
  "bson_date t = t div 1000000 * 1000000"

definition stored_room :: "room \<Rightarrow> room" where
  "stored_room r = r\<lparr>r_CreatedAt := bson_date (r_CreatedAt r), r_UpdatedAt := bson_date (r_UpdatedAt r)\<rparr>"

text \<open>
  \<open>$set\<close> of a struct leaves \<open>_id\<close> as it is and skips a field tagged
  \<open>omitempty\<close> that is empty.
\<close>

fun apply_room_update :: "room_update \<Rightarrow> room \<Rightarrow> room" where
  "apply_room_update (SetRoom new) r =
     (stored_room new)\<lparr>r_ID := r_ID r,
        r_Password := (if r_Password new = '''' then r_Password r else r_Password new)\<rparr>"
| "apply_room_update (PushPlayer p) r = r\<lparr>r_Players := r_Players r @ [p]\<rparr>"
| "apply_room_update (IncPlayers k) r = r\<lparr>r_CurrentPlayers := r_CurrentPlayers r + k\<rparr>"
| "apply_room_update (PullPlayer uid) r =
     r\<lparr>r_Players := filter (\<lambda>p. rp_UserID p \<noteq> uid) (r_Players r)\<rparr>"
| "apply_room_update (SetRoomUpdatedAt t) r = r\<lparr>r_UpdatedAt := bson_date t\<rparr>"

definition update_room :: "room_update list \<Rightarrow> u64 \<Rightarrow> (u64 \<rightharpoonup> room) \<Rightarrow> u64 \<rightharpoonup> room" where
  "update_room us i m =
     (case m i of None \<Rightarrow> m | Some r \<Rightarrow> m(i \<mapsto> fold apply_room_update us r))"

fun keeps_room_id :: "u64 \<Rightarrow> room_update \<Rightarrow> bool" where
  "keeps_room_id i (SetRoom r) = (r_RoomID r = i)"
| "keeps_room_id i _ = True"

fun room_matches :: "room_filter \<Rightarrow> room \<Rightarrow> bool" where
  "room_matches (RoomIdIs i) r = (r_RoomID r = i)"
| "room_matches (WaitingRooms gt st) r = (r_Status r = st \<and> (\<forall>g \<in> set_option gt. r_GameType r = g))"

text \<open>The fields that the program updates one by one.\<close>

fun set_user_field :: "string \<times> field_value \<Rightarrow> user \<Rightarrow> user" where
  "set_user_field (k, FTime t) u =
     (if k = ''last_login_at'' then u\<lparr>u_LastLoginAt := bson_date t\<rparr>
      else if k = ''updated_at'' then u\<lparr>u_UpdatedAt := bson_date t\<rparr> else u)"
| "set_user_field (k, FStr s) u = (if k = ''last_login_ip'' then u\<lparr>u_LastLoginIP := s\<rparr> else u)"
| "set_user_field (k, FInt n) u = u"

fun known_field :: "string \<times> field_value \<Rightarrow> bool" where
  "known_field (k, FTime t) = (k \<in> {''last_login_at'', ''updated_at''})"
| "known_field (k, FStr s) = (k = ''last_login_ip'')"
| "known_field (k, FInt n) = False"

text \<open>
  The documents of the two collections by their unique keys. A method that reports success has
  done what it says; one that reports an error may still have been applied. Reads change nothing.
\<close>

locale mongo_driver =
  fixes db :: "'d mongo"
    and rooms :: "'d \<Rightarrow> u64 \<rightharpoonup> room"
    and users :: "'d \<Rightarrow> u64 \<rightharpoonup> user"
  assumes rooms_keyed: "rooms d i = Some r \<Longrightarrow> r_RoomID r = i"
    and users_keyed: "users d i = Some u \<Longrightarrow> u_UserID u = i"
    and rooms_insert: "rooms_InsertOne db r d = (ins, d') \<Longrightarrow> users d' = users d \<and>
      ((rooms d (r_RoomID r) = None \<and>
        (\<exists>oid. (\<forall>x. ins = Inr x \<longrightarrow> x = ObjectID oid) \<and>
          rooms d' = (rooms d)(r_RoomID r \<mapsto> (stored_room r)\<lparr>r_ID := oid\<rparr>))) \<or>
       ((\<exists>e. ins = Inl e) \<and> rooms d' = rooms d))"
    and rooms_find_one: "rooms_FindOne db (RoomIdIs i) d = (fres, d') \<Longrightarrow>
      rooms d' = rooms d \<and> users d' = users d \<and> (\<forall>r. fres = Inr r \<longrightarrow> rooms d i = Some r) \<and>
      (fres = Inl NoDocuments \<longrightarrow> rooms d i = None)"
    and rooms_find: "rooms_Find db f limit skip d = (lres, d') \<Longrightarrow>
      rooms d' = rooms d \<and> users d' = users d \<and>
      (\<forall>rs. lres = Inr rs \<longrightarrow> 0 < limit \<longrightarrow> int (length rs) \<le> limit \<and> distinct (map r_RoomID rs) \<and>
         sorted_wrt (\<lambda>a b. r_CreatedAt b \<le> r_CreatedAt a) rs \<and>
         (\<forall>r \<in> set rs. room_matches f r \<and> rooms d (r_RoomID r) = Some r))"
    and rooms_update: "rooms_UpdateOne db (RoomIdIs i) us d = (err, d') \<Longrightarrow> list_all (keeps_room_id i) us \<Longrightarrow>
      users d' = users d \<and>
      (rooms d' = update_room us i (rooms d) \<or> err \<noteq> None \<and> rooms d' = rooms d)"
    and rooms_delete: "rooms_DeleteOne db (RoomIdIs i) d = (err, d') \<Longrightarrow> users d' = users d \<and>
      (rooms d' = (rooms d)(i := None) \<or> err \<noteq> None \<and> rooms d' = rooms d)"
    and rooms_count: "rooms_CountDocuments db f d = (cres, d') \<Longrightarrow>
      rooms d' = rooms d \<and> users d' = users d \<and>
      (\<forall>n. cres = Inr n \<longrightarrow> n = int (card {i. \<exists>r. rooms d i = Some r \<and> room_matches f r}))"
    and users_find_id: "users_FindOne db (UserIdIs i) d = (ures, d') \<Longrightarrow>
      rooms d' = rooms d \<and> users d' = users d \<and> (\<forall>u. ures = Inr u \<longrightarrow> users d i = Some u) \<and>
      (ures = Inl NoDocuments \<longrightarrow> users d i = None)"
    and users_find_name: "users_FindOne db (UsernameIs n) d = (ures, d') \<Longrightarrow>
      rooms d' = rooms d \<and> users d' = users d \<and>
      (\<forall>u. ures = Inr u \<longrightarrow> u_Username u = n \<and> users d (u_UserID u) = Some u) \<and>
      (ures = Inl NoDocuments \<longrightarrow> (\<forall>i u. users d i = Some u \<longrightarrow> u_Username u \<noteq> n))"
    and users_update: "users_UpdateOne db (UserIdIs i) [SetFields fs] d = (err, d') \<Longrightarrow>
      list_all known_field fs \<Longrightarrow> rooms d' = rooms d \<and>
      (users d' = (case users d i of None \<Rightarrow> users d | Some u \<Rightarrow> (users d)(i \<mapsto> fold set_user_field fs u)) \<or>
       err \<noteq> None \<and> users d' = users d)"

section \<open>The repositories' contract\<close>

definition all_rooms :: "(room \<Rightarrow> bool) \<Rightarrow> (u64 \<rightharpoonup> room) \<Rightarrow> bool" where
  "all_rooms P m \<longleftrightarrow> (\<forall>i r. m i = Some r \<longrightarrow> P r)"

lemma all_rooms_update:
  "all_rooms P m \<Longrightarrow> (\<And>r. m i = Some r \<Longrightarrow> P r \<Longrightarrow> P (fold apply_room_update us r)) \<Longrightarrow>
   all_rooms P (update_room us i m)"
  by (auto simp: all_rooms_def update_room_def split: option.splits)

lemma all_rooms_delete: "all_rooms P m \<Longrightarrow> all_rooms P (m(i := None))"
  by (simp add: all_rooms_def)

lemma all_rooms_insert: "all_rooms P m \<Longrightarrow> P r \<Longrightarrow> all_rooms P (m(i \<mapsto> r))"
  by (simp add: all_rooms_def)

text \<open>What the room handlers rely on, over the maps they change.\<close>

locale room_store =
  fixes create :: "(nat \<Rightarrow> time) \<Rightarrow> room \<Rightarrow> 'd \<Rightarrow> (repo_error + room) outcome \<times> 'd"
    and get_room :: "u64 \<Rightarrow> 'd \<Rightarrow> (repo_error + room) \<times> 'd"
    and update :: "time \<Rightarrow> room \<Rightarrow> 'd \<Rightarrow> repo_error option \<times> 'd"
    and add :: "time \<Rightarrow> u64 \<Rightarrow> room_player \<Rightarrow> 'd \<Rightarrow> repo_error option \<times> 'd"
    and remove :: "time \<Rightarrow> u64 \<Rightarrow> u64 \<Rightarrow> 'd \<Rightarrow> repo_error option \<times> 'd"
    and delete :: "u64 \<Rightarrow> 'd \<Rightarrow> repo_error option \<times> 'd"
    and rooms :: "'d \<Rightarrow> u64 \<rightharpoonup> room"
  assumes create_law: "create now r d = (res, d') \<Longrightarrow> (\<exists>x. res = Ret x) \<and>
      ((rooms d (r_RoomID r) = None \<and> (\<exists>oid. rooms d' = (rooms d)(r_RoomID r \<mapsto>
           (stored_room (r\<lparr>r_CreatedAt := now 0, r_UpdatedAt := now 1\<rparr>))\<lparr>r_ID := oid\<rparr>) \<and>
           (\<forall>r'. res = Ret (Inr r') \<longrightarrow> r' = r\<lparr>r_CreatedAt := now 0, r_UpdatedAt := now 1, r_ID := oid\<rparr>))) \<or>
       ((\<exists>e. res = Ret (Inl e)) \<and> rooms d' = rooms d))"
    and get_law: "get_room i d = (gres, d') \<Longrightarrow> rooms d' = rooms d \<and>
      (\<forall>r. gres = Inr r \<longrightarrow> rooms d i = Some r \<and> r_RoomID r = i) \<and> (gres = Inl NotFound \<longrightarrow> rooms d i = None)"
    and update_law: "update t r d = (err, d') \<Longrightarrow>
      rooms d' = update_room [SetRoom (r\<lparr>r_UpdatedAt := t\<rparr>)] (r_RoomID r) (rooms d) \<or>
      err \<noteq> None \<and> rooms d' = rooms d"
    and add_law: "add t i p d = (err, d') \<Longrightarrow>
      rooms d' = update_room [PushPlayer p, IncPlayers 1, SetRoomUpdatedAt t] i (rooms d) \<or>
      err \<noteq> None \<and> rooms d' = rooms d"
    and remove_law: "remove t i uid d = (err, d') \<Longrightarrow>
      rooms d' = update_room [PullPlayer uid, IncPlayers (- 1), SetRoomUpdatedAt t] i (rooms d) \<or>
      err \<noteq> None \<and> rooms d' = rooms d"
    and delete_law: "delete i d = (err, d') \<Longrightarrow>
      rooms d' = (rooms d)(i := None) \<or> err \<noteq> None \<and> rooms d' = rooms d"
begin

text \<open>A property of single rooms survives the operations under local conditions.\<close>

lemma create_all:
  assumes "create now r d = (res, d')" and "all_rooms P (rooms d)"
    and "\<And>oid. P ((stored_room (r\<lparr>r_CreatedAt := now 0, r_UpdatedAt := now 1\<rparr>))\<lparr>r_ID := oid\<rparr>)"
  shows "all_rooms P (rooms d')"
  using create_law [OF assms(1)] assms(2,3) all_rooms_insert by metis

lemma update_all:
  assumes "update t r d = (err, d')" and "all_rooms P (rooms d)"
    and "\<And>old. rooms d (r_RoomID r) = Some old \<Longrightarrow> P old \<Longrightarrow> P (apply_room_update (SetRoom (r\<lparr>r_UpdatedAt := t\<rparr>)) old)"
  shows "all_rooms P (rooms d')"
  using update_law [OF assms(1)] assms(2,3) all_rooms_update [of P "rooms d" "r_RoomID r"]
  by fastforce

lemma add_all:
  assumes "add t i p d = (err, d')" and "all_rooms P (rooms d)"
    and "\<And>r. rooms d i = Some r \<Longrightarrow> P r \<Longrightarrow>
      P (r\<lparr>r_Players := r_Players r @ [p], r_CurrentPlayers := r_CurrentPlayers r + 1, r_UpdatedAt := bson_date t\<rparr>)"
  shows "all_rooms P (rooms d')"
  using add_law [OF assms(1)] assms(2,3) all_rooms_update [of P "rooms d" i] by fastforce

lemma remove_all:
  assumes "remove t i uid d = (err, d')" and "all_rooms P (rooms d)"
    and "\<And>r. rooms d i = Some r \<Longrightarrow> P r \<Longrightarrow>
      P (r\<lparr>r_Players := filter (\<lambda>p. rp_UserID p \<noteq> uid) (r_Players r),
           r_CurrentPlayers := r_CurrentPlayers r - 1, r_UpdatedAt := bson_date t\<rparr>)"
  shows "all_rooms P (rooms d')"
  using remove_law [OF assms(1)] assms(2,3) all_rooms_update [of P "rooms d" i] by fastforce

lemma delete_all:
  assumes "delete i d = (err, d')" and "all_rooms P (rooms d)"
  shows "all_rooms P (rooms d')"
  using delete_law [OF assms(1)] assms(2) all_rooms_delete by metis

end

text \<open>The repository on any driver that does what MongoDB documents.\<close>

sublocale mongo_driver \<subseteq> store: room_store "repo_CreateRoom db" "repo_GetRoomByID db" "repo_UpdateRoom db"
  "repo_AddPlayerToRoom db" "repo_RemovePlayerFromRoom db" "repo_DeleteRoom db" rooms
proof unfold_locales
  fix now r d res and d' :: 'd
  assume a: "repo_CreateRoom db now r d = (res, d')"
  let ?r = "r\<lparr>r_CreatedAt := now 0, r_UpdatedAt := now 1\<rparr>"
  obtain ins where ins: "rooms_InsertOne db ?r d = (ins, d')"
    using a by (auto simp: repo_CreateRoom_def Let_def split: prod.splits sum.splits inserted_id.splits)
  show "(\<exists>x. res = Ret x) \<and>
      ((rooms d (r_RoomID r) = None \<and> (\<exists>oid. rooms d' = (rooms d)(r_RoomID r \<mapsto>
           (stored_room ?r)\<lparr>r_ID := oid\<rparr>) \<and>
           (\<forall>r'. res = Ret (Inr r') \<longrightarrow> r' = r\<lparr>r_CreatedAt := now 0, r_UpdatedAt := now 1, r_ID := oid\<rparr>))) \<or>
       ((\<exists>e. res = Ret (Inl e)) \<and> rooms d' = rooms d))"
    using rooms_insert [OF ins] a ins
    by (fastforce simp: repo_CreateRoom_def Let_def split: sum.splits inserted_id.splits)
next
  fix i d gres and d' :: 'd
  assume a: "repo_GetRoomByID db i d = (gres, d')"
  then obtain res where res: "rooms_FindOne db (RoomIdIs i) d = (res, d')"
    by (auto simp: repo_GetRoomByID_def Let_def split: prod.splits sum.splits db_error.splits)
  then show "rooms d' = rooms d \<and> (\<forall>r. gres = Inr r \<longrightarrow> rooms d i = Some r \<and> r_RoomID r = i) \<and>
      (gres = Inl NotFound \<longrightarrow> rooms d i = None)"
    using rooms_find_one [OF res] rooms_keyed a
    by (auto simp: repo_GetRoomByID_def split: sum.splits db_error.splits)
qed (auto simp: repo_UpdateRoom_def repo_AddPlayerToRoom_def repo_RemovePlayerFromRoom_def
    repo_DeleteRoom_def db_result_def split: prod.splits option.splits dest!: rooms_update rooms_delete)

section \<open>A driver kept in memory\<close>

text \<open>Documents in a list, the newest first, read by their unique key.\<close>

fun uniq :: "('a \<Rightarrow> 'k) \<Rightarrow> 'a list \<Rightarrow> 'a list" where
  "uniq k [] = []"
| "uniq k (x # xs) = x # filter (\<lambda>y. k y \<noteq> k x) (uniq k xs)"

definition by_key :: "('a \<Rightarrow> 'k) \<Rightarrow> 'a list \<Rightarrow> 'k \<rightharpoonup> 'a" where
  "by_key k xs i = List.find (\<lambda>x. k x = i) xs"

lemma by_key_Nil [simp]: "by_key k [] i = None"
  by (simp add: by_key_def)

lemma by_key_Cons [simp]: "by_key k (x # xs) i = (if k x = i then Some x else by_key k xs i)"
  by (simp add: by_key_def)

lemma by_key_Some: "by_key k xs i = Some x \<Longrightarrow> k x = i"
  by (auto simp: by_key_def dest: find_Some_mem)

lemma by_key_filter: "by_key k (filter (\<lambda>y. k y \<noteq> j) xs) i = (if i = j then None else by_key k xs i)"
  by (induction xs) auto

lemma uniq_distinct: "distinct (map k (uniq k xs))"
  by (induction xs) (auto simp: distinct_map inj_on_def)

lemma by_key_uniq [simp]: "by_key k (uniq k xs) = by_key k xs"
  by (induction xs) (auto simp: by_key_filter fun_eq_iff)

lemma uniq_mem: "x \<in> set (uniq k xs) \<longleftrightarrow> by_key k xs (k x) = Some x"
  by (induction xs) auto

lemma by_key_map:
  assumes "\<And>x. k x = i \<Longrightarrow> k (f x) = i"
  shows "by_key k (map (\<lambda>x. if k x = i then f x else x) xs) =
    (case by_key k xs i of None \<Rightarrow> by_key k xs | Some x \<Rightarrow> (by_key k xs)(i \<mapsto> f x))"
  by (induction xs) (use assms in \<open>auto simp: fun_eq_iff split: option.splits\<close>)

lemma card_by_key:
  "card {i. \<exists>x. by_key k xs i = Some x \<and> P x} = length (filter P (uniq k xs))"
proof -
  have "{i. \<exists>x. by_key k xs i = Some x \<and> P x} = k ` set (filter P (uniq k xs))"
    using by_key_Some by (fastforce simp: uniq_mem)
  also have "card \<dots> = length (filter P (uniq k xs))"
    using distinct_card [of "map k (filter P (uniq k xs))"] uniq_distinct [of k xs]
    by (simp add: distinct_map_filter)
  finally show ?thesis .
qed

record mem_db =
  mem_rooms :: "room list"
  mem_users :: "user list"

definition mem_oid :: "mem_db \<Rightarrow> string" where
  "mem_oid d = show_nat (length (mem_rooms d) + length (mem_users d))"

definition mem_list :: "int \<Rightarrow> int \<Rightarrow> room_filter \<Rightarrow> room list \<Rightarrow> room list" where
  "mem_list limit skip f xs = take (nat limit) (drop (nat skip)
     (sort_key (\<lambda>r. - r_CreatedAt r) (filter (room_matches f) (uniq r_RoomID xs))))"

definition mem_mongo :: "mem_db mongo" where
  "mem_mongo =
     \<lparr>rooms_InsertOne = (\<lambda>r d.
        if by_key r_RoomID (mem_rooms d) (r_RoomID r) = None
        then (Inr (ObjectID (mem_oid d)),
              d\<lparr>mem_rooms := (stored_room r)\<lparr>r_ID := mem_oid d\<rparr> # mem_rooms d\<rparr>)
        else (Inl DriverError, d)),
      rooms_FindOne = (\<lambda>f d.
        (case List.find (room_matches f) (mem_rooms d) of None \<Rightarrow> Inl NoDocuments | Some r \<Rightarrow> Inr r, d)),
      rooms_Find = (\<lambda>f limit skip d.
        (Inr (mem_list limit skip f (mem_rooms d)), d)),
      rooms_UpdateOne = (\<lambda>f us d. case f of
          RoomIdIs i \<Rightarrow> (None, d\<lparr>mem_rooms :=
            map (\<lambda>r. if r_RoomID r = i then fold apply_room_update us r else r) (mem_rooms d)\<rparr>)
        | _ \<Rightarrow> (Some DriverError, d)),
      rooms_DeleteOne = (\<lambda>f d. case f of
          RoomIdIs i \<Rightarrow> (None, d\<lparr>mem_rooms := filter (\<lambda>r. r_RoomID r \<noteq> i) (mem_rooms d)\<rparr>)
        | _ \<Rightarrow> (Some DriverError, d)),
      rooms_CountDocuments = (\<lambda>f d.
        (Inr (int (length (filter (room_matches f) (uniq r_RoomID (mem_rooms d))))), d)),
      users_InsertOne = (\<lambda>u d. (Inr (ObjectID (mem_oid d)),
        d\<lparr>mem_users := u\<lparr>u_ID := mem_oid d\<rparr> # mem_users d\<rparr>)),
      users_FindOne = (\<lambda>f d.
        (case (case f of UserIdIs i \<Rightarrow> by_key u_UserID (mem_users d) i
                 | UsernameIs n \<Rightarrow> List.find (\<lambda>u. u_Username u = n) (uniq u_UserID (mem_users d))
                 | AnyUser \<Rightarrow> None) of
           None \<Rightarrow> Inl NoDocuments | Some u \<Rightarrow> Inr u, d)),
      users_Find = (\<lambda>f limit skip d.
        (Inr (take (nat limit) (drop (nat skip) (uniq u_UserID (mem_users d)))), d)),
      users_UpdateOne = (\<lambda>f us d. case (f, us) of
          (UserIdIs i, [SetFields fs]) \<Rightarrow> (None, d\<lparr>mem_users :=
            map (\<lambda>u. if u_UserID u = i then fold set_user_field fs u else u) (mem_users d)\<rparr>)
        | _ \<Rightarrow> (Some DriverError, d)),
      users_DeleteOne = (\<lambda>f d. case f of
          UserIdIs i \<Rightarrow> (None, d\<lparr>mem_users := filter (\<lambda>u. u_UserID u \<noteq> i) (mem_users d)\<rparr>)
        | _ \<Rightarrow> (Some DriverError, d))\<rparr>"

definition mem_room_view :: "mem_db \<Rightarrow> u64 \<rightharpoonup> room" where
  "mem_room_view d = by_key r_RoomID (mem_rooms d)"

definition mem_user_view :: "mem_db \<Rightarrow> u64 \<rightharpoonup> user" where
  "mem_user_view d = by_key u_UserID (mem_users d)"

lemmas mem_defs = mem_mongo_def mem_room_view_def mem_user_view_def

lemma fold_keeps_id:
  "r_RoomID r = i \<Longrightarrow> list_all (keeps_room_id i) us \<Longrightarrow> r_RoomID (fold apply_room_update us r) = i"
proof (induction us arbitrary: r)
  case Nil
  then show ?case by simp
next
  case (Cons u us)
  have "r_RoomID (apply_room_update u r) = i"
    using Cons.prems by (cases u) (simp_all add: stored_room_def)
  with Cons show ?case by simp
qed

lemma set_user_field_id [simp]: "u_UserID (set_user_field f u) = u_UserID u"
  by (cases "(f, u)" rule: set_user_field.cases) simp_all

lemma fold_user_id [simp]: "u_UserID (fold set_user_field fs u) = u_UserID u"
  by (induction fs arbitrary: u) simp_all

lemma stored_room_id [simp]: "r_RoomID (stored_room r) = r_RoomID r"
  by (simp add: stored_room_def)

lemma mem_Find:
  assumes "0 < limit"
    and rs: "rs = mem_list limit skip f xs"
  shows "int (length rs) \<le> limit" and "distinct (map r_RoomID rs)"
    and "sorted_wrt (\<lambda>a b. r_CreatedAt b \<le> r_CreatedAt a) rs"
    and "\<forall>r \<in> set rs. room_matches f r \<and> by_key r_RoomID xs (r_RoomID r) = Some r"
proof -
  let ?ys = "filter (room_matches f) (uniq r_RoomID xs)"
  let ?zs = "sort_key (\<lambda>r. - r_CreatedAt r) ?ys"
  show "int (length rs) \<le> limit" using assms by (simp add: mem_list_def)
  have ys: "distinct (map r_RoomID ?ys)" using uniq_distinct [of r_RoomID xs] by (simp add: distinct_map_filter)
  have "mset (map r_RoomID ?zs) = mset (map r_RoomID ?ys)" by simp
  then have "distinct (map r_RoomID ?zs)" using ys mset_eq_imp_distinct_iff by metis
  then show "distinct (map r_RoomID rs)" by (simp add: rs mem_list_def take_map [symmetric] drop_map [symmetric])
  have "sorted (map (\<lambda>r. - r_CreatedAt r) ?zs)" by simp
  then have "sorted (map (\<lambda>r. - r_CreatedAt r) rs)"
    by (simp add: rs mem_list_def take_map [symmetric] drop_map [symmetric] sorted_wrt_take sorted_wrt_drop)
  then show "sorted_wrt (\<lambda>a b. r_CreatedAt b \<le> r_CreatedAt a) rs" by (simp add: sorted_wrt_map)
  have "set rs \<subseteq> set ?ys" by (auto simp: rs mem_list_def dest!: in_set_takeD in_set_dropD)
  then show "\<forall>r \<in> set rs. room_matches f r \<and> by_key r_RoomID xs (r_RoomID r) = Some r"
    by (auto simp: uniq_mem)
qed

lemma mem_find_name_Some:
  assumes "List.find (\<lambda>u. u_Username u = n) (uniq u_UserID us) = Some u"
  shows "u_Username u = n" and "by_key u_UserID us (u_UserID u) = Some u"
  using find_Some_mem [OF assms] by (simp_all add: uniq_mem)

lemma mem_find_name_None:
  assumes "List.find (\<lambda>u. u_Username u = n) (uniq u_UserID us) = None"
    and "by_key u_UserID us i = Some u"
  shows "u_Username u \<noteq> n"
proof -
  have "u \<in> set (uniq u_UserID us)" using by_key_Some [OF assms(2)] assms(2) by (simp add: uniq_mem)
  then show ?thesis using assms(1) by (auto simp: find_None_iff)
qed

interpretation mem: mongo_driver mem_mongo mem_room_view mem_user_view
proof unfold_locales
  fix f :: room_filter and limit skip res and d d' :: mem_db
  assume "rooms_Find mem_mongo f limit skip d = (res, d')"
  then show "mem_room_view d' = mem_room_view d \<and> mem_user_view d' = mem_user_view d \<and>
      (\<forall>rs. res = Inr rs \<longrightarrow> 0 < limit \<longrightarrow> int (length rs) \<le> limit \<and> distinct (map r_RoomID rs) \<and>
         sorted_wrt (\<lambda>a b. r_CreatedAt b \<le> r_CreatedAt a) rs \<and>
         (\<forall>r \<in> set rs. room_matches f r \<and> mem_room_view d (r_RoomID r) = Some r))"
    using mem_Find [of limit _ skip f "mem_rooms d", OF _ refl]
    by (auto simp add: mem_mongo_def mem_room_view_def)
next
  fix i us res and d d' :: mem_db
  assume "rooms_UpdateOne mem_mongo (RoomIdIs i) us d = (res, d')" and "list_all (keeps_room_id i) us"
  then show "mem_user_view d' = mem_user_view d \<and>
      (mem_room_view d' = update_room us i (mem_room_view d) \<or> res \<noteq> None \<and> mem_room_view d' = mem_room_view d)"
    using by_key_map [of r_RoomID i "fold apply_room_update us" "mem_rooms d"] fold_keeps_id
    by (auto simp: mem_defs update_room_def)
next
  fix i fs and res' :: "db_error option" and d d' :: mem_db
  assume "users_UpdateOne mem_mongo (UserIdIs i) [SetFields fs] d = (res', d')"
  then show "mem_room_view d' = mem_room_view d \<and>
      (mem_user_view d' = (case mem_user_view d i of None \<Rightarrow> mem_user_view d
         | Some u \<Rightarrow> (mem_user_view d)(i \<mapsto> fold set_user_field fs u)) \<or>
       res' \<noteq> None \<and> mem_user_view d' = mem_user_view d)"
    using by_key_map [of u_UserID i "fold set_user_field fs" "mem_users d"]
    by (auto simp: mem_mongo_def mem_room_view_def mem_user_view_def split: option.splits)
next
  fix f :: room_filter and cres and d d' :: mem_db
  assume "rooms_CountDocuments mem_mongo f d = (cres, d')"
  then show "mem_room_view d' = mem_room_view d \<and> mem_user_view d' = mem_user_view d \<and>
      (\<forall>n. cres = Inr n \<longrightarrow> n = int (card {i. \<exists>r. mem_room_view d i = Some r \<and> room_matches f r}))"
    by (auto simp: mem_defs card_by_key)
next
  fix n ures and d d' :: mem_db
  assume a: "users_FindOne mem_mongo (UsernameIs n) d = (ures, d')"
  then have d: "d' = d" by (simp add: mem_mongo_def)
  show "mem_room_view d' = mem_room_view d \<and> mem_user_view d' = mem_user_view d \<and>
      (\<forall>u. ures = Inr u \<longrightarrow> u_Username u = n \<and> mem_user_view d (u_UserID u) = Some u) \<and>
      (ures = Inl NoDocuments \<longrightarrow> (\<forall>i u. mem_user_view d i = Some u \<longrightarrow> u_Username u \<noteq> n))"
  proof (cases "List.find (\<lambda>u. u_Username u = n) (uniq u_UserID (mem_users d))")
    case None
    then have "ures = Inl NoDocuments" using a by (simp add: mem_mongo_def)
    then show ?thesis using mem_find_name_None [OF None] d unfolding mem_user_view_def by blast
  next
    case (Some u)
    then have "ures = Inr u" using a by (simp add: mem_mongo_def)
    then show ?thesis using mem_find_name_Some [OF Some] d unfolding mem_user_view_def by blast
  qed
next
  fix r res and d d' :: mem_db
  assume "rooms_InsertOne mem_mongo r d = (res, d')"
  then show "mem_user_view d' = mem_user_view d \<and>
      ((mem_room_view d (r_RoomID r) = None \<and>
        (\<exists>oid. (\<forall>x. res = Inr x \<longrightarrow> x = ObjectID oid) \<and>
          mem_room_view d' = (mem_room_view d)(r_RoomID r \<mapsto> (stored_room r)\<lparr>r_ID := oid\<rparr>))) \<or>
       ((\<exists>e. res = Inl e) \<and> mem_room_view d' = mem_room_view d))"
    by (auto simp: mem_defs fun_eq_iff split: if_splits)
next
  fix i res and d d' :: mem_db
  assume "rooms_DeleteOne mem_mongo (RoomIdIs i) d = (res, d')"
  then show "mem_user_view d' = mem_user_view d \<and>
      (mem_room_view d' = (mem_room_view d)(i := None) \<or> res \<noteq> None \<and> mem_room_view d' = mem_room_view d)"
    by (auto simp: mem_defs by_key_filter fun_eq_iff)
next
  fix i res and d d' :: mem_db
  assume "rooms_FindOne mem_mongo (RoomIdIs i) d = (res, d')"
  moreover have "room_matches (RoomIdIs i) = (\<lambda>r. r_RoomID r = i)" by (simp add: fun_eq_iff)
  ultimately show "mem_room_view d' = mem_room_view d \<and> mem_user_view d' = mem_user_view d \<and>
      (\<forall>r. res = Inr r \<longrightarrow> mem_room_view d i = Some r) \<and> (res = Inl NoDocuments \<longrightarrow> mem_room_view d i = None)"
    by (auto simp: mem_defs by_key_def split: option.splits)
next
  fix i ures and d d' :: mem_db
  assume "users_FindOne mem_mongo (UserIdIs i) d = (ures, d')"
  then show "mem_room_view d' = mem_room_view d \<and> mem_user_view d' = mem_user_view d \<and>
      (\<forall>u. ures = Inr u \<longrightarrow> mem_user_view d i = Some u) \<and> (ures = Inl NoDocuments \<longrightarrow> mem_user_view d i = None)"
    by (auto simp: mem_defs split: option.splits)
qed (auto simp: mem_defs dest: by_key_Some)

end
