(* ===== verification/Lobby.thy ===== *)
theory Lobby
  imports Repos
begin

text \<open>
  The lobby service, \<open>internal/server/lobby_server.go\<close>: room ids, the room list, and
  creating, joining and leaving a room, on the repositories. \<open>proto.Marshal\<close> and
  \<open>proto.Unmarshal\<close> are parameters. The handlers read the clock in sequence:
  \<open>now i\<close> is the value of the \<open>i\<close>-th \<open>time.Now()\<close> of the call. The handlers build a user
  repository for every call, which asks MongoDB to create its indexes again and ignores the answer;
  this is left out.
\<close>

section \<open>Messages and state\<close>

record game_player_info =
  gp_UserId :: u64
  gp_Nickname :: string
  gp_Level :: int
  gp_Status :: int

record room_info =
  ri_RoomId :: u64
  ri_RoomName :: string
  ri_GameType :: int
  ri_CurrentPlayers :: int
  ri_MaxPlayers :: int
  ri_Status :: int
  ri_IsPrivate :: bool
  ri_Owner :: "game_player_info option"
  ri_Players :: "game_player_info list"
  ri_CreatedTime :: u32

record room_list_response =
  rl_Rooms :: "room_info list"
  rl_Total :: int

record create_room_request =
  cr_RoomName :: string
  cr_GameType :: int
  cr_MaxPlayers :: int
  cr_IsPrivate :: bool
  cr_Password :: string

record join_room_request =
  jr_RoomId :: u64
  jr_Password :: string

record lobby_codec =
  unmarshal_create :: "bytes \<Rightarrow> create_room_request option"
  unmarshal_join :: "bytes \<Rightarrow> join_room_request option"
  marshal_room :: "room_info \<Rightarrow> bytes option"
  marshal_list :: "room_list_response \<Rightarrow> bytes option"
  marshal_reply :: "base_response \<Rightarrow> bytes option"

record lobby =
  lb_nextRoomID :: u64

definition NewLobbyServer :: lobby where
  "NewLobbyServer = \<lparr>lb_nextRoomID = 1000\<rparr>"

definition generateRoomID :: "lobby \<Rightarrow> u64 \<times> lobby" where
  "generateRoomID ls = (lb_nextRoomID ls, ls\<lparr>lb_nextRoomID := lb_nextRoomID ls + 1\<rparr>)"

definition player_info :: "room_player \<Rightarrow> game_player_info" where
  "player_info p = \<lparr>gp_UserId = rp_UserID p, gp_Nickname = rp_Nickname p, gp_Level = rp_Level p,
     gp_Status = rp_Status p\<rparr>"

definition user_info :: "user \<Rightarrow> int \<Rightarrow> game_player_info" where
  "user_info u status = \<lparr>gp_UserId = u_UserID u, gp_Nickname = u_Nickname u, gp_Level = u_Level u,
     gp_Status = status\<rparr>"

definition info_of_room :: "room \<Rightarrow> game_player_info option \<Rightarrow> room_info" where
  "info_of_room room owner = \<lparr>ri_RoomId = r_RoomID room, ri_RoomName = r_RoomName room,
     ri_GameType = r_GameType room, ri_CurrentPlayers = r_CurrentPlayers room,
     ri_MaxPlayers = r_MaxPlayers room, ri_Status = r_Status room, ri_IsPrivate = r_IsPrivate room,
     ri_Owner = owner, ri_Players = map player_info (r_Players room),
     ri_CreatedTime = u32_of (unix (r_CreatedAt room))\<rparr>"

definition success :: "msg_header option \<Rightarrow> string \<Rightarrow> bytes \<Rightarrow> base_response" where
  "success h msg data = \<lparr>rs_Header = h, rs_Code = 0, rs_Msg = msg, rs_Data = data\<rparr>"

lemma success_simps [simp]:
  "rs_Header (success h m b) = h" "rs_Code (success h m b) = 0" "rs_Data (success h m b) = b"
  by (simp_all add: success_def)

section \<open>GetRoomList\<close>

text \<open>The loop over the rooms: one whose owner cannot be read is left out.\<close>

fun list_infos :: "'d mongo \<Rightarrow> room list \<Rightarrow> 'd \<Rightarrow> room_info list \<times> 'd" where
  "list_infos db [] d = ([], d)"
| "list_infos db (room # rooms) d =
     (case repo_GetByUserID db (r_OwnerID room) d of
        (Inl _, d') \<Rightarrow> list_infos db rooms d'
      | (Inr owner, d') \<Rightarrow>
          (let (infos, d'') = list_infos db rooms d'
           in (info_of_room room (Some (user_info owner 0)) # infos, d'')))"

definition GetRoomList ::
  "lobby_codec \<Rightarrow> 'd mongo \<Rightarrow> base_request \<Rightarrow> 'd \<Rightarrow> base_response \<times> 'd" where
  "GetRoomList codec db req d =
     (let h = rq_Header req; userID = GetUserId h in
      if userID = 0 then (respond h (- 1) ''invalid user id'', d)
      else case repo_GetRoomList db 0 20 0 d of
        (Inl _, d1) \<Rightarrow> (respond h (- 2) ''failed to get room list'', d1)
      | (Inr rooms, d1) \<Rightarrow>
          (let (infos, d2) = list_infos db rooms d1;
               (cnt, d3) = repo_CountRooms db 0 d2;
               total = (case cnt of Inl _ \<Rightarrow> int (length infos) | Inr n \<Rightarrow> n)
           in case marshal_list codec \<lparr>rl_Rooms = infos, rl_Total = i32 total\<rparr> of
                None \<Rightarrow> (respond h (- 3) ''failed to create response'', d3)
              | Some bs \<Rightarrow> (success h ''success'' bs, d3)))"

section \<open>CreateRoom\<close>

definition CreateRoom ::
  "lobby_codec \<Rightarrow> 'd mongo \<Rightarrow> (nat \<Rightarrow> time) \<Rightarrow> base_request \<Rightarrow> lobby \<Rightarrow> 'd \<Rightarrow>
   base_response outcome \<times> lobby \<times> 'd" where
  "CreateRoom codec db now req ls d =
     (let h = rq_Header req; userID = GetUserId h in
      if userID = 0 then (Ret (respond h (- 1) ''invalid user id''), ls, d)
      else case unmarshal_create codec (rq_Data req) of
        None \<Rightarrow> (Ret (respond h (- 2) ''invalid request data''), ls, d)
      | Some q \<Rightarrow>
          if cr_RoomName q = '''' then (Ret (respond h (- 3) ''room name cannot be empty''), ls, d)
          else if cr_MaxPlayers q < 2 \<or> cr_MaxPlayers q > 8
          then (Ret (respond h (- 4) ''max players must be between 2 and 8''), ls, d)
          else if cr_IsPrivate q \<and> cr_Password q = ''''
          then (Ret (respond h (- 5) ''private room requires password''), ls, d)
          else (case repo_GetByUserID db userID d of
            (Inl _, d1) \<Rightarrow> (Ret (respond h (- 6) ''user not found''), ls, d1)
          | (Inr user, d1) \<Rightarrow>
              (let (roomID, ls1) = generateRoomID ls;
                   room = \<lparr>r_ID = '''', r_RoomID = roomID, r_RoomName = cr_RoomName q,
                     r_GameType = cr_GameType q, r_MaxPlayers = cr_MaxPlayers q,
                     r_CurrentPlayers = 1, r_Status = 0, r_IsPrivate = cr_IsPrivate q,
                     r_Password = cr_Password q, r_OwnerID = userID,
                     r_Players = [\<lparr>rp_UserID = userID, rp_Nickname = u_Nickname user,
                       rp_Level = u_Level user, rp_Status = 1, rp_JoinTime = unix (now 0)\<rparr>],
                     r_CreatedAt = zero_time, r_UpdatedAt = zero_time\<rparr>
               in case repo_CreateRoom db (\<lambda>i. now (Suc i)) room d1 of
                    (Panic p, d2) \<Rightarrow> (Panic p, ls1, d2)
                  | (Blocked, d2) \<Rightarrow> (Blocked, ls1, d2)
                  | (Ret (Inl _), d2) \<Rightarrow> (Ret (respond h (- 7) ''failed to create room''), ls1, d2)
                  | (Ret (Inr room'), d2) \<Rightarrow>
                      (let owner = user_info user 1;
                           info = \<lparr>ri_RoomId = roomID, ri_RoomName = cr_RoomName q,
                             ri_GameType = cr_GameType q, ri_CurrentPlayers = 1,
                             ri_MaxPlayers = cr_MaxPlayers q, ri_Status = 0,
                             ri_IsPrivate = cr_IsPrivate q, ri_Owner = Some owner,
                             ri_Players = [owner], ri_CreatedTime = u32_of (unix (r_CreatedAt room'))\<rparr>
                       in case marshal_room codec info of
                            None \<Rightarrow> (Ret (respond h (- 8) ''failed to create response''), ls1, d2)
                          | Some bs \<Rightarrow> (Ret (success h ''room created successfully'' bs), ls1, d2)))))"

section \<open>JoinRoom\<close>

text \<open>
  The handler first reads and checks, then writes: \<open>join_check\<close> ends with the error response
  or with the room id, the room it read and the player to add, \<open>join_commit\<close> is the rest.
\<close>

definition join_check ::
  "lobby_codec \<Rightarrow> 'd mongo \<Rightarrow> time \<Rightarrow> base_request \<Rightarrow> 'd \<Rightarrow>
   (base_response + u64 \<times> room \<times> room_player) \<times> 'd" where
  "join_check codec db t req d =
     (let h = rq_Header req; userID = GetUserId h in
      if userID = 0 then (Inl (respond h (- 1) ''invalid user id''), d)
      else case unmarshal_join codec (rq_Data req) of
        None \<Rightarrow> (Inl (respond h (- 2) ''invalid request data''), d)
      | Some q \<Rightarrow>
          if jr_RoomId q = 0 then (Inl (respond h (- 3) ''invalid room id''), d)
          else (case repo_GetRoomByID db (jr_RoomId q) d of
            (Inl _, d1) \<Rightarrow> (Inl (respond h (- 4) ''room not found''), d1)
          | (Inr room, d1) \<Rightarrow>
              if r_Status room \<noteq> 0 then (Inl (respond h (- 5) ''room is not available''), d1)
              else if r_CurrentPlayers room \<ge> r_MaxPlayers room
              then (Inl (respond h (- 6) ''room is full''), d1)
              else if list_ex (\<lambda>p. rp_UserID p = userID) (r_Players room)
              then (Inl (respond h (- 7) ''already in room''), d1)
              else if r_IsPrivate room \<and> r_Password room \<noteq> jr_Password q
              then (Inl (respond h (- 8) ''wrong password''), d1)
              else (case repo_GetByUserID db userID d1 of
                (Inl _, d2) \<Rightarrow> (Inl (respond h (- 9) ''user not found''), d2)
              | (Inr user, d2) \<Rightarrow>
                  (Inr (jr_RoomId q, room, \<lparr>rp_UserID = userID, rp_Nickname = u_Nickname user,
                     rp_Level = u_Level user, rp_Status = 0, rp_JoinTime = unix t\<rparr>), d2))))"

definition join_commit ::
  "lobby_codec \<Rightarrow> 'd mongo \<Rightarrow> time \<Rightarrow> base_request \<Rightarrow> u64 \<times> room \<times> room_player \<Rightarrow> 'd \<Rightarrow> base_response \<times> 'd" where
  "join_commit codec db t req checked d =
     (let (roomID, room, player) = checked; h = rq_Header req in
      case repo_AddPlayerToRoom db t roomID player d of
        (Some _, d1) \<Rightarrow> (respond h (- 10) ''failed to join room'', d1)
      | (None, d1) \<Rightarrow>
          (let (again, d2) = repo_GetRoomByID db roomID d1;
               updated = (case again of Inl _ \<Rightarrow> room | Inr r \<Rightarrow> r);
               (ow, d3) = repo_GetByUserID db (r_OwnerID updated) d2;
               owner = (case ow of Inl _ \<Rightarrow> None | Inr u \<Rightarrow> Some (user_info u 1))
           in case marshal_room codec (info_of_room updated owner) of
                None \<Rightarrow> (respond h (- 11) ''failed to create response'', d3)
              | Some bs \<Rightarrow> (success h ''joined room successfully'' bs, d3)))"

definition JoinRoom ::
  "lobby_codec \<Rightarrow> 'd mongo \<Rightarrow> (nat \<Rightarrow> time) \<Rightarrow> base_request \<Rightarrow> 'd \<Rightarrow> base_response \<times> 'd" where
  "JoinRoom codec db now req d =
     (case join_check codec db (now 0) req d of
        (Inl resp, d1) \<Rightarrow> (resp, d1)
      | (Inr checked, d1) \<Rightarrow> join_commit codec db (now 1) req checked d1)"

section \<open>LeaveRoom\<close>

text \<open>The error of \<open>UpdateRoom\<close> is only logged.\<close>

definition leave_as_owner ::
  "'d mongo \<Rightarrow> (nat \<Rightarrow> time) \<Rightarrow> u64 \<Rightarrow> u64 \<Rightarrow> room \<Rightarrow> msg_header option \<Rightarrow> 'd \<Rightarrow> base_response option \<times> 'd" where
  "leave_as_owner db now userID roomID room h d =
     (if r_CurrentPlayers room \<le> 1
      then (case repo_DeleteRoom db roomID d of
              (Some _, d1) \<Rightarrow> (Some (respond h (- 6) ''failed to leave room''), d1)
            | (None, d1) \<Rightarrow> (None, d1))
      else (let newOwnerID = (case List.find (\<lambda>p. rp_UserID p \<noteq> userID) (r_Players room) of
                                None \<Rightarrow> 0 | Some p \<Rightarrow> rp_UserID p)
            in if newOwnerID \<noteq> 0
               then (case repo_RemovePlayerFromRoom db (now 0) roomID userID d of
                       (Some _, d1) \<Rightarrow> (Some (respond h (- 7) ''failed to leave room''), d1)
                     | (None, d1) \<Rightarrow>
                         (let (_, d2) = repo_UpdateRoom db (now 1) (room\<lparr>r_OwnerID := newOwnerID\<rparr>) d1
                          in (None, d2)))
               else (None, d)))"

definition LeaveRoom ::
  "lobby_codec \<Rightarrow> 'd mongo \<Rightarrow> (nat \<Rightarrow> time) \<Rightarrow> base_request \<Rightarrow> 'd \<Rightarrow> base_response \<times> 'd" where
  "LeaveRoom codec db now req d =
     (let h = rq_Header req; userID = GetUserId h in
      if userID = 0 then (respond h (- 1) ''invalid user id'', d)
      else case unmarshal_join codec (rq_Data req) of
        None \<Rightarrow> (respond h (- 2) ''invalid request data'', d)
      | Some q \<Rightarrow>
          if jr_RoomId q = 0 then (respond h (- 3) ''invalid room id'', d)
          else (case repo_GetRoomByID db (jr_RoomId q) d of
            (Inl _, d1) \<Rightarrow> (respond h (- 4) ''room not found'', d1)
          | (Inr room, d1) \<Rightarrow>
              if \<not> list_ex (\<lambda>p. rp_UserID p = userID) (r_Players room)
              then (respond h (- 5) ''not in room'', d1)
              else (let (_, d2) = repo_GetByUserID db userID d1;
                        (failed, d3) =
                          (if r_OwnerID room = userID then leave_as_owner db now userID (jr_RoomId q) room h d2
                           else (case repo_RemovePlayerFromRoom db (now 0) (jr_RoomId q) userID d2 of
                                   (Some _, d3) \<Rightarrow> (Some (respond h (- 8) ''failed to leave room''), d3)
                                 | (None, d3) \<Rightarrow> (None, d3)))
                    in case failed of
                         Some resp \<Rightarrow> (resp, d3)
                       | None \<Rightarrow>
                           (case marshal_reply codec (respond h 0 ''left room successfully'') of
                              None \<Rightarrow> (respond h (- 9) ''failed to create response'', d3)
                            | Some _ \<Rightarrow> (respond h 0 ''left room successfully'', d3)))))"

section \<open>The room invariant\<close>

definition room_wf :: "room \<Rightarrow> bool" where
  "room_wf r \<longleftrightarrow> r_CurrentPlayers r = int (length (r_Players r)) \<and> r_CurrentPlayers r \<le> r_MaxPlayers r \<and>
     2 \<le> r_MaxPlayers r \<and> r_MaxPlayers r \<le> 8 \<and> distinct (map rp_UserID (r_Players r)) \<and>
     0 \<notin> rp_UserID ` set (r_Players r)"

lemma room_wf_push:
  assumes "room_wf r" and "r_CurrentPlayers r < r_MaxPlayers r" and "rp_UserID p \<noteq> 0"
    and "\<not> list_ex (\<lambda>q. rp_UserID q = rp_UserID p) (r_Players r)"
  shows "room_wf (r\<lparr>r_Players := r_Players r @ [p], r_CurrentPlayers := r_CurrentPlayers r + 1, r_UpdatedAt := t\<rparr>)"
  using assms by (auto simp: room_wf_def list_ex_iff)

lemma room_wf_pull:
  assumes "room_wf r" and "list_ex (\<lambda>q. rp_UserID q = uid) (r_Players r)"
  shows "room_wf (r\<lparr>r_Players := filter (\<lambda>p. rp_UserID p \<noteq> uid) (r_Players r),
    r_CurrentPlayers := r_CurrentPlayers r - 1, r_UpdatedAt := t\<rparr>)"
proof -
  obtain q where q: "q \<in> set (r_Players r)" "rp_UserID q = uid" using assms(2) by (auto simp: list_ex_iff)
  have "Suc (length (filter (\<lambda>p. rp_UserID p \<noteq> uid) (r_Players r))) = length (r_Players r)"
    using filter_distinct_length [OF _ q(1), of rp_UserID] assms(1) q(2) by (simp add: room_wf_def)
  then show ?thesis using assms(1) by (auto simp: room_wf_def distinct_map_filter)
qed

lemma room_wf_set: "room_wf new \<Longrightarrow> room_wf (apply_room_update (SetRoom (new\<lparr>r_UpdatedAt := t\<rparr>)) old)"
  by (simp add: room_wf_def stored_room_def)

lemma room_wf_owner [simp]: "room_wf (r\<lparr>r_OwnerID := i\<rparr>) = room_wf r"
  by (simp add: room_wf_def)

text \<open>The calls of the service, run one after the other.\<close>

datatype lobby_call = CallGetRoomList | CallCreateRoom | CallJoinRoom | CallLeaveRoom

definition lobby_call ::
  "lobby_codec \<Rightarrow> 'd mongo \<Rightarrow> lobby_call \<times> (nat \<Rightarrow> time) \<times> base_request \<Rightarrow> lobby \<Rightarrow> 'd \<Rightarrow>
   base_response outcome \<times> lobby \<times> 'd" where
  "lobby_call codec db c ls d =
     (let (call, now, req) = c in
      case call of
        CallGetRoomList \<Rightarrow> (let (r, d') = GetRoomList codec db req d in (Ret r, ls, d'))
      | CallCreateRoom \<Rightarrow> CreateRoom codec db now req ls d
      | CallJoinRoom \<Rightarrow> (let (r, d') = JoinRoom codec db now req d in (Ret r, ls, d'))
      | CallLeaveRoom \<Rightarrow> (let (r, d') = LeaveRoom codec db now req d in (Ret r, ls, d')))"

fun lobby_run ::
  "lobby_codec \<Rightarrow> 'd mongo \<Rightarrow> (lobby_call \<times> (nat \<Rightarrow> time) \<times> base_request) list \<Rightarrow> lobby \<Rightarrow> 'd \<Rightarrow>
   base_response outcome list \<times> lobby \<times> 'd" where
  "lobby_run codec db [] ls d = ([], ls, d)"
| "lobby_run codec db (c # cs) ls d =
     (let (r, ls', d') = lobby_call codec db c ls d; (rs, ls'', d'') = lobby_run codec db cs ls' d'
      in (r # rs, ls'', d''))"

context mongo_driver
begin

lemma get_user_law:
  "repo_GetByUserID db i d = (res, d') \<Longrightarrow> rooms d' = rooms d \<and> users d' = users d \<and>
     (\<forall>u. res = Inr u \<longrightarrow> users d i = Some u \<and> u_UserID u = i) \<and> (res = Inl NotFound \<longrightarrow> users d i = None)"
  using users_find_id [of i d] users_keyed [of d i]
  by (fastforce simp: repo_GetByUserID_def find_user_def Let_def
      split: prod.splits sum.splits db_error.splits)

lemma get_room_users: "repo_GetRoomByID db i d = (res, d') \<Longrightarrow> users d' = users d"
  using rooms_find_one [of i d]
  by (auto simp: repo_GetRoomByID_def Let_def split: prod.splits sum.splits db_error.splits)

lemma list_infos_rooms: "list_infos db rs d = (infos, d') \<Longrightarrow> rooms d' = rooms d \<and> users d' = users d \<and> length infos \<le> length rs"
proof (induction rs arbitrary: d d' infos)
  case Nil
  then show ?case by simp
next
  case (Cons r rs)
  obtain res d1 where g: "repo_GetByUserID db (r_OwnerID r) d = (res, d1)" by fastforce
  obtain infos' d2 where l: "list_infos db rs d1 = (infos', d2)" by fastforce
  have "rooms d2 = rooms d1 \<and> users d2 = users d1 \<and> length infos' \<le> length rs" using Cons.IH [OF l] .
  then show ?case using Cons.prems g l get_user_law [OF g] by (auto split: sum.splits)
qed

lemma get_list_law:
  "repo_GetRoomList db g 20 0 d = (res, d') \<Longrightarrow> rooms d' = rooms d \<and> users d' = users d \<and>
     (\<forall>rs. res = Inr rs \<longrightarrow> length rs \<le> 20)"
  using rooms_find [of "room_list_filter g" 20 0 d]
  by (fastforce simp: repo_GetRoomList_def Let_def split: prod.splits sum.splits find_error.splits)

lemma count_law: "repo_CountRooms db g d = (res, d') \<Longrightarrow> rooms d' = rooms d \<and> users d' = users d"
  using rooms_count [of "room_list_filter g" d]
  by (auto simp: repo_CountRooms_def Let_def split: prod.splits sum.splits)

lemma GetRoomList_reads:
  assumes "GetRoomList codec db req d = (resp, d')"
  shows "rooms d' = rooms d"
proof -
  obtain res d1 where g: "repo_GetRoomList db 0 20 0 d = (res, d1)" by fastforce
  obtain infos d2 where l: "list_infos db (projr res) d1 = (infos, d2)" by fastforce
  obtain cnt d3 where c: "repo_CountRooms db 0 d2 = (cnt, d3)" by fastforce
  have "rooms d1 = rooms d" "rooms d2 = rooms d" "rooms d3 = rooms d"
    using get_list_law [OF g] list_infos_rooms [OF l] count_law [OF c] by simp_all
  then show ?thesis using assms g l c
    by (auto simp: GetRoomList_def Let_def split: if_splits sum.splits option.splits)
qed

lemma CreateRoom_wf:
  assumes "CreateRoom codec db now req ls d = (resp, ls', d')" and "all_rooms room_wf (rooms d)"
  shows "all_rooms room_wf (rooms d')"
proof -
  let ?uid = "GetUserId (rq_Header req)"
  obtain ures d1 where u: "repo_GetByUserID db ?uid d = (ures, d1)" by fastforce
  have d1: "rooms d1 = rooms d" using get_user_law [OF u] by simp
  consider (no) "rooms d' = rooms d" | (create) r res where
    "repo_CreateRoom db (\<lambda>i. now (Suc i)) r d1 = (res, d')" "room_wf r"
    using assms(1) u d1
    by (fastforce simp: CreateRoom_def generateRoomID_def room_wf_def Let_def
        split: if_splits option.splits sum.splits outcome.splits prod.splits)
  then show ?thesis
  proof cases
    case create
    have "all_rooms room_wf (rooms d1)" using d1 assms(2) by simp
    then show ?thesis by (rule store.create_all [OF create(1)])
      (use create(2) in \<open>simp add: room_wf_def stored_room_def\<close>)
  qed (use assms(2) in simp)
qed

lemma join_check_law:
  assumes "join_check codec db t req d = (res, d')"
  shows "rooms d' = rooms d \<and> users d' = users d \<and> (\<forall>i room p. res = Inr (i, room, p) \<longrightarrow>
    rooms d i = Some room \<and> r_Status room = 0 \<and> r_CurrentPlayers room < r_MaxPlayers room \<and>
    \<not> list_ex (\<lambda>q. rp_UserID q = rp_UserID p) (r_Players room) \<and>
    rp_UserID p = GetUserId (rq_Header req) \<and> rp_UserID p \<noteq> 0 \<and> rp_Status p = 0 \<and>
    (\<exists>q. unmarshal_join codec (rq_Data req) = Some q \<and> jr_RoomId q = i \<and>
       (r_IsPrivate room \<longrightarrow> r_Password room = jr_Password q)))"
proof -
  let ?uid = "GetUserId (rq_Header req)"
  obtain gres d1 where g: "repo_GetRoomByID db (jr_RoomId (the (unmarshal_join codec (rq_Data req)))) d = (gres, d1)"
    by fastforce
  obtain ures d2 where u: "repo_GetByUserID db ?uid d1 = (ures, d2)" by fastforce
  show ?thesis using assms g u store.get_law [OF g] get_room_users [OF g] get_user_law [OF u]
    by (auto simp: join_check_def Let_def split: if_splits option.splits sum.splits)
qed

lemma join_check_ok:
  assumes "join_check codec db t req d = (Inr (i, room, p), d')"
  shows "rooms d' = rooms d" and "rooms d i = Some room" and "r_Status room = 0"
    and "r_CurrentPlayers room < r_MaxPlayers room"
    and "\<not> list_ex (\<lambda>q. rp_UserID q = rp_UserID p) (r_Players room)" and "rp_UserID p \<noteq> 0"
    and "rp_UserID p = GetUserId (rq_Header req)" and "rp_Status p = 0"
    and "\<exists>q. unmarshal_join codec (rq_Data req) = Some q \<and> jr_RoomId q = i \<and>
       (r_IsPrivate room \<longrightarrow> r_Password room = jr_Password q)"
proof -
  note law = join_check_law [OF assms]
  show "rooms d' = rooms d" by (rule conjunct1 [OF law])
  note ok = law [THEN conjunct2, THEN conjunct2, rule_format, OF refl]
  show "rooms d i = Some room" "r_Status room = 0" "r_CurrentPlayers room < r_MaxPlayers room"
    "\<not> list_ex (\<lambda>q. rp_UserID q = rp_UserID p) (r_Players room)" "rp_UserID p \<noteq> 0"
    "rp_UserID p = GetUserId (rq_Header req)" "rp_Status p = 0"
    "\<exists>q. unmarshal_join codec (rq_Data req) = Some q \<and> jr_RoomId q = i \<and>
       (r_IsPrivate room \<longrightarrow> r_Password room = jr_Password q)"
    using ok by - (elim conjE, assumption)+
qed

lemma join_commit_rooms:
  assumes "join_commit codec db t req (i, room, p) d = (resp, d')"
  obtains err d1 where "repo_AddPlayerToRoom db t i p d = (err, d1)" "rooms d' = rooms d1"
    "rs_Code resp = (if err \<noteq> None then - 10 else if rs_Code resp = 0 then 0 else - 11)"
proof -
  obtain err d1 where a: "repo_AddPlayerToRoom db t i p d = (err, d1)" by fastforce
  obtain again d2 where g: "repo_GetRoomByID db i d1 = (again, d2)" by fastforce
  let ?up = "case again of Inl _ \<Rightarrow> room | Inr r \<Rightarrow> r"
  obtain ow d3 where o: "repo_GetByUserID db (r_OwnerID ?up) d2 = (ow, d3)" by fastforce
  have "rooms d2 = rooms d1" "rooms d3 = rooms d1" using store.get_law [OF g] get_user_law [OF o] by simp_all
  then have "rooms d' = rooms d1 \<and>
    rs_Code resp = (if err \<noteq> None then - 10 else if rs_Code resp = 0 then 0 else - 11)"
    using assms a g o by (auto simp: join_commit_def Let_def split: option.splits)
  then show ?thesis using that a by blast
qed

lemma JoinRoom_wf:
  assumes "JoinRoom codec db now req d = (resp, d')" and "all_rooms room_wf (rooms d)"
  shows "all_rooms room_wf (rooms d')"
proof -
  obtain res d1 where c: "join_check codec db (now 0) req d = (res, d1)" by fastforce
  note law = join_check_law [OF c]
  show ?thesis
  proof (cases res)
    case (Inl r)
    then show ?thesis using assms c law by (simp add: JoinRoom_def)
  next
    case (Inr x)
    obtain i room p where x: "x = (i, room, p)" by (metis prod_cases3)
    have "join_commit codec db (now 1) req (i, room, p) d1 = (resp, d')"
      using assms(1) c Inr x by (simp add: JoinRoom_def)
    then obtain err d2 where a: "repo_AddPlayerToRoom db (now 1) i p d1 = (err, d2)" "rooms d' = rooms d2"
      by (rule join_commit_rooms)
    note ok = join_check_ok [OF c [unfolded Inr x]]
    have wf1: "all_rooms room_wf (rooms d1)" using ok(1) assms(2) by simp
    have d1: "rooms d1 i = Some room" using ok(1,2) by simp
    have "all_rooms room_wf (rooms d2)"
      by (rule store.add_all [OF a(1) wf1], rule room_wf_push) (use ok(4-6) d1 in simp_all)
    then show ?thesis using a(2) by simp
  qed
qed

lemma leave_as_owner_wf:
  assumes "leave_as_owner db now uid i room h d = (resp, d')" and "all_rooms room_wf (rooms d)"
    and "rooms d i = Some room" and "list_ex (\<lambda>p. rp_UserID p = uid) (r_Players room)"
  shows "all_rooms room_wf (rooms d')"
proof -
  have wf: "room_wf room" using assms(2,3) by (simp add: all_rooms_def)
  obtain e1 d1 where del: "repo_DeleteRoom db i d = (e1, d1)" by fastforce
  obtain e2 d2 where rm: "repo_RemovePlayerFromRoom db (now 0) i uid d = (e2, d2)" by fastforce
  have wf2: "all_rooms room_wf (rooms d2)"
    by (rule store.remove_all [OF rm assms(2)], rule room_wf_pull) (use assms(3,4) in simp_all)
  have wf3: "all_rooms room_wf (rooms d3)"
    if "repo_UpdateRoom db t (room\<lparr>r_OwnerID := j\<rparr>) d2 = (e3, d3)" for t j e3 d3
    by (rule store.update_all [OF that wf2], rule room_wf_set) (simp add: wf)
  show ?thesis
    using assms(1,2) del rm wf2 store.delete_all [OF del assms(2)]
    by (auto simp: leave_as_owner_def Let_def split: if_splits option.splits prod.splits intro: wf3)
qed

lemma LeaveRoom_wf:
  assumes "LeaveRoom codec db now req d = (resp, d')" and "all_rooms room_wf (rooms d)"
  shows "all_rooms room_wf (rooms d')"
proof -
  let ?uid = "GetUserId (rq_Header req)" and ?i = "jr_RoomId (the (unmarshal_join codec (rq_Data req)))"
  obtain gres d1 where g: "repo_GetRoomByID db ?i d = (gres, d1)" by fastforce
  obtain ures d2 where u: "repo_GetByUserID db ?uid d1 = (ures, d2)" by fastforce
  obtain e d3 where rm: "repo_RemovePlayerFromRoom db (now 0) ?i ?uid d2 = (e, d3)" by fastforce
  have eq: "rooms d1 = rooms d" "rooms d2 = rooms d" using store.get_law [OF g] get_user_law [OF u] by simp_all
  have room: "rooms d ?i = Some room" if "gres = Inr room" for room using store.get_law [OF g] that by simp
  have wf2: "all_rooms room_wf (rooms d2)" using eq assms(2) by simp
  have plain: "all_rooms room_wf (rooms d3)"
    if "gres = Inr room" "list_ex (\<lambda>p. rp_UserID p = ?uid) (r_Players room)" for room
    by (rule store.remove_all [OF rm wf2], rule room_wf_pull) (use room [OF that(1)] that(2) eq in simp_all)
  have owner: "all_rooms room_wf (rooms d4)"
    if "gres = Inr room" "list_ex (\<lambda>p. rp_UserID p = ?uid) (r_Players room)"
      "leave_as_owner db now ?uid ?i room (rq_Header req) d2 = (x, d4)" for room x d4
    by (rule leave_as_owner_wf [OF that(3) wf2 _ that(2)]) (simp add: eq room [OF that(1)])
  show ?thesis using assms g u rm eq plain owner
    by (auto simp: LeaveRoom_def Let_def split: if_splits option.splits sum.splits prod.splits)
qed

lemma lobby_call_wf:
  assumes "lobby_call codec db c ls d = (r, ls', d')" and "all_rooms room_wf (rooms d)"
  shows "all_rooms room_wf (rooms d')"
  using assms GetRoomList_reads [of codec] CreateRoom_wf [of codec] JoinRoom_wf [of codec] LeaveRoom_wf [of codec]
  by (fastforce simp: lobby_call_def Let_def split: prod.splits lobby_call.splits)

lemma lobby_run_wf:
  "lobby_run codec db cs ls d = (rs, ls', d') \<Longrightarrow> all_rooms room_wf (rooms d) \<Longrightarrow> all_rooms room_wf (rooms d')"
proof (induction cs arbitrary: ls d rs)
  case Nil
  then show ?case by simp
next
  case (Cons c cs)
  obtain r ls1 d1 where c: "lobby_call codec db c ls d = (r, ls1, d1)" by (metis prod_cases3)
  obtain rs2 ls2 d2 where run: "lobby_run codec db cs ls1 d1 = (rs2, ls2, d2)" by (metis prod_cases3)
  have "d2 = d'" using Cons.prems(1) c run by simp
  then show ?case using Cons.IH [of ls1 d1 rs2] run lobby_call_wf [OF c Cons.prems(2)] Cons.prems(1) c
    by simp
qed

end

section \<open>What each handler does to the rooms\<close>

definition with_player :: "room \<Rightarrow> room_player \<Rightarrow> time \<Rightarrow> room" where
  "with_player r p t = r\<lparr>r_Players := r_Players r @ [p], r_CurrentPlayers := r_CurrentPlayers r + 1,
     r_UpdatedAt := bson_date t\<rparr>"

lemma update_room_push:
  "m i = Some r \<Longrightarrow> update_room [PushPlayer p, IncPlayers 1, SetRoomUpdatedAt t] i m = m(i \<mapsto> with_player r p t)"
  by (simp add: update_room_def with_player_def)

lemma join_check_code:
  "join_check codec db t req d = (Inl resp, d') \<Longrightarrow> - 9 \<le> rs_Code resp \<and> rs_Code resp \<le> - 1"
  by (auto simp: join_check_def Let_def split: if_splits option.splits sum.splits prod.splits)

context mongo_driver
begin

lemma join_commit_law:
  assumes "join_commit codec db t req (i, room, p) d = (resp, d')" and "rooms d i = Some r"
  shows "(rs_Code resp \<in> {0, - 11} \<longrightarrow> rooms d' = (rooms d)(i \<mapsto> with_player r p t)) \<and>
    rs_Code resp \<in> {0, - 10, - 11} \<and> (rooms d' = rooms d \<or> rooms d' = (rooms d)(i \<mapsto> with_player r p t))"
proof -
  obtain err d1 where a: "repo_AddPlayerToRoom db t i p d = (err, d1)" "rooms d' = rooms d1"
    "rs_Code resp = (if err \<noteq> None then - 10 else if rs_Code resp = 0 then 0 else - 11)"
    by (rule join_commit_rooms [OF assms(1)])
  then show ?thesis using store.add_law [OF a(1)] update_room_push [of "rooms d" i r p t, OF assms(2)]
    by (auto split: if_splits)
qed

lemma JoinRoom_law:
  assumes "JoinRoom codec db now req d = (resp, d')"
  shows "(rs_Code resp \<in> {0, - 11} \<longrightarrow> (\<exists>q room p. unmarshal_join codec (rq_Data req) = Some q \<and>
      rooms d (jr_RoomId q) = Some room \<and> r_Status room = 0 \<and> r_CurrentPlayers room < r_MaxPlayers room \<and>
      rp_UserID p = GetUserId (rq_Header req) \<and>
      \<not> list_ex (\<lambda>q. rp_UserID q = rp_UserID p) (r_Players room) \<and>
      (r_IsPrivate room \<longrightarrow> r_Password room = jr_Password q) \<and>
      rooms d' = (rooms d)(jr_RoomId q \<mapsto> with_player room p (now 1)))) \<and>
    (rs_Code resp \<notin> {0, - 10, - 11} \<longrightarrow> rooms d' = rooms d)"
proof -
  obtain res d1 where c: "join_check codec db (now 0) req d = (res, d1)" by fastforce
  show ?thesis
  proof (cases res)
    case (Inl r)
    then have "resp = r" "d' = d1" using assms c by (simp_all add: JoinRoom_def)
    then show ?thesis using join_check_code [OF c [unfolded Inl]] join_check_law [OF c] by auto
  next
    case (Inr x)
    obtain i room p where x: "x = (i, room, p)" by (metis prod_cases3)
    note ok = join_check_ok [OF c [unfolded Inr x]]
    have commit: "join_commit codec db (now 1) req (i, room, p) d1 = (resp, d')"
      using assms c Inr x by (simp add: JoinRoom_def)
    have law: "(rs_Code resp \<in> {0, - 11} \<longrightarrow> rooms d' = (rooms d)(i \<mapsto> with_player room p (now 1))) \<and>
      rs_Code resp \<in> {0, - 10, - 11}"
      using join_commit_law [OF commit] ok(1,2) by auto
    obtain q where q: "unmarshal_join codec (rq_Data req) = Some q" "jr_RoomId q = i"
      "r_IsPrivate room \<longrightarrow> r_Password room = jr_Password q" using ok(9) by blast
    have "rs_Code resp \<in> {0, - 11} \<longrightarrow> (\<exists>q room p. unmarshal_join codec (rq_Data req) = Some q \<and>
      rooms d (jr_RoomId q) = Some room \<and> r_Status room = 0 \<and> r_CurrentPlayers room < r_MaxPlayers room \<and>
      rp_UserID p = GetUserId (rq_Header req) \<and>
      \<not> list_ex (\<lambda>q. rp_UserID q = rp_UserID p) (r_Players room) \<and>
      (r_IsPrivate room \<longrightarrow> r_Password room = jr_Password q) \<and>
      rooms d' = (rooms d)(jr_RoomId q \<mapsto> with_player room p (now 1)))"
    proof
      assume "rs_Code resp \<in> {0, - 11}"
      then have eq: "rooms d' = (rooms d)(jr_RoomId q \<mapsto> with_player room p (now 1))"
        using law q(2) by simp
      have room: "rooms d (jr_RoomId q) = Some room" using ok(2) q(2) by simp
      show "\<exists>q room p. unmarshal_join codec (rq_Data req) = Some q \<and>
        rooms d (jr_RoomId q) = Some room \<and> r_Status room = 0 \<and> r_CurrentPlayers room < r_MaxPlayers room \<and>
        rp_UserID p = GetUserId (rq_Header req) \<and>
        \<not> list_ex (\<lambda>q. rp_UserID q = rp_UserID p) (r_Players room) \<and>
        (r_IsPrivate room \<longrightarrow> r_Password room = jr_Password q) \<and>
        rooms d' = (rooms d)(jr_RoomId q \<mapsto> with_player room p (now 1))"
        by (intro exI conjI) (rule q(1) room ok(3) ok(4) ok(7) ok(5) q(3) eq)+
    qed
    then show ?thesis using law by blast
  qed
qed

lemma CreateRoom_law:
  assumes "CreateRoom codec db now req ls d = (resp, ls', d')"
  shows "\<exists>r. resp = Ret r \<and>
    (rs_Code r \<in> {0, - 8} \<longrightarrow> rooms d (lb_nextRoomID ls) = None \<and>
       lb_nextRoomID ls' = lb_nextRoomID ls + 1 \<and>
       (\<exists>room. rooms d' = (rooms d)(lb_nextRoomID ls \<mapsto> room) \<and> room_wf room \<and>
          r_OwnerID room = GetUserId (rq_Header req) \<and> r_Status room = 0 \<and>
          map rp_UserID (r_Players room) = [GetUserId (rq_Header req)] \<and>
          (r_IsPrivate room \<longrightarrow> r_Password room \<noteq> ''''))) \<and>
    (rs_Code r \<notin> {0, - 7, - 8} \<longrightarrow> rooms d' = rooms d \<and> ls' = ls) \<and>
    (rooms d (lb_nextRoomID ls) \<noteq> None \<longrightarrow> rs_Code r < 0 \<and> rooms d' = rooms d)"
proof -
  let ?uid = "GetUserId (rq_Header req)"
  obtain ures d1 where u: "repo_GetByUserID db ?uid d = (ures, d1)" by fastforce
  have d1: "rooms d1 = rooms d" using get_user_law [OF u] by simp
  consider (no) r where "resp = Ret r" "- 6 \<le> rs_Code r" "rs_Code r < 0" "rooms d' = rooms d" "ls' = ls"
    | (create) r res where "repo_CreateRoom db (\<lambda>i. now (Suc i)) r d1 = (res, d')" "room_wf r"
      "r_RoomID r = lb_nextRoomID ls" "r_OwnerID r = ?uid" "r_Status r = 0"
      "map rp_UserID (r_Players r) = [?uid]" "r_IsPrivate r \<longrightarrow> r_Password r \<noteq> ''''"
      "lb_nextRoomID ls' = lb_nextRoomID ls + 1"
      "resp = Ret (respond (rq_Header req) (- 7) ''failed to create room'') \<and> (\<exists>e. res = Ret (Inl e)) \<or>
       (\<exists>r'. resp = Ret r' \<and> rs_Code r' \<in> {0, - 8}) \<and> (\<exists>x. res = Ret (Inr x)) \<or>
       (\<forall>x. res \<noteq> Ret x)"
    using assms u d1
    by (fastforce simp: CreateRoom_def generateRoomID_def room_wf_def Let_def
        split: if_splits option.splits sum.splits outcome.splits prod.splits)
  then show ?thesis
  proof cases
    case no
    then show ?thesis by auto
  next
    case create
    let ?new = "\<lambda>oid. (stored_room (r\<lparr>r_CreatedAt := now (Suc 0), r_UpdatedAt := now (Suc 1)\<rparr>))\<lparr>r_ID := oid\<rparr>"
    have new: "room_wf (?new oid) \<and> r_OwnerID (?new oid) = ?uid \<and> r_Status (?new oid) = 0 \<and>
      map rp_UserID (r_Players (?new oid)) = [?uid] \<and> (r_IsPrivate (?new oid) \<longrightarrow> r_Password (?new oid) \<noteq> '''')" for oid
      using create by (simp add: stored_room_def room_wf_def)
    show ?thesis
      using store.create_law [OF create(1)] create(3,8,9) new d1 by fastforce
  qed
qed

end

lemma other_player:
  assumes "room_wf r" and "r_CurrentPlayers r > 1"
  shows "\<exists>p. List.find (\<lambda>p. rp_UserID p \<noteq> uid) (r_Players r) = Some p \<and> rp_UserID p \<noteq> 0 \<and> rp_UserID p \<noteq> uid"
proof (cases "List.find (\<lambda>p. rp_UserID p \<noteq> uid) (r_Players r)")
  case None
  then have "\<forall>p \<in> set (r_Players r). rp_UserID p = uid" by (auto simp: find_None_iff)
  then have "set (map rp_UserID (r_Players r)) \<subseteq> {uid}" by auto
  then have "card (set (map rp_UserID (r_Players r))) \<le> 1" using card_mono [of "{uid}"] by fastforce
  then have "length (r_Players r) \<le> 1"
    using assms(1) distinct_card [of "map rp_UserID (r_Players r)"] by (simp add: room_wf_def)
  then show ?thesis using assms by (simp add: room_wf_def)
next
  case (Some p)
  then have "p \<in> set (r_Players r)" "rp_UserID p \<noteq> uid" using find_Some_mem [OF Some] by simp_all
  then show ?thesis using Some assms(1) by (auto simp: room_wf_def)
qed

definition without_player :: "room \<Rightarrow> u64 \<Rightarrow> time \<Rightarrow> room" where
  "without_player r uid t = r\<lparr>r_Players := filter (\<lambda>p. rp_UserID p \<noteq> uid) (r_Players r),
     r_CurrentPlayers := r_CurrentPlayers r - 1, r_UpdatedAt := bson_date t\<rparr>"

lemma update_room_pull:
  "m i = Some r \<Longrightarrow> update_room [PullPlayer uid, IncPlayers (- 1), SetRoomUpdatedAt t] i m =
     m(i \<mapsto> without_player r uid t)"
  by (simp add: update_room_def without_player_def)

context mongo_driver
begin

text \<open>A success of \<open>LeaveRoom\<close> comes out of one of three branches.\<close>

lemma LeaveRoom_branches:
  assumes "LeaveRoom codec db now req d = (resp, d')" and "rs_Code resp = 0"
    and "unmarshal_join codec (rq_Data req) = Some q" and "rooms d (jr_RoomId q) = Some room"
  obtains d2 where "rooms d2 = rooms d" and "r_OwnerID room = GetUserId (rq_Header req)"
      and "leave_as_owner db now (GetUserId (rq_Header req)) (jr_RoomId q) room (rq_Header req) d2 = (None, d')"
    | d2 where "rooms d2 = rooms d" and "r_OwnerID room \<noteq> GetUserId (rq_Header req)"
      and "repo_RemovePlayerFromRoom db (now 0) (jr_RoomId q) (GetUserId (rq_Header req)) d2 = (None, d')"
proof -
  let ?uid = "GetUserId (rq_Header req)"
  obtain gres d1 where g: "repo_GetRoomByID db (jr_RoomId q) d = (gres, d1)" by fastforce
  obtain ures d2 where u: "repo_GetByUserID db ?uid d1 = (ures, d2)" by fastforce
  have eq: "rooms d2 = rooms d" using store.get_law [OF g] get_user_law [OF u] by simp
  have room: "room' = room" if "gres = Inr room'" for room'
    using store.get_law [OF g] assms(4) that by simp
  obtain f d3 where lo: "leave_as_owner db now ?uid (jr_RoomId q) room (rq_Header req) d2 = (f, d3)" by fastforce
  have neg: "rs_Code r < 0" if "leave_as_owner db now ?uid (jr_RoomId q) room (rq_Header req) d2 = (Some r, x)" for r x
    using that by (auto simp: leave_as_owner_def Let_def split: if_splits option.splits prod.splits)
  show ?thesis
    using assms(1-3) g u eq lo neg that room
    by (auto simp: LeaveRoom_def Let_def split: if_splits option.splits sum.splits prod.splits)
qed

lemma leave_as_owner_last:
  assumes "leave_as_owner db now uid i room h d = (None, d')" and "r_CurrentPlayers room \<le> 1"
  shows "rooms d' = (rooms d)(i := None)"
  using assms store.delete_law [of i d] by (auto simp: leave_as_owner_def split: option.splits prod.splits)

lemma leave_as_owner_others:
  assumes "leave_as_owner db now uid i room h d = (None, d')" and "rooms d i = Some room"
    and "room_wf room" and "r_CurrentPlayers room > 1" and "r_OwnerID room = uid"
  shows "\<exists>r. rooms d' i = Some r \<and>
    (r_OwnerID r \<noteq> uid \<and> r_Players r = r_Players room \<and> r_CurrentPlayers r = r_CurrentPlayers room \<or>
     r_OwnerID r = uid \<and> r = without_player room uid (now 0))"
proof -
  obtain p where p: "List.find (\<lambda>p. rp_UserID p \<noteq> uid) (r_Players room) = Some p" "rp_UserID p \<noteq> 0" "rp_UserID p \<noteq> uid"
    using other_player [OF assms(3,4)] by blast
  obtain e1 d1 where rm: "repo_RemovePlayerFromRoom db (now 0) i uid d = (e1, d1)" by fastforce
  let ?new = "room\<lparr>r_OwnerID := rp_UserID p\<rparr>"
  obtain e2 d2 where up: "repo_UpdateRoom db (now 1) ?new d1 = (e2, d2)" by fastforce
  have e: "e1 = None" "d' = d2" using assms(1,4) p rm up
    by (auto simp: leave_as_owner_def split: option.splits)
  have d1: "rooms d1 = (rooms d)(i \<mapsto> without_player room uid (now 0))"
    using store.remove_law [OF rm] e(1) update_room_pull [of "rooms d" i room uid "now 0", OF assms(2)] by simp
  have id: "r_RoomID room = i" using rooms_keyed [OF assms(2)] .
  have "rooms d2 = rooms d1 \<or> rooms d2 = update_room [SetRoom (?new\<lparr>r_UpdatedAt := now 1\<rparr>)] i (rooms d1)"
    using store.update_law [OF up] id by auto
  then show ?thesis
    using d1 e(2) p(3) assms(5) by (auto simp: update_room_def without_player_def stored_room_def)
qed

lemma LeaveRoom_law:
  assumes "LeaveRoom codec db now req d = (resp, d')" and "rs_Code resp = 0"
    and "unmarshal_join codec (rq_Data req) = Some q" and "rooms d (jr_RoomId q) = Some room"
  shows "if r_OwnerID room \<noteq> GetUserId (rq_Header req)
    then rooms d' = (rooms d)(jr_RoomId q \<mapsto> without_player room (GetUserId (rq_Header req)) (now 0))
    else r_CurrentPlayers room \<le> 1 \<longrightarrow> rooms d' = (rooms d)(jr_RoomId q := None)"
  using assms
proof (cases rule: LeaveRoom_branches)
  case (1 d2)
  then show ?thesis using leave_as_owner_last [OF 1(3)] by simp
next
  case (2 d2)
  then show ?thesis using store.remove_law [OF 2(3)] update_room_pull [of "rooms d2" "jr_RoomId q" room] assms(4)
    by auto
qed

lemma owner_leave_law:
  assumes "LeaveRoom codec db now req d = (resp, d')" and "rs_Code resp = 0"
    and "unmarshal_join codec (rq_Data req) = Some q" and "rooms d (jr_RoomId q) = Some room"
    and "room_wf room" and "r_CurrentPlayers room > 1" and "r_OwnerID room = GetUserId (rq_Header req)"
  shows "\<exists>r. rooms d' (jr_RoomId q) = Some r \<and>
    (r_OwnerID r \<noteq> GetUserId (rq_Header req) \<and> r_Players r = r_Players room \<and> r_CurrentPlayers r = r_CurrentPlayers room \<or>
     r_OwnerID r = GetUserId (rq_Header req) \<and> r = without_player room (GetUserId (rq_Header req)) (now 0))"
  using assms(1-4)
proof (cases rule: LeaveRoom_branches)
  case (1 d2)
  then show ?thesis using leave_as_owner_others [OF 1(3) _ assms(5,6,7)] assms(4) by simp
next
  case 2
  then show ?thesis using assms(7) by simp
qed

text \<open>Two joins whose checks both ran before either write.\<close>

lemma join_race_law:
  assumes "join_check codec db t1 req1 d = (Inr (i, room1, p1), d1)"
    and "join_check codec db t2 req2 d1 = (Inr (i, room2, p2), d2)"
    and "join_commit codec db t3 req1 (i, room1, p1) d2 = (resp1, d3)" and "rs_Code resp1 = 0"
    and "join_commit codec db t4 req2 (i, room2, p2) d3 = (resp2, d4)" and "rs_Code resp2 = 0"
  shows "rooms d i = Some room1 \<and> rooms d4 = (rooms d)(i \<mapsto> with_player (with_player room1 p1 t3) p2 t4)"
proof -
  note c1 = join_check_ok [OF assms(1)] and c2 = join_check_ok [OF assms(2)]
  have d2: "rooms d2 = rooms d" "rooms d i = Some room1" using c1(1,2) c2(1) by simp_all
  have d3: "rooms d3 = (rooms d)(i \<mapsto> with_player room1 p1 t3)"
    using join_commit_law [OF assms(3)] d2 assms(4) by auto
  have "rooms d4 = (rooms d3)(i \<mapsto> with_player (with_player room1 p1 t3) p2 t4)"
    using join_commit_law [OF assms(5)] d3 assms(6) by auto
  then show ?thesis using d2 d3 by simp
qed

end

section \<open>Properties\<close>

text \<open>A small lobby: users 7, 8 and 9, and a room for two that user 7 owns.\<close>

definition demo_user :: "u64 \<Rightarrow> string \<Rightarrow> user" where
  "demo_user i n = \<lparr>u_ID = n, u_UserID = i, u_Username = n, u_Password = '''', u_Nickname = n,
     u_Email = '''', u_Phone = '''', u_Level = 1, u_Experience = 0, u_Gold = 0, u_Diamond = 0,
     u_Avatar = '''', u_Status = 0, u_LastLoginIP = '''', u_LastLoginAt = 0, u_CreatedAt = 0,
     u_UpdatedAt = 0\<rparr>"

definition demo_player :: "u64 \<Rightarrow> string \<Rightarrow> room_player" where
  "demo_player i n = \<lparr>rp_UserID = i, rp_Nickname = n, rp_Level = 1, rp_Status = 0, rp_JoinTime = 0\<rparr>"

definition demo_room :: "room_player list \<Rightarrow> room" where
  "demo_room ps = \<lparr>r_ID = ''a'', r_RoomID = 1000, r_RoomName = ''r'', r_GameType = 1, r_MaxPlayers = 2,
     r_CurrentPlayers = int (length ps), r_Status = 0, r_IsPrivate = False, r_Password = '''',
     r_OwnerID = 7, r_Players = ps, r_CreatedAt = 0, r_UpdatedAt = 0\<rparr>"

definition demo_db :: "room_player list \<Rightarrow> mem_db" where
  "demo_db ps = \<lparr>mem_rooms = [demo_room ps],
     mem_users = [demo_user 7 ''g'', demo_user 8 ''h'', demo_user 9 ''i'']\<rparr>"

definition demo_codec :: lobby_codec where
  "demo_codec = \<lparr>
     unmarshal_create = (\<lambda>bs. Some \<lparr>cr_RoomName = ''s'', cr_GameType = 1, cr_MaxPlayers = 2,
       cr_IsPrivate = False, cr_Password = ''''\<rparr>),
     unmarshal_join = (\<lambda>bs. Some \<lparr>jr_RoomId = 1000, jr_Password = ''''\<rparr>),
     marshal_room = (\<lambda>r. Some []), marshal_list = (\<lambda>l. Some []), marshal_reply = (\<lambda>r. Some [])\<rparr>"

definition demo_req :: "u64 \<Rightarrow> base_request" where
  "demo_req i = \<lparr>rq_Header = Some \<lparr>mh_MsgId = 0, mh_Seq = 0, mh_UserId = i, mh_Timestamp = 0,
     mh_SessionId = ''''\<rparr>, rq_Data = []\<rparr>"

abbreviation p7 :: room_player where "p7 \<equiv> demo_player 7 ''g''"
abbreviation p8 :: room_player where "p8 \<equiv> demo_player 8 ''h''"

definition epoch :: "nat \<Rightarrow> time" where
  "epoch i = 0"

lemmas demo_defs = demo_user_def demo_player_def demo_room_def demo_db_def demo_codec_def demo_req_def
  epoch_def

lemma demo_wf: "all_rooms room_wf (mem_room_view (demo_db [p7]))"
  by (auto simp: all_rooms_def mem_room_view_def demo_defs room_wf_def split: if_splits)

lemma demo_rooms: "mem_room_view (demo_db ps) 1000 = Some (demo_room ps)"
  by (simp add: mem_room_view_def demo_db_def) (simp add: demo_room_def)

text \<open>
  C1. Whatever sequence of lobby calls (list, create, join, leave; valid or not) is served one
  after the other, on any database driver that does what MongoDB documents, failed writes
  included, every stored room stays well formed: current_players is the number of players, at
  most max_players, which is between 2 and 8, no user is in a room twice, and user id 0 is in
  none.
\<close>

theorem lobby_rooms_invariant:
  assumes "mongo_driver db rooms users" and "all_rooms room_wf (rooms d)"
    and "lobby_run codec db calls ls d = (resps, ls', d')"
  shows "all_rooms room_wf (rooms d')"
  using mongo_driver.lobby_run_wf [OF assms(1,3,2)] .

theorem lobby_rooms_invariant_witness:
  "let (resps, ls', d') = lobby_run demo_codec mem_mongo
     [(CallJoinRoom, epoch, demo_req 8), (CallJoinRoom, epoch, demo_req 9)] NewLobbyServer (demo_db [p7])
   in all_rooms room_wf (mem_room_view d') \<and>
      map (\<lambda>r. case r of Ret x \<Rightarrow> rs_Code x | _ \<Rightarrow> 1) resps = [0, - 6] \<and>
      map_option r_CurrentPlayers (mem_room_view d' 1000) = Some 2"
proof -
  let ?calls = "[(CallJoinRoom, epoch, demo_req 8), (CallJoinRoom, epoch, demo_req 9)]"
  obtain resps ls' d' where run: "lobby_run demo_codec mem_mongo ?calls NewLobbyServer (demo_db [p7]) = (resps, ls', d')"
    by (metis prod_cases3)
  have eval: "(let (resps, ls', d') = lobby_run demo_codec mem_mongo ?calls NewLobbyServer (demo_db [p7])
    in map (\<lambda>r. case r of Ret x \<Rightarrow> rs_Code x | _ \<Rightarrow> 1) resps = [0, - 6] \<and>
      map_option r_CurrentPlayers (mem_room_view d' 1000) = Some 2)"
    by code_simp
  have "all_rooms room_wf (mem_room_view d')"
    by (rule lobby_rooms_invariant [OF mem.mongo_driver_axioms demo_wf run])
  then show ?thesis using eval run by simp
qed

text \<open>
  C2. A JoinRoom that got past its write (code 0, or -11 when only the response could not be
  encoded) means that the stored room was waiting, had a free place, did not hold the user and,
  if private, the password matched, and exactly this room changed: the user is its last player
  and the count is one more. A rejected request (any code but 0, -10 and -11) changes no room.
\<close>

theorem JoinRoom_correct:
  assumes "mongo_driver db rooms users" and "JoinRoom codec db now req d = (resp, d')"
  shows "(rs_Code resp \<in> {0, - 11} \<longrightarrow> (\<exists>q room p. unmarshal_join codec (rq_Data req) = Some q \<and>
      rooms d (jr_RoomId q) = Some room \<and> r_Status room = 0 \<and> r_CurrentPlayers room < r_MaxPlayers room \<and>
      rp_UserID p = GetUserId (rq_Header req) \<and>
      \<not> list_ex (\<lambda>q. rp_UserID q = rp_UserID p) (r_Players room) \<and>
      (r_IsPrivate room \<longrightarrow> r_Password room = jr_Password q) \<and>
      rooms d' = (rooms d)(jr_RoomId q \<mapsto> with_player room p (now 1)))) \<and>
    (rs_Code resp \<notin> {0, - 10, - 11} \<longrightarrow> rooms d' = rooms d)"
  by (rule mongo_driver.JoinRoom_law [OF assms])

theorem JoinRoom_correct_witness:
  "let (resp, d') = JoinRoom demo_codec mem_mongo epoch (demo_req 8) (demo_db [p7])
   in rs_Code resp = 0 \<and> (\<exists>room p. mem_room_view d' 1000 = Some (with_player room p 0) \<and> rp_UserID p = 8)"
proof -
  obtain resp d' where j: "JoinRoom demo_codec mem_mongo epoch (demo_req 8) (demo_db [p7]) = (resp, d')"
    by fastforce
  have "rs_Code (fst (JoinRoom demo_codec mem_mongo epoch (demo_req 8) (demo_db [p7]))) = 0" by code_simp
  then have ok: "rs_Code resp = 0" using j by simp
  have "\<exists>q room p. unmarshal_join demo_codec (rq_Data (demo_req 8)) = Some q \<and>
      rp_UserID p = GetUserId (rq_Header (demo_req 8)) \<and>
      mem_room_view d' = (mem_room_view (demo_db [p7]))(jr_RoomId q \<mapsto> with_player room p (epoch 1))"
    using JoinRoom_correct [OF mem.mongo_driver_axioms j] ok by blast
  then have "\<exists>room p. mem_room_view d' 1000 = Some (with_player room p 0) \<and> rp_UserID p = 8"
    by (simp add: demo_codec_def demo_req_def GetUserId_def epoch_def) (metis fun_upd_same)
  then show ?thesis using j ok by simp
qed

text \<open>
  C14. A CreateRoom that stored its room (code 0 or -8) used the server's next room id, which
  no room had, advanced the id, and added exactly one room, well formed, waiting, owned by the
  user, who is its only player, and with a password if it is private. A request rejected before
  (codes -1 to -6) changes neither rooms nor the id. When the id is already taken, as after a
  restart of the server, whose ids start at 1000 again, it fails and changes no room.
\<close>

theorem CreateRoom_correct:
  assumes "mongo_driver db rooms users" and "CreateRoom codec db now req ls d = (resp, ls', d')"
  shows "\<exists>r. resp = Ret r \<and>
    (rs_Code r \<in> {0, - 8} \<longrightarrow> rooms d (lb_nextRoomID ls) = None \<and>
       lb_nextRoomID ls' = lb_nextRoomID ls + 1 \<and>
       (\<exists>room. rooms d' = (rooms d)(lb_nextRoomID ls \<mapsto> room) \<and> room_wf room \<and>
          r_OwnerID room = GetUserId (rq_Header req) \<and> r_Status room = 0 \<and>
          map rp_UserID (r_Players room) = [GetUserId (rq_Header req)] \<and>
          (r_IsPrivate room \<longrightarrow> r_Password room \<noteq> ''''))) \<and>
    (rs_Code r \<notin> {0, - 7, - 8} \<longrightarrow> rooms d' = rooms d \<and> ls' = ls) \<and>
    (rooms d (lb_nextRoomID ls) \<noteq> None \<longrightarrow> rs_Code r < 0 \<and> rooms d' = rooms d)"
  by (rule mongo_driver.CreateRoom_law [OF assms])

theorem CreateRoom_correct_witness:
  "let (resp, ls', d') = CreateRoom demo_codec mem_mongo epoch (demo_req 8) NewLobbyServer (demo_db [p7])
   in \<exists>r. resp = Ret r \<and> rs_Code r < 0 \<and> mem_room_view d' = mem_room_view (demo_db [p7])"
proof -
  obtain resp ls' d' where c: "CreateRoom demo_codec mem_mongo epoch (demo_req 8) NewLobbyServer (demo_db [p7])
    = (resp, ls', d')" by (metis prod_cases3)
  have "mem_room_view (demo_db [p7]) (lb_nextRoomID NewLobbyServer) \<noteq> None"
    by (simp add: NewLobbyServer_def demo_rooms)
  then show ?thesis using CreateRoom_correct [OF mem.mongo_driver_axioms c] c by auto
qed

text \<open>
  C15. A successful LeaveRoom of a player who is not the owner removes exactly this player from
  exactly this room; the owner leaving as the last player deletes the room and nothing else.
\<close>

theorem LeaveRoom_correct:
  assumes "mongo_driver db rooms users" and "LeaveRoom codec db now req d = (resp, d')"
    and "rs_Code resp = 0" and "unmarshal_join codec (rq_Data req) = Some q"
    and "rooms d (jr_RoomId q) = Some room"
  shows "if r_OwnerID room \<noteq> GetUserId (rq_Header req)
    then rooms d' = (rooms d)(jr_RoomId q \<mapsto> without_player room (GetUserId (rq_Header req)) (now 0))
    else r_CurrentPlayers room \<le> 1 \<longrightarrow> rooms d' = (rooms d)(jr_RoomId q := None)"
  by (rule mongo_driver.LeaveRoom_law [OF assms])

theorem LeaveRoom_correct_witness:
  "let (resp, d') = LeaveRoom demo_codec mem_mongo epoch (demo_req 7) (demo_db [p7])
   in rs_Code resp = 0 \<and> mem_room_view d' 1000 = None"
proof -
  obtain resp d' where l: "LeaveRoom demo_codec mem_mongo epoch (demo_req 7) (demo_db [p7]) = (resp, d')" by fastforce
  have "rs_Code (fst (LeaveRoom demo_codec mem_mongo epoch (demo_req 7) (demo_db [p7]))) = 0" by code_simp
  then have ok: "rs_Code resp = 0" using l by simp
  let ?q = "\<lparr>jr_RoomId = 1000, jr_Password = ''''\<rparr>"
  have q: "unmarshal_join demo_codec (rq_Data (demo_req 7)) = Some ?q" by (simp add: demo_codec_def)
  have r: "mem_room_view (demo_db [p7]) (jr_RoomId ?q) = Some (demo_room [p7])" by (simp add: demo_rooms)
  have "mem_room_view d' = (mem_room_view (demo_db [p7]))(1000 := None)"
    using LeaveRoom_correct [OF mem.mongo_driver_axioms l ok q r]
    by (simp add: demo_room_def demo_req_def GetUserId_def)
  then show ?thesis using l ok by simp
qed

text \<open>
  C32. When the owner of a room with other players leaves and the server answers success, the
  departure is never complete: either the ownership moved but the stale room document written
  back still lists the leaver with the old player count, or the write of the new owner failed,
  the leaver is out, and the room still names him as its owner.
\<close>

theorem owner_leave_incomplete:
  assumes "mongo_driver db rooms users" and "LeaveRoom codec db now req d = (resp, d')"
    and "rs_Code resp = 0" and "unmarshal_join codec (rq_Data req) = Some q"
    and "rooms d (jr_RoomId q) = Some room" and "room_wf room" and "r_CurrentPlayers room > 1"
    and "r_OwnerID room = GetUserId (rq_Header req)"
  shows "\<exists>r. rooms d' (jr_RoomId q) = Some r \<and>
    (r_OwnerID r \<noteq> GetUserId (rq_Header req) \<and> r_Players r = r_Players room \<and> r_CurrentPlayers r = r_CurrentPlayers room \<or>
     r_OwnerID r = GetUserId (rq_Header req) \<and> r = without_player room (GetUserId (rq_Header req)) (now 0))"
  by (rule mongo_driver.owner_leave_law [OF assms])

theorem owner_leave_incomplete_witness:
  "let (resp, d') = LeaveRoom demo_codec mem_mongo epoch (demo_req 7) (demo_db [p7, p8])
   in rs_Code resp = 0 \<and> (\<exists>r. mem_room_view d' 1000 = Some r \<and> r_OwnerID r = 8 \<and> r_Players r = [p7, p8])"
proof -
  let ?run = "LeaveRoom demo_codec mem_mongo epoch (demo_req 7) (demo_db [p7, p8])"
  obtain resp d' where l: "?run = (resp, d')" by fastforce
  have eval: "rs_Code (fst ?run) = 0 \<and> map_option r_OwnerID (mem_room_view (snd ?run) 1000) = Some 8" by code_simp
  let ?q = "\<lparr>jr_RoomId = 1000, jr_Password = ''''\<rparr>"
  have q: "unmarshal_join demo_codec (rq_Data (demo_req 7)) = Some ?q" by (simp add: demo_codec_def)
  have r: "mem_room_view (demo_db [p7, p8]) (jr_RoomId ?q) = Some (demo_room [p7, p8])" by (simp add: demo_rooms)
  have ok: "rs_Code resp = 0" using eval l by simp
  have "\<exists>r. mem_room_view d' (jr_RoomId ?q) = Some r \<and>
    (r_OwnerID r \<noteq> GetUserId (rq_Header (demo_req 7)) \<and> r_Players r = r_Players (demo_room [p7, p8]) \<and>
       r_CurrentPlayers r = r_CurrentPlayers (demo_room [p7, p8]) \<or>
     r_OwnerID r = GetUserId (rq_Header (demo_req 7)) \<and>
       r = without_player (demo_room [p7, p8]) (GetUserId (rq_Header (demo_req 7))) (epoch 0))"
    by (rule owner_leave_incomplete [OF mem.mongo_driver_axioms l ok q r])
      (simp_all add: room_wf_def demo_room_def demo_player_def demo_req_def GetUserId_def)
  then show ?thesis using l eval by (auto simp: demo_req_def GetUserId_def demo_room_def)
qed

lemma join_commit_succeeds:
  assumes "join_commit codec db t req (i, room, p) d = (resp, d')" and "fst (repo_AddPlayerToRoom db t i p d) = None"
    and "\<And>x. marshal_room codec x \<noteq> None"
  shows "rs_Code resp = 0"
  using assms(1,2) by (auto simp: assms(3) join_commit_def success_def respond_def Let_def split: prod.splits option.splits)

text \<open>
  C31. JoinRoom checks for a free place and adds the player in two database calls. Two requests
  for the last place whose checks both pass before either write, with both writes accepted by
  the database and an encodable answer, are both answered with success, and the room ends with
  both players appended and one player more than max_players.
\<close>

theorem JoinRoom_race_overfills:
  assumes "mongo_driver db rooms users"
    and "join_check codec db t1 req1 d = (Inr (i, room1, q1), d1)"
    and "join_check codec db t2 req2 d1 = (Inr (i, room2, q2), d2)"
    and "join_commit codec db t3 req1 (i, room1, q1) d2 = (resp1, d3)"
    and "join_commit codec db t4 req2 (i, room2, q2) d3 = (resp2, d4)"
    and "fst (repo_AddPlayerToRoom db t3 i q1 d2) = None" and "fst (repo_AddPlayerToRoom db t4 i q2 d3) = None"
    and "\<And>x. marshal_room codec x \<noteq> None"
    and "r_CurrentPlayers room1 = r_MaxPlayers room1 - 1"
  shows "rs_Code resp1 = 0 \<and> rs_Code resp2 = 0 \<and>
    (\<exists>r. rooms d4 i = Some r \<and> map rp_UserID (r_Players r) =
       map rp_UserID (r_Players room1) @ [GetUserId (rq_Header req1), GetUserId (rq_Header req2)] \<and>
     r_CurrentPlayers r = r_MaxPlayers r + 1 \<and> \<not> room_wf r)"
proof -
  have ok: "rs_Code resp1 = 0" "rs_Code resp2 = 0"
    using join_commit_succeeds [OF assms(4,6,8)] join_commit_succeeds [OF assms(5,7,8)] by simp_all
  have who: "rp_UserID q1 = GetUserId (rq_Header req1)" "rp_UserID q2 = GetUserId (rq_Header req2)"
    using mongo_driver.join_check_ok(7) [OF assms(1)] assms(2,3) by blast+
  show ?thesis
    using mongo_driver.join_race_law [OF assms(1-4) ok(1) assms(5) ok(2)] assms(9) ok who
    by (simp add: with_player_def room_wf_def)
qed

theorem JoinRoom_race_overfills_witness:
  "\<exists>room1 q1 d1 room2 q2 d2 d4 r.
     join_check demo_codec mem_mongo 0 (demo_req 8) (demo_db [p7]) = (Inr (1000, room1, q1), d1) \<and>
     join_check demo_codec mem_mongo 0 (demo_req 9) d1 = (Inr (1000, room2, q2), d2) \<and>
     d4 = snd (join_commit demo_codec mem_mongo 0 (demo_req 9) (1000, room2, q2)
            (snd (join_commit demo_codec mem_mongo 0 (demo_req 8) (1000, room1, q1) d2))) \<and>
     mem_room_view d4 1000 = Some r \<and> r_CurrentPlayers r = r_MaxPlayers r + 1"
proof -
  let ?d = "demo_db [p7]" and ?j8 = "demo_player 8 ''h''" and ?j9 = "demo_player 9 ''i''"
  have c1: "join_check demo_codec mem_mongo 0 (demo_req 8) ?d = (Inr (1000, demo_room [p7], ?j8), ?d)" by code_simp
  have c2: "join_check demo_codec mem_mongo 0 (demo_req 9) ?d = (Inr (1000, demo_room [p7], ?j9), ?d)" by code_simp
  let ?w1 = "join_commit demo_codec mem_mongo 0 (demo_req 8) (1000, demo_room [p7], ?j8) ?d"
  let ?w2 = "join_commit demo_codec mem_mongo 0 (demo_req 9) (1000, demo_room [p7], ?j9) (snd ?w1)"
  have ok: "fst (repo_AddPlayerToRoom mem_mongo 0 1000 ?j8 ?d) = None" "fst (repo_AddPlayerToRoom mem_mongo 0 1000 ?j9 (snd ?w1)) = None"
    by code_simp+
  have "rs_Code (fst ?w1) = 0 \<and> rs_Code (fst ?w2) = 0 \<and>
      (\<exists>r. mem_room_view (snd ?w2) 1000 = Some r \<and> map rp_UserID (r_Players r) = map rp_UserID (r_Players (demo_room [p7])) @
        [GetUserId (rq_Header (demo_req 8)), GetUserId (rq_Header (demo_req 9))] \<and>
       r_CurrentPlayers r = r_MaxPlayers r + 1 \<and> \<not> room_wf r)"
    by (rule JoinRoom_race_overfills [OF mem.mongo_driver_axioms c1 c2 surjective_pairing surjective_pairing ok])
      (simp_all add: demo_room_def demo_codec_def)
  then show ?thesis using c1 c2 by blast
qed

end
