(* ===== verification/Pool.thy ===== *)
theory Pool
  imports Prelude
begin

text \<open>
  The generic object pool of \<open>internal/pool/object_pool.go\<close> on a buffered channel, as
  functions and as goroutines that race through it. The pools built on it are in
  \<open>MessagePools\<close>.
\<close>

section \<open>The generic pool\<close>

text \<open>
  The free objects are the channel's contents, oldest first. The factory and the reset function
  may allocate, so they act on an ambient store \<open>'h\<close>. The counters are int64.
\<close>

record ('a, 'h) generic_pool =
  gp_free :: "'a list"
  gp_factory :: "'h \<Rightarrow> 'a \<times> 'h"
  gp_reset :: "('a \<Rightarrow> 'h \<Rightarrow> 'a \<times> 'h) option"
  gp_maxSize :: int
  gp_created :: int
  gp_gotten :: int
  gp_put :: int

definition NewGenericPool ::
  "int \<Rightarrow> ('h \<Rightarrow> 'a \<times> 'h) \<Rightarrow> ('a \<Rightarrow> 'h \<Rightarrow> 'a \<times> 'h) option \<Rightarrow> ('a, 'h) generic_pool outcome" where
  "NewGenericPool maxSize factory reset =
     (if maxSize < 0 then Panic NegativeChannelSize
      else Ret \<lparr>gp_free = [], gp_factory = factory, gp_reset = reset, gp_maxSize = maxSize,
                gp_created = 0, gp_gotten = 0, gp_put = 0\<rparr>)"

text \<open>
  \<open>Get\<close>: the first argument is what another goroutine hands over during the 100 ms wait of
  the third step, \<open>None\<close> when the wait times out.
\<close>

definition pool_Get ::
  "'a option \<Rightarrow> ('a, 'h) generic_pool \<Rightarrow> 'h \<Rightarrow> 'a \<times> ('a, 'h) generic_pool \<times> 'h" where
  "pool_Get waited p0 h =
     (let p = p0\<lparr>gp_gotten := i64 (gp_gotten p0 + 1)\<rparr> in
      case gp_free p of
        x # xs \<Rightarrow> (x, p\<lparr>gp_free := xs\<rparr>, h)
      | [] \<Rightarrow>
          if gp_created p < gp_maxSize p
          then (let (x, h') = gp_factory p h in (x, p\<lparr>gp_created := i64 (gp_created p + 1)\<rparr>, h'))
          else (case waited of
                  Some x \<Rightarrow> (x, p, h)
                | None \<Rightarrow> (let (x, h') = gp_factory p h in (x, p, h'))))"

text \<open>\<open>Put\<close>: a nil interface is ignored; a full channel drops the object.\<close>

definition pool_Put ::
  "'a option \<Rightarrow> ('a, 'h) generic_pool \<Rightarrow> 'h \<Rightarrow> ('a, 'h) generic_pool \<times> 'h" where
  "pool_Put obj p0 h =
     (case obj of
        None \<Rightarrow> (p0, h)
      | Some x \<Rightarrow>
          (let p = p0\<lparr>gp_put := i64 (gp_put p0 + 1)\<rparr>;
               (x', h') = (case gp_reset p of None \<Rightarrow> (x, h) | Some r \<Rightarrow> r x h)
           in if int (length (gp_free p)) < gp_maxSize p
              then (p\<lparr>gp_free := gp_free p @ [x']\<rparr>, h') else (p, h')))"

definition pool_Size :: "('a, 'h) generic_pool \<Rightarrow> int" where
  "pool_Size p = gp_created p"

definition pool_Available :: "('a, 'h) generic_pool \<Rightarrow> int" where
  "pool_Available p = int (length (gp_free p))"

definition pool_Stats :: "('a, 'h) generic_pool \<Rightarrow> int \<times> int \<times> int" where
  "pool_Stats p = (gp_created p, gp_gotten p, gp_put p)"

lemmas pool_defs = pool_Get_def pool_Put_def pool_Size_def pool_Available_def pool_Stats_def

text \<open>
  The pool's invariant, for a predicate \<open>C\<close> that the factory and the reset function
  establish: at most \<open>maxSize\<close> free objects, all of them clean, and a created count that a
  single caller never drives over the limit.
\<close>

definition pool_inv :: "('a \<Rightarrow> bool) \<Rightarrow> ('a, 'h) generic_pool \<Rightarrow> bool" where
  "pool_inv C p \<longleftrightarrow>
     int (length (gp_free p)) \<le> gp_maxSize p \<and> 0 \<le> gp_created p \<and>
     gp_created p \<le> gp_maxSize p \<and> gp_maxSize p < 2 ^ 63 \<and> list_all C (gp_free p)"

definition establishes :: "('a \<Rightarrow> bool) \<Rightarrow> ('a, 'h) generic_pool \<Rightarrow> bool" where
  "establishes C p \<longleftrightarrow>
     (\<forall>h. C (fst (gp_factory p h))) \<and>
     (case gp_reset p of None \<Rightarrow> \<forall>x. C x | Some r \<Rightarrow> \<forall>x h. C (fst (r x h)))"

lemma pool_inv_new:
  assumes "NewGenericPool n f r = Ret p" and "n < 2 ^ 63"
  shows "pool_inv C p"
  using assms by (auto simp: NewGenericPool_def pool_inv_def split: if_splits)

lemma pool_Get_inv: "pool_inv C p \<Longrightarrow> pool_inv C (fst (snd (pool_Get w p h)))"
  by (auto simp: pool_Get_def pool_inv_def Let_def split: list.splits option.splits prod.splits)

lemma pool_Put_inv:
  assumes "pool_inv C p" and "establishes C p"
  shows "pool_inv C (fst (pool_Put x p h))"
  using assms
  by (auto simp: pool_Put_def pool_inv_def establishes_def Let_def
      split: option.splits prod.splits; metis fst_conv)

lemma pool_Get_clean:
  assumes "pool_inv C p" and "establishes C p" and "pred_option C w"
  shows "C (fst (pool_Get w p h))"
  using assms
  by (auto simp: pool_Get_def pool_inv_def establishes_def Let_def
      split: list.splits option.splits prod.splits; metis fst_conv)

lemma pool_Get_config [simp]:
  "gp_factory (fst (snd (pool_Get w p h))) = gp_factory p"
  "gp_reset (fst (snd (pool_Get w p h))) = gp_reset p"
  "gp_maxSize (fst (snd (pool_Get w p h))) = gp_maxSize p"
  by (auto simp: pool_Get_def Let_def split: list.splits option.splits prod.splits)

lemma pool_Put_config [simp]:
  "gp_factory (fst (pool_Put x p h)) = gp_factory p"
  "gp_reset (fst (pool_Put x p h)) = gp_reset p"
  "gp_maxSize (fst (pool_Put x p h)) = gp_maxSize p"
  by (auto simp: pool_Put_def Let_def split: list.splits option.splits prod.splits)

lemma establishes_Get [simp]: "establishes C (fst (snd (pool_Get w p h))) = establishes C p"
  by (simp add: establishes_def)

lemma establishes_Put [simp]: "establishes C (fst (pool_Put x p h)) = establishes C p"
  by (simp add: establishes_def)

lemma pool_Get_Available:
  "pool_Available (fst (snd (pool_Get w p h))) = max 0 (pool_Available p - 1)"
  by (auto simp: pool_Get_def pool_Available_def Let_def
      split: list.splits option.splits prod.splits)

lemma pool_Put_Available:
  assumes "pool_inv C p"
  shows "pool_Available (fst (pool_Put (Some x) p h)) = min (gp_maxSize p) (pool_Available p + 1)"
  using assms by (auto simp: pool_Put_def pool_Available_def pool_inv_def Let_def split: prod.splits)

section \<open>The ObjectPool interface\<close>

text \<open>
  A run of the pool: each request borrows an object (with what the wait would yield) or returns
  one; the result lists the objects borrowed.
\<close>

primrec pool_run ::
  "('a option \<Rightarrow> 'p \<Rightarrow> 'h \<Rightarrow> 'a \<times> 'p \<times> 'h) \<Rightarrow> ('a option \<Rightarrow> 'p \<Rightarrow> 'h \<Rightarrow> 'p \<times> 'h) \<Rightarrow>
   ('a option + 'a option) list \<Rightarrow> 'p \<Rightarrow> 'h \<Rightarrow> 'a list \<times> 'p \<times> 'h" where
  "pool_run get put [] p h = ([], p, h)"
| "pool_run get put (r # rs) p h =
     (case r of
        Inl w \<Rightarrow> (let (x, p', h') = get w p h; (xs, q, k) = pool_run get put rs p' h'
                  in (x # xs, q, k))
      | Inr x \<Rightarrow> (let (p', h') = put x p h in pool_run get put rs p' h'))"

text \<open>
  What a client of \<open>ObjectPool\<close> relies on: an invariant that both operations keep, objects
  that come out clean, and a number of free objects that never leaves \<open>[0, cap]\<close>.
\<close>

locale object_pool =
  fixes get :: "'a option \<Rightarrow> 'p \<Rightarrow> 'h \<Rightarrow> 'a \<times> 'p \<times> 'h"
    and put :: "'a option \<Rightarrow> 'p \<Rightarrow> 'h \<Rightarrow> 'p \<times> 'h"
    and available :: "'p \<Rightarrow> int"
    and capacity :: "'p \<Rightarrow> int"
    and invar :: "'p \<Rightarrow> bool"
    and clean :: "'a \<Rightarrow> bool"
  assumes get_invar: "invar p \<Longrightarrow> pred_option clean w \<Longrightarrow> invar (fst (snd (get w p h)))"
    and put_invar: "invar p \<Longrightarrow> invar (fst (put x p h))"
    and get_clean: "invar p \<Longrightarrow> pred_option clean w \<Longrightarrow> clean (fst (get w p h))"
    and get_capacity: "capacity (fst (snd (get w p h))) = capacity p"
    and put_capacity: "capacity (fst (put x p h)) = capacity p"
    and available_bounds: "invar p \<Longrightarrow> 0 \<le> available p \<and> available p \<le> capacity p"
begin

lemma run_invar:
  assumes "invar p" and "\<forall>w. Inl w \<in> set rs \<longrightarrow> pred_option clean w"
  shows "invar (fst (snd (pool_run get put rs p h))) \<and> capacity (fst (snd (pool_run get put rs p h))) = capacity p \<and>
    list_all clean (fst (pool_run get put rs p h))"
  using assms
proof (induction rs arbitrary: p h)
  case Nil
  then show ?case by simp
next
  case (Cons r rs)
  show ?case
  proof (cases r)
    case (Inl w)
    obtain x p' h' where g: "get w p h = (x, p', h')" by (metis prod_cases3)
    have w: "pred_option clean w" using Cons.prems Inl by simp
    have "invar p'" "clean x" "capacity p' = capacity p"
      using get_invar [OF Cons.prems(1) w, of h] get_clean [OF Cons.prems(1) w, of h]
        get_capacity [of w p h] g by simp_all
    then show ?thesis using Cons.IH [of p' h'] Cons.prems(2) Inl g
      by (auto split: prod.splits)
  next
    case (Inr x)
    obtain p' h' where g: "put x p h = (p', h')" by (metis prod.exhaust)
    have "invar p'" "capacity p' = capacity p"
      using put_invar [OF Cons.prems(1), of x h] put_capacity [of x p h] g by simp_all
    then show ?thesis using Cons.IH [of p' h'] Cons.prems(2) Inr g by auto
  qed
qed

lemma run_available:
  assumes "invar p" and "\<forall>w. Inl w \<in> set rs \<longrightarrow> pred_option clean w"
  shows "available (fst (snd (pool_run get put rs p h))) \<le> capacity p"
  using run_invar [OF assms] available_bounds by metis

end

section \<open>Concurrent callers of Get\<close>

text \<open>
  \<open>Get\<close> is not atomic: the count of created objects is read and then incremented in two
  steps, and callers interleave. Thread \<open>t\<close> is between two atomic steps of the body, or has
  returned its object, which it may keep while it calls again. \<open>Put\<close> counts, resets and offers in
  three steps; it may be given any object.
\<close>

datatype 'a get_pc = PIdle | PCounted | PMissed | PCreating | PWaiting | PGot 'a | PPutting 'a | PReset 'a

record ('a, 'h) pool_sys =
  ps_pool :: "('a, 'h) generic_pool"
  ps_heap :: 'h
  ps_pc :: "nat \<Rightarrow> 'a get_pc"

inductive get_step :: "('a, 'h) pool_sys \<Rightarrow> nat \<Rightarrow> ('a, 'h) pool_sys \<Rightarrow> bool" where
  count: "ps_pc s t = PIdle \<Longrightarrow>
    get_step s t (s\<lparr>ps_pool := (ps_pool s)\<lparr>gp_gotten := i64 (gp_gotten (ps_pool s) + 1)\<rparr>,
                    ps_pc := (ps_pc s)(t := PCounted)\<rparr>)"
| receive: "ps_pc s t = PCounted \<Longrightarrow> gp_free (ps_pool s) = x # xs \<Longrightarrow>
    get_step s t (s\<lparr>ps_pool := (ps_pool s)\<lparr>gp_free := xs\<rparr>, ps_pc := (ps_pc s)(t := PGot x)\<rparr>)"
| miss: "ps_pc s t = PCounted \<Longrightarrow> gp_free (ps_pool s) = [] \<Longrightarrow>
    get_step s t (s\<lparr>ps_pc := (ps_pc s)(t := PMissed)\<rparr>)"
| below: "ps_pc s t = PMissed \<Longrightarrow> gp_created (ps_pool s) < gp_maxSize (ps_pool s) \<Longrightarrow>
    get_step s t (s\<lparr>ps_pc := (ps_pc s)(t := PCreating)\<rparr>)"
| full: "ps_pc s t = PMissed \<Longrightarrow> \<not> gp_created (ps_pool s) < gp_maxSize (ps_pool s) \<Longrightarrow>
    get_step s t (s\<lparr>ps_pc := (ps_pc s)(t := PWaiting)\<rparr>)"
| create: "ps_pc s t = PCreating \<Longrightarrow> gp_factory (ps_pool s) (ps_heap s) = (x, h) \<Longrightarrow>
    get_step s t (s\<lparr>ps_pool := (ps_pool s)\<lparr>gp_created := i64 (gp_created (ps_pool s) + 1)\<rparr>,
                    ps_heap := h, ps_pc := (ps_pc s)(t := PGot x)\<rparr>)"
| handed: "ps_pc s t = PWaiting \<Longrightarrow> gp_free (ps_pool s) = x # xs \<Longrightarrow>
    get_step s t (s\<lparr>ps_pool := (ps_pool s)\<lparr>gp_free := xs\<rparr>, ps_pc := (ps_pc s)(t := PGot x)\<rparr>)"
| timeout: "ps_pc s t = PWaiting \<Longrightarrow> gp_factory (ps_pool s) (ps_heap s) = (x, h) \<Longrightarrow>
    get_step s t (s\<lparr>ps_heap := h, ps_pc := (ps_pc s)(t := PGot x)\<rparr>)"
| keep: "ps_pc s t = PGot x \<Longrightarrow> get_step s t (s\<lparr>ps_pc := (ps_pc s)(t := PIdle)\<rparr>)"
| put_count: "ps_pc s t = PIdle \<Longrightarrow>
    get_step s t (s\<lparr>ps_pool := (ps_pool s)\<lparr>gp_put := i64 (gp_put (ps_pool s) + 1)\<rparr>,
                    ps_pc := (ps_pc s)(t := PPutting x)\<rparr>)"
| put_reset: "ps_pc s t = PPutting x \<Longrightarrow>
    (case gp_reset (ps_pool s) of None \<Rightarrow> (x, ps_heap s) | Some r \<Rightarrow> r x (ps_heap s)) = (y, h) \<Longrightarrow>
    get_step s t (s\<lparr>ps_heap := h, ps_pc := (ps_pc s)(t := PReset y)\<rparr>)"
| offer: "ps_pc s t = PReset y \<Longrightarrow> int (length (gp_free (ps_pool s))) < gp_maxSize (ps_pool s) \<Longrightarrow>
    get_step s t (s\<lparr>ps_pool := (ps_pool s)\<lparr>gp_free := gp_free (ps_pool s) @ [y]\<rparr>, ps_pc := (ps_pc s)(t := PIdle)\<rparr>)"
| drop_full: "ps_pc s t = PReset y \<Longrightarrow> \<not> int (length (gp_free (ps_pool s))) < gp_maxSize (ps_pool s) \<Longrightarrow>
    get_step s t (s\<lparr>ps_pc := (ps_pc s)(t := PIdle)\<rparr>)"

inductive pool_reach :: "('a, 'h) pool_sys \<Rightarrow> nat \<Rightarrow> ('a, 'h) pool_sys \<Rightarrow> bool"
  for s0 :: "('a, 'h) pool_sys" and n :: nat where
  start: "pool_reach s0 n s0"
| step: "pool_reach s0 n s \<Longrightarrow> get_step s t s' \<Longrightarrow> t < n \<Longrightarrow> pool_reach s0 n s'"

definition creating :: "nat \<Rightarrow> ('a, 'h) pool_sys \<Rightarrow> nat" where
  "creating n s = length (filter (\<lambda>t. ps_pc s t = PCreating) [0..<n])"

text \<open>What the racing increments can add: one per thread, less the one that saw room.\<close>

definition race_inv :: "nat \<Rightarrow> ('a, 'h) pool_sys \<Rightarrow> bool" where
  "race_inv n s \<longleftrightarrow> 0 \<le> gp_created (ps_pool s) \<and>
     gp_created (ps_pool s) + int (creating n s) \<le> gp_maxSize (ps_pool s) + int n - 1"

lemma creating_le: "creating n s \<le> n"
  unfolding creating_def using length_filter_le [of _ "[0..<n]"] by simp

lemma filter_upd_out:
  "t \<ge> n \<Longrightarrow> filter (\<lambda>u. (f(t := c)) u = d) [0..<n] = filter (\<lambda>u. f u = d) [0..<n]"
  by (rule filter_cong) auto

lemma creating_upd:
  assumes "t < n"
  shows "int (length (filter (\<lambda>u. (f(t := c)) u = PCreating) [0..<n])) =
    int (length (filter (\<lambda>u. f u = PCreating) [0..<n])) +
    (if c = PCreating then 1 else 0) - (if f t = PCreating then 1 else 0)"
proof -
  have split: "[0..<n] = [0..<t] @ t # [Suc t..<n]"
    using assms by (metis append_Cons le_add_same_cancel1 less_imp_add_positive less_imp_le_nat
        upt_add_eq_append upt_conv_Cons zero_le)
  have l: "filter (\<lambda>u. (f(t := c)) u = PCreating) [0..<t] = filter (\<lambda>u. f u = PCreating) [0..<t]"
    by (rule filter_upd_out) simp
  have r: "filter (\<lambda>u. (f(t := c)) u = PCreating) [Suc t..<n] = filter (\<lambda>u. f u = PCreating) [Suc t..<n]"
    by (rule filter_cong) auto
  show ?thesis unfolding split filter_append filter.simps l r by simp
qed

inductive_cases get_stepE: "get_step s t s'"

lemma get_step_config:
  assumes "get_step s t s'"
  shows "gp_maxSize (ps_pool s') = gp_maxSize (ps_pool s)"
  using assms by (cases rule: get_step.cases) simp_all

lemma creating_quiet:
  assumes "t < n" and "c \<noteq> PCreating" and "ps_pc s t \<noteq> PCreating"
  shows "length (filter (\<lambda>u. ((ps_pc s)(t := c)) u = PCreating) [0..<n]) = creating n s"
  using creating_upd [OF assms(1), of "ps_pc s" c] assms(2,3) by (simp add: creating_def)

lemma get_step_race:
  assumes "get_step s t s'" and "race_inv n s" and "t < n"
    and "gp_maxSize (ps_pool s) + int n < 2 ^ 63"
  shows "race_inv n s'"
  using assms(1)
proof (cases rule: get_step.cases)
  case below
  then have "int (creating n s') \<le> int n" using creating_le [of n s'] by simp
  with below assms(2) show ?thesis by (simp add: race_inv_def)
next
  case (create x h)
  have "i64 (gp_created (ps_pool s) + 1) = gp_created (ps_pool s) + 1"
    using assms(2,4) by (intro i64_id) (auto simp: race_inv_def)
  with create assms(2) show ?thesis
    using creating_upd [OF assms(3), of "ps_pc s" "PGot x"] by (simp add: race_inv_def creating_def)
qed (use assms(2) creating_quiet [OF assms(3), of _ s] in \<open>simp_all add: race_inv_def creating_def\<close>)

lemma pool_reach_race:
  assumes "pool_reach s0 n s" and "race_inv n s0"
    and "gp_maxSize (ps_pool s0) + int n < 2 ^ 63"
  shows "race_inv n s \<and> gp_maxSize (ps_pool s) = gp_maxSize (ps_pool s0)"
  using assms
proof (induction rule: pool_reach.induct)
  case start
  then show ?case by simp
next
  case (step s t s')
  then show ?case using get_step_race [of s t s' n] get_step_config [of s t s'] by simp
qed

text \<open>A thread that runs alone computes what the function \<open>pool_Get\<close> does.\<close>

inductive solo :: "nat \<Rightarrow> ('a, 'h) pool_sys \<Rightarrow> ('a, 'h) pool_sys \<Rightarrow> bool" for t :: nat where
  solo_refl: "solo t s s"
| solo_step: "get_step s t s' \<Longrightarrow> solo t s' s'' \<Longrightarrow> solo t s s''"

lemma pool_Get_solo:
  assumes "ps_pc s t = PIdle" and "pool_Get None (ps_pool s) (ps_heap s) = (x, p, h)"
  shows "solo t s (s\<lparr>ps_pool := p, ps_heap := h, ps_pc := (ps_pc s)(t := PGot x)\<rparr>)"
    (is "solo t s ?end")
proof -
  let ?s1 = "s\<lparr>ps_pool := (ps_pool s)\<lparr>gp_gotten := i64 (gp_gotten (ps_pool s) + 1)\<rparr>,
    ps_pc := (ps_pc s)(t := PCounted)\<rparr>"
  let ?to = "\<lambda>c. ?s1\<lparr>ps_pc := (ps_pc s)(t := c)\<rparr>"
  have one: "get_step s t ?s1" by (rule get_step.count) (rule assms(1))
  have two: "gp_free (ps_pool s) = [] \<Longrightarrow> get_step ?s1 t (?to PMissed)"
    using get_step.miss [of ?s1 t] by simp
  consider (hit) y ys where "gp_free (ps_pool s) = y # ys"
    | (room) "gp_free (ps_pool s) = []" "gp_created (ps_pool s) < gp_maxSize (ps_pool s)"
    | (full) "gp_free (ps_pool s) = []" "\<not> gp_created (ps_pool s) < gp_maxSize (ps_pool s)"
    by (metis neq_Nil_conv)
  then show ?thesis
  proof cases
    case hit
    then have "get_step ?s1 t ?end"
      using get_step.receive [of ?s1 t y ys] assms(2) by (auto simp: pool_Get_def)
    with one show ?thesis by (blast intro: solo.intros)
  next
    case room
    have "get_step (?to PMissed) t (?to PCreating)"
      using get_step.below [of "?to PMissed" t] room by simp
    moreover have "get_step (?to PCreating) t ?end"
      using get_step.create [of "?to PCreating" t x h] assms(2) room
      by (auto simp: pool_Get_def split: prod.splits)
    ultimately show ?thesis using one two [OF room(1)] by (blast intro: solo.intros)
  next
    case full
    have "get_step (?to PMissed) t (?to PWaiting)"
      using get_step.full [of "?to PMissed" t] full by simp
    moreover have "get_step (?to PWaiting) t ?end"
      using get_step.timeout [of "?to PWaiting" t x h] assms(2) full
      by (auto simp: pool_Get_def split: prod.splits)
    ultimately show ?thesis using one two [OF full(1)] by (blast intro: solo.intros)
  qed
qed

text \<open>Likewise for \<open>pool_Put\<close>.\<close>

lemma pool_Put_solo:
  assumes "ps_pc s t = PIdle" and "pool_Put (Some x) (ps_pool s) (ps_heap s) = (p, h)"
  shows "solo t s (s\<lparr>ps_pool := p, ps_heap := h, ps_pc := (ps_pc s)(t := PIdle)\<rparr>)"
    (is "solo t s ?end")
proof -
  let ?p = "(ps_pool s)\<lparr>gp_put := i64 (gp_put (ps_pool s) + 1)\<rparr>"
  obtain y h1 where r: "(case gp_reset (ps_pool s) of None \<Rightarrow> (x, ps_heap s) | Some r \<Rightarrow> r x (ps_heap s)) = (y, h1)" by fastforce
  let ?s1 = "s\<lparr>ps_pool := ?p, ps_pc := (ps_pc s)(t := PPutting x)\<rparr>"
  let ?s2 = "s\<lparr>ps_pool := ?p, ps_heap := h1, ps_pc := (ps_pc s)(t := PReset y)\<rparr>"
  have "get_step s t ?s1" by (rule get_step.put_count) (rule assms(1))
  moreover have "get_step ?s1 t ?s2" using get_step.put_reset [of ?s1 t x y h1] r by (cases "gp_reset (ps_pool s)") simp_all
  moreover have e: "h = h1" "p = (if int (length (gp_free (ps_pool s))) < gp_maxSize (ps_pool s)
      then ?p\<lparr>gp_free := gp_free (ps_pool s) @ [y]\<rparr> else ?p)"
    using assms(2) r by (auto simp: pool_Put_def Let_def split: if_splits)
  have "get_step ?s2 t ?end"
    using get_step.offer [of ?s2 t y] get_step.drop_full [of ?s2 t y] unfolding e
    by (cases s; cases "int (length (gp_free (ps_pool s))) < gp_maxSize (ps_pool s)"; simp)
  ultimately show ?thesis by (blast intro: solo.intros)
qed

end
