(* ===== verification/MessagePools.thy ===== *)
theory MessagePools
  imports Pool
begin

text \<open>
  The typed pools of \<open>internal/pool\<close>: messages and actor messages with the byte slices they
  reuse, byte buffers by size class, connections, and the global singleton. Slices share their
  backing arrays, so they live on an explicit store of arrays.
\<close>

section \<open>Slices on a store of arrays\<close>

record store =
  st_next :: nat
  st_arr :: "nat \<Rightarrow> bytes"

text \<open>Every slice of this package starts at the beginning of its array.\<close>

datatype slice = NilSlice | Slice nat nat

fun slice_len :: "slice \<Rightarrow> nat" where
  "slice_len NilSlice = 0"
| "slice_len (Slice a n) = n"

fun slice_cap :: "store \<Rightarrow> slice \<Rightarrow> nat" where
  "slice_cap h NilSlice = 0"
| "slice_cap h (Slice a n) = length (st_arr h a)"

fun slice_bytes :: "store \<Rightarrow> slice \<Rightarrow> bytes" where
  "slice_bytes h NilSlice = []"
| "slice_bytes h (Slice a n) = take n (st_arr h a)"

fun valid_slice :: "store \<Rightarrow> slice \<Rightarrow> bool" where
  "valid_slice h NilSlice = True"
| "valid_slice h (Slice a n) = (a < st_next h \<and> n \<le> length (st_arr h a))"

definition make_slice :: "nat \<Rightarrow> nat \<Rightarrow> store \<Rightarrow> slice \<times> store" where
  "make_slice n c h =
     (Slice (st_next h) n,
      h\<lparr>st_next := Suc (st_next h), st_arr := (st_arr h)(st_next h := replicate c 0)\<rparr>)"

text \<open>\<open>s[:n]\<close>; each use below is within the capacity.\<close>

fun slice_to :: "nat \<Rightarrow> slice \<Rightarrow> slice" where
  "slice_to n NilSlice = NilSlice"
| "slice_to n (Slice a _) = Slice a n"

text \<open>\<open>copy(dst, src)\<close>, which handles overlap.\<close>

fun copy_slice :: "slice \<Rightarrow> slice \<Rightarrow> store \<Rightarrow> store" where
  "copy_slice NilSlice src h = h"
| "copy_slice (Slice a n) src h =
     (let k = min n (slice_len src)
      in h\<lparr>st_arr := (st_arr h)(a := take k (slice_bytes h src) @ drop k (st_arr h a))\<rparr>)"

fun same_array :: "slice \<Rightarrow> slice \<Rightarrow> bool" where
  "same_array (Slice a _) (Slice b _) = (a = b)"
| "same_array _ _ = False"

lemma slice_len_to [simp]: "s \<noteq> NilSlice \<Longrightarrow> slice_len (slice_to n s) = n"
  by (cases s) simp_all

lemma slice_len_to_0 [simp]: "slice_len (slice_to 0 s) = 0"
  by (cases s) simp_all

lemma length_slice_bytes: "valid_slice h s \<Longrightarrow> length (slice_bytes h s) = slice_len s"
  by (cases s) simp_all

section \<open>Messages\<close>

record message =
  m_Type :: string
  m_Data :: slice
  m_buf :: slice

definition message_Reset :: "message \<Rightarrow> store \<Rightarrow> message \<times> store" where
  "message_Reset m h =
     (let m1 = m\<lparr>m_Type := '''', m_Data := slice_to 0 (m_Data m)\<rparr> in
      if slice_len (m_buf m1) > 4096
      then (let (b, h') = make_slice 0 1024 h in (m1\<lparr>m_buf := b\<rparr>, h'))
      else (m1\<lparr>m_buf := slice_to 0 (m_buf m1)\<rparr>, h))"

definition message_SetData :: "slice \<Rightarrow> message \<Rightarrow> store \<Rightarrow> message \<times> store" where
  "message_SetData data m h =
     (let (buf, h1) = (if slice_cap h (m_buf m) < slice_len data
                       then make_slice (slice_len data) (slice_len data) h else (m_buf m, h));
          buf' = slice_to (slice_len data) buf;
          h2 = copy_slice buf' data h1
      in (m\<lparr>m_buf := buf', m_Data := buf'\<rparr>, h2))"

definition message_factory :: "store \<Rightarrow> message \<times> store" where
  "message_factory h =
     (let (b, h') = make_slice 0 1024 h in (\<lparr>m_Type = '''', m_Data = NilSlice, m_buf = b\<rparr>, h'))"

type_synonym message_pool = "(message, store) generic_pool"

definition NewMessagePool :: "int \<Rightarrow> message_pool outcome" where
  "NewMessagePool maxSize = NewGenericPool maxSize message_factory (Some message_Reset)"

definition GetMessage :: "message option \<Rightarrow> message_pool \<Rightarrow> store \<Rightarrow> message \<times> message_pool \<times> store" where
  "GetMessage w p h = pool_Get w p h"

definition PutMessage :: "message option \<Rightarrow> message_pool \<Rightarrow> store \<Rightarrow> message_pool \<times> store" where
  "PutMessage m p h = pool_Put m p h"

text \<open>What a message must look like when it leaves the pool.\<close>

definition clean_message :: "message \<Rightarrow> bool" where
  "clean_message m \<longleftrightarrow> m_Type m = '''' \<and> slice_len (m_Data m) = 0 \<and> slice_len (m_buf m) = 0"

lemma clean_Reset: "clean_message (fst (message_Reset m h))"
  by (simp add: message_Reset_def clean_message_def make_slice_def Let_def)

lemma clean_factory: "clean_message (fst (message_factory h))"
  by (simp add: message_factory_def clean_message_def make_slice_def Let_def)

text \<open>\<open>SetData\<close> copies: the message holds the caller's bytes, in an array of its own buffer.\<close>

lemma SetData_bytes:
  assumes "message_SetData data m h = (m', h')" and "valid_slice h data"
  shows "slice_bytes h' (m_Data m') = slice_bytes h data"
proof (cases "slice_cap h (m_buf m) < slice_len data")
  case True
  then show ?thesis using assms
    by (cases data) (auto simp: message_SetData_def make_slice_def Let_def)
next
  case False
  then show ?thesis using assms
    by (cases data; cases "m_buf m") (auto simp: message_SetData_def Let_def)
qed

lemma SetData_valid:
  assumes "message_SetData data m h = (m', h')" and "valid_slice h data" "valid_slice h (m_buf m)"
  shows "valid_slice h' (m_Data m') \<and> m_buf m' = m_Data m' \<and> slice_len (m_Data m') = slice_len data"
proof (cases "slice_cap h (m_buf m) < slice_len data")
  case True
  then show ?thesis using assms
    by (cases data) (auto simp: message_SetData_def make_slice_def Let_def)
next
  case False
  then show ?thesis using assms
    by (cases data; cases "m_buf m") (auto simp: message_SetData_def Let_def)
qed

text \<open>The buffer grows when the data does not fit and is reused otherwise.\<close>

lemma SetData_reuses:
  assumes "message_SetData data m h = (m', h')" and "slice_len data \<le> slice_cap h (m_buf m)"
  shows "m_Data m' = slice_to (slice_len data) (m_buf m) \<and> st_next h' = st_next h"
  using assms by (cases "m_buf m") (auto simp: message_SetData_def Let_def)

section \<open>Actor messages\<close>

text \<open>A callback is known by its identity.\<close>

record actor_message =
  am_ID :: string
  am_Type :: string
  am_From :: string
  am_To :: string
  am_Data :: slice
  am_Callback :: "nat option"
  am_buf :: slice

definition actor_message_Reset :: "actor_message \<Rightarrow> store \<Rightarrow> actor_message \<times> store" where
  "actor_message_Reset m h =
     (m\<lparr>am_ID := '''', am_Type := '''', am_From := '''', am_To := '''', am_Data := NilSlice,
        am_Callback := None, am_buf := slice_to 0 (am_buf m)\<rparr>, h)"

definition actor_message_SetData :: "slice \<Rightarrow> actor_message \<Rightarrow> store \<Rightarrow> actor_message \<times> store" where
  "actor_message_SetData data m h =
     (let (buf, h1) = (if slice_cap h (am_buf m) < slice_len data
                       then make_slice (slice_len data) (slice_len data) h else (am_buf m, h));
          buf' = slice_to (slice_len data) buf;
          h2 = copy_slice buf' data h1
      in (m\<lparr>am_buf := buf', am_Data := buf'\<rparr>, h2))"

definition actor_message_factory :: "store \<Rightarrow> actor_message \<times> store" where
  "actor_message_factory h =
     (let (b, h') = make_slice 0 512 h
      in (\<lparr>am_ID = '''', am_Type = '''', am_From = '''', am_To = '''', am_Data = NilSlice,
           am_Callback = None, am_buf = b\<rparr>, h'))"

type_synonym actor_pool = "(actor_message, store) generic_pool"

definition NewActorPool :: "int \<Rightarrow> actor_pool outcome" where
  "NewActorPool maxSize = NewGenericPool maxSize actor_message_factory (Some actor_message_Reset)"

definition GetActorMessage ::
  "actor_message option \<Rightarrow> actor_pool \<Rightarrow> store \<Rightarrow> actor_message \<times> actor_pool \<times> store" where
  "GetActorMessage w p h = pool_Get w p h"

definition PutActorMessage ::
  "actor_message option \<Rightarrow> actor_pool \<Rightarrow> store \<Rightarrow> actor_pool \<times> store" where
  "PutActorMessage m p h = pool_Put m p h"

definition clean_actor_message :: "actor_message \<Rightarrow> bool" where
  "clean_actor_message m \<longleftrightarrow> am_ID m = '''' \<and> am_Type m = '''' \<and> am_From m = '''' \<and> am_To m = '''' \<and>
     am_Data m = NilSlice \<and> am_Callback m = None \<and> slice_len (am_buf m) = 0"

lemma clean_actor_Reset: "clean_actor_message (fst (actor_message_Reset m h))"
  by (simp add: actor_message_Reset_def clean_actor_message_def)

lemma clean_actor_factory: "clean_actor_message (fst (actor_message_factory h))"
  by (simp add: actor_message_factory_def clean_actor_message_def make_slice_def Let_def)

section \<open>The two pools implement the interface\<close>

definition message_pool_ok :: "message_pool \<Rightarrow> bool" where
  "message_pool_ok p \<longleftrightarrow> pool_inv clean_message p \<and> gp_factory p = message_factory \<and>
     gp_reset p = Some message_Reset"

definition actor_pool_ok :: "actor_pool \<Rightarrow> bool" where
  "actor_pool_ok p \<longleftrightarrow> pool_inv clean_actor_message p \<and> gp_factory p = actor_message_factory \<and>
     gp_reset p = Some actor_message_Reset"

lemma message_pool_establishes: "message_pool_ok p \<Longrightarrow> establishes clean_message p"
  by (simp add: message_pool_ok_def establishes_def clean_factory clean_Reset)

lemma actor_pool_establishes: "actor_pool_ok p \<Longrightarrow> establishes clean_actor_message p"
  by (simp add: actor_pool_ok_def establishes_def clean_actor_factory clean_actor_Reset)

interpretation message_pool: object_pool GetMessage PutMessage pool_Available gp_maxSize
  message_pool_ok clean_message
proof unfold_locales
  fix p :: message_pool and w h
  assume ok: "message_pool_ok p" and w: "pred_option clean_message w"
  show "message_pool_ok (fst (snd (GetMessage w p h)))"
    using ok pool_Get_inv [of clean_message p w h] by (simp add: message_pool_ok_def GetMessage_def)
  show "clean_message (fst (GetMessage w p h))"
    unfolding GetMessage_def
    by (rule pool_Get_clean [OF _ message_pool_establishes [OF ok] w])
      (use ok in \<open>simp add: message_pool_ok_def\<close>)
next
  fix p :: message_pool and x h
  assume ok: "message_pool_ok p"
  show "message_pool_ok (fst (PutMessage x p h))"
    using ok pool_Put_inv [OF _ message_pool_establishes [OF ok], of x h]
    by (simp add: message_pool_ok_def PutMessage_def)
qed (auto simp: GetMessage_def PutMessage_def message_pool_ok_def pool_inv_def pool_Available_def)

interpretation actor_pool: object_pool GetActorMessage PutActorMessage pool_Available gp_maxSize
  actor_pool_ok clean_actor_message
proof unfold_locales
  fix p :: actor_pool and w h
  assume ok: "actor_pool_ok p" and w: "pred_option clean_actor_message w"
  show "actor_pool_ok (fst (snd (GetActorMessage w p h)))"
    using ok pool_Get_inv [of clean_actor_message p w h]
    by (simp add: actor_pool_ok_def GetActorMessage_def)
  show "clean_actor_message (fst (GetActorMessage w p h))"
    unfolding GetActorMessage_def
    by (rule pool_Get_clean [OF _ actor_pool_establishes [OF ok] w])
      (use ok in \<open>simp add: actor_pool_ok_def\<close>)
next
  fix p :: actor_pool and x h
  assume ok: "actor_pool_ok p"
  show "actor_pool_ok (fst (PutActorMessage x p h))"
    using ok pool_Put_inv [OF _ actor_pool_establishes [OF ok], of x h]
    by (simp add: actor_pool_ok_def PutActorMessage_def)
qed (auto simp: GetActorMessage_def PutActorMessage_def actor_pool_ok_def pool_inv_def pool_Available_def)

section \<open>Byte buffers by size class\<close>

text \<open>
  A buffer is its backing array (whose length is the capacity) and its length. A \<open>sync.Pool\<close>
  may return any buffer put into it or a new one: \<open>choice\<close> says which.
\<close>

type_synonym buffer = "bytes \<times> int"

record byte_buffer_pool =
  bb_pools :: "int \<rightharpoonup> buffer list"
  bb_sizes :: "int list"

definition NewByteBufferPool :: byte_buffer_pool where
  "NewByteBufferPool =
     (let sizes = [64, 256, 1024, 4096, 16384, 65536]
      in \<lparr>bb_pools = map_of (map (\<lambda>s. (s, [])) sizes), bb_sizes = sizes\<rparr>)"

definition sync_pool_Get :: "nat option \<Rightarrow> int \<Rightarrow> buffer list \<Rightarrow> buffer \<times> buffer list" where
  "sync_pool_Get choice sz xs =
     (case choice of
        Some i \<Rightarrow> if i < length xs then (xs ! i, take i xs @ drop (Suc i) xs)
                  else ((replicate (nat sz) 0, sz), xs)
      | None \<Rightarrow> ((replicate (nat sz) 0, sz), xs))"

definition GetBuffer ::
  "nat option \<Rightarrow> int \<Rightarrow> byte_buffer_pool \<Rightarrow> byte_buffer_pool \<times> buffer outcome" where
  "GetBuffer choice sz p =
     (case List.find (\<lambda>s. sz \<le> s) (bb_sizes p) of
        Some s \<Rightarrow>
          (case bb_pools p s of
             None \<Rightarrow> (p, Panic NilDereference)
           | Some xs \<Rightarrow>
               (let ((arr, _), xs') = sync_pool_Get choice s xs;
                    p' = p\<lparr>bb_pools := (bb_pools p)(s \<mapsto> xs')\<rparr>
                in if 0 \<le> sz \<and> sz \<le> int (length arr) then (p', Ret (arr, sz))
                   else (p', Panic SliceOutOfRange)))
      | None \<Rightarrow> (p, Ret (replicate (nat sz) 0, sz)))"

fun PutBuffer :: "buffer \<Rightarrow> byte_buffer_pool \<Rightarrow> byte_buffer_pool outcome" where
  "PutBuffer (arr, n) p =
     (let sz = int (length arr) in
      case List.find (\<lambda>s. sz = s) (bb_sizes p) of
        Some s \<Rightarrow>
          (case bb_pools p s of
             None \<Rightarrow> Panic NilDereference
           | Some xs \<Rightarrow> Ret (p\<lparr>bb_pools := (bb_pools p)(s \<mapsto> (arr, n) # xs)\<rparr>))
      | None \<Rightarrow> Ret p)"

text \<open>
  Every size has its sub-pool, and a sub-pool holds only buffers of exactly its capacity.
\<close>

definition buffers_ok :: "byte_buffer_pool \<Rightarrow> bool" where
  "buffers_ok p \<longleftrightarrow>
     (\<forall>s \<in> set (bb_sizes p). 0 \<le> s \<and>
        (\<exists>xs. bb_pools p s = Some xs \<and> (\<forall>b \<in> set xs. int (length (fst b)) = s)))"

definition buffer_class :: "int list \<Rightarrow> int \<Rightarrow> int" where
  "buffer_class sizes sz = (case List.find (\<lambda>s. sz \<le> s) sizes of Some s \<Rightarrow> s | None \<Rightarrow> sz)"

lemma buffers_ok_new: "buffers_ok NewByteBufferPool"
  by (simp add: buffers_ok_def NewByteBufferPool_def)

lemma sync_pool_Get_cap:
  assumes "sync_pool_Get c s xs = (b, xs')" and "\<forall>b \<in> set xs. int (length (fst b)) = s" and "0 \<le> s"
  shows "int (length (fst b)) = s \<and> (\<forall>b \<in> set xs'. int (length (fst b)) = s)"
proof -
  have "b \<in> set xs \<or> b = (replicate (nat s) 0, s)" "set xs' \<subseteq> set xs"
    using assms(1) set_take_subset set_drop_subset
    by (fastforce simp: sync_pool_Get_def split: option.splits if_splits)+
  then show ?thesis using assms(2,3) by auto
qed

lemma GetBuffer_spec:
  assumes "buffers_ok p" and "0 \<le> sz" and "GetBuffer choice sz p = (p', r)"
  shows "buffers_ok p' \<and>
    (\<exists>arr. r = Ret (arr, sz) \<and> int (length arr) = buffer_class (bb_sizes p) sz)"
proof (cases "List.find (\<lambda>s. sz \<le> s) (bb_sizes p)")
  case None
  with assms show ?thesis by (auto simp: GetBuffer_def buffer_class_def)
next
  case (Some s)
  have s: "s \<in> set (bb_sizes p)" "sz \<le> s" using find_Some_mem [OF Some] by simp_all
  obtain xs where xs: "bb_pools p s = Some xs" "\<forall>b \<in> set xs. int (length (fst b)) = s" "0 \<le> s"
    using assms(1) s(1) by (auto simp: buffers_ok_def)
  obtain b xs' where g: "sync_pool_Get choice s xs = (b, xs')" by fastforce
  have cap: "int (length (fst b)) = s" "\<forall>b \<in> set xs'. int (length (fst b)) = s"
    using sync_pool_Get_cap [OF g xs(2,3)] by simp_all
  obtain arr n where b: "b = (arr, n)" by fastforce
  have res: "p' = p\<lparr>bb_pools := (bb_pools p)(s \<mapsto> xs')\<rparr>" "r = Ret (arr, sz)"
    using assms(2,3) Some xs g cap s(2) b by (auto simp: GetBuffer_def split: if_splits)
  have "buffers_ok p'" using assms(1) cap(2) unfolding buffers_ok_def res(1) by auto
  then show ?thesis using res cap(1) b Some by (simp add: buffer_class_def)
qed

lemma PutBuffer_ok:
  assumes "buffers_ok p"
  shows "\<exists>p'. PutBuffer b p = Ret p' \<and> buffers_ok p'"
proof (cases b)
  case (Pair arr n)
  show ?thesis
  proof (cases "List.find (\<lambda>s. int (length arr) = s) (bb_sizes p)")
    case None
    then show ?thesis using assms Pair by simp
  next
    case (Some s)
    from find_Some_mem [OF Some] have s: "s \<in> set (bb_sizes p)" "int (length arr) = s" by simp_all
    then obtain xs where xs: "bb_pools p s = Some xs" using assms by (auto simp: buffers_ok_def)
    have all: "\<forall>b \<in> set xs. int (length (fst b)) = s"
      using assms s(1) xs unfolding buffers_ok_def by fastforce
    have "buffers_ok (p\<lparr>bb_pools := (bb_pools p)(s \<mapsto> (arr, n) # xs)\<rparr>)"
      using assms s(2) all unfolding buffers_ok_def by fastforce
    then show ?thesis using Some Pair xs by simp
  qed
qed

section \<open>Connection objects and the global pools\<close>

text \<open>
  A type that implements \<open>Resettable\<close> comes with its \<open>Reset\<close> method; for any other type the
  reset function does nothing.
\<close>

definition NewConnectionPool ::
  "('a \<Rightarrow> 'h \<Rightarrow> 'a \<times> 'h) option \<Rightarrow> int \<Rightarrow> ('h \<Rightarrow> 'a \<times> 'h) \<Rightarrow> ('a, 'h) generic_pool outcome" where
  "NewConnectionPool resettable maxSize factory =
     NewGenericPool maxSize factory
       (Some (\<lambda>obj h. case resettable of Some r \<Rightarrow> r obj h | None \<Rightarrow> (obj, h)))"

definition GetConnection ::
  "'a option \<Rightarrow> ('a, 'h) generic_pool \<Rightarrow> 'h \<Rightarrow> 'a \<times> ('a, 'h) generic_pool \<times> 'h" where
  "GetConnection w p h = pool_Get w p h"

definition PutConnection ::
  "'a option \<Rightarrow> ('a, 'h) generic_pool \<Rightarrow> 'h \<Rightarrow> ('a, 'h) generic_pool \<times> 'h" where
  "PutConnection c p h = pool_Put c p h"

text \<open>The anonymous struct of the global connection pool; it has no \<open>Reset\<close> method.\<close>

record conn_stub =
  cs_ID :: u64
  cs_UserID :: u64
  cs_SessionID :: string

record global_pools =
  gl_MessagePool :: message_pool
  gl_ConnectionPool :: "(conn_stub, store) generic_pool"
  gl_ByteBufferPool :: byte_buffer_pool
  gl_ActorPool :: actor_pool

definition conn_stub_factory :: "store \<Rightarrow> conn_stub \<times> store" where
  "conn_stub_factory h = (\<lparr>cs_ID = 0, cs_UserID = 0, cs_SessionID = ''''\<rparr>, h)"

text \<open>\<open>sync.Once\<close>: the first call builds the pools, later calls return the same ones.\<close>

definition GetGlobalPools :: "global_pools option \<Rightarrow> global_pools outcome" where
  "GetGlobalPools once =
     (case once of
        Some g \<Rightarrow> Ret g
      | None \<Rightarrow>
          (case (NewMessagePool 10000, NewConnectionPool None 1000 conn_stub_factory, NewActorPool 5000) of
             (Ret mp, Ret cp, Ret ap) \<Rightarrow>
               Ret \<lparr>gl_MessagePool = mp, gl_ConnectionPool = cp,
                    gl_ByteBufferPool = NewByteBufferPool, gl_ActorPool = ap\<rparr>
           | _ \<Rightarrow> Panic NegativeChannelSize))"

record pool_stats =
  st_Name :: string
  st_Size :: int
  st_Available :: int
  st_Created :: int
  st_Gotten :: int
  st_Put :: int

definition stats_of :: "string \<Rightarrow> ('a, 'h) generic_pool \<Rightarrow> pool_stats" where
  "stats_of name p =
     (let (created, gotten, put) = pool_Stats p
      in \<lparr>st_Name = name, st_Size = pool_Size p, st_Available = pool_Available p,
          st_Created = created, st_Gotten = gotten, st_Put = put\<rparr>)"

definition GetStats :: "global_pools \<Rightarrow> pool_stats list" where
  "GetStats gp =
     [stats_of ''MessagePool'' (gl_MessagePool gp),
      stats_of ''ConnectionPool'' (gl_ConnectionPool gp),
      stats_of ''ActorPool'' (gl_ActorPool gp)]"

section \<open>Properties\<close>

lemma race_inv_new:
  assumes "NewGenericPool m f r = Ret (ps_pool s0)" and "ps_pc s0 = (\<lambda>t. PIdle)" and "0 < n"
  shows "race_inv n s0 \<and> gp_maxSize (ps_pool s0) = m"
proof -
  have "0 \<le> m" "gp_created (ps_pool s0) = 0" "gp_maxSize (ps_pool s0) = m"
    using assms(1) by (auto simp: NewGenericPool_def split: if_splits)
      (metis generic_pool.select_convs)+
  then show ?thesis using assms(2,3) by (simp add: race_inv_def creating_def)
qed

text \<open>
  C28. Get reads the count of created objects and increments it in two steps, so callers race:
  with n goroutines using a pool of size m in any interleaving of the atomic steps of Get and
  Put, each holding any number of objects, the created count never exceeds m + n - 1. The
  witness is a run of two goroutines that reaches 2 on a pool of size 1: the limit itself is
  not kept, the bound is.
\<close>

theorem pool_created_bound:
  assumes "NewGenericPool m f r = Ret (ps_pool s0)" and "ps_pc s0 = (\<lambda>t. PIdle)"
    and "0 < n" and "m + int n < 2 ^ 63" and "pool_reach s0 n s"
  shows "0 \<le> gp_created (ps_pool s) \<and> gp_created (ps_pool s) \<le> m + int n - 1"
proof -
  have "race_inv n s \<and> gp_maxSize (ps_pool s) = m"
    using race_inv_new [OF assms(1-3)] pool_reach_race [OF assms(5)] assms(4) by simp
  then show ?thesis by (simp add: race_inv_def)
qed

text \<open>Two callers of an empty pool of size one: both see room before either counts its object.\<close>

definition race_start :: "(nat, nat) pool_sys" where
  "race_start = \<lparr>ps_pool = \<lparr>gp_free = [], gp_factory = (\<lambda>h. (h, Suc h)), gp_reset = None,
     gp_maxSize = 1, gp_created = 0, gp_gotten = 0, gp_put = 0\<rparr>, ps_heap = 0, ps_pc = (\<lambda>t. PIdle)\<rparr>"

definition race_end :: "(nat, nat) pool_sys" where
  "race_end = \<lparr>ps_pool = \<lparr>gp_free = [], gp_factory = (\<lambda>h. (h, Suc h)), gp_reset = None,
     gp_maxSize = 1, gp_created = 2, gp_gotten = 2, gp_put = 0\<rparr>, ps_heap = 2,
     ps_pc = (\<lambda>t. PIdle)(0 := PGot 0, 1 := PGot 1)\<rparr>"

lemma race_run: "pool_reach race_start 2 race_end"
proof -
  let ?p = "\<lambda>c g. \<lparr>gp_free = [], gp_factory = (\<lambda>h. (h, Suc h)), gp_reset = None,
    gp_maxSize = 1, gp_created = c, gp_gotten = g, gp_put = 0\<rparr> :: (nat, nat) generic_pool"
  let ?s = "\<lambda>c g h a b. \<lparr>ps_pool = ?p c g, ps_heap = h, ps_pc = (\<lambda>t. PIdle)(0 := a, 1 := b)\<rparr>"
  have idle: "race_start = ?s 0 0 0 PIdle PIdle" by (simp add: race_start_def fun_eq_iff)
  have 1: "get_step (?s 0 0 0 PIdle PIdle) 0 (?s 0 1 0 PCounted PIdle)"
    using get_step.count [of "?s 0 0 0 PIdle PIdle" 0] by (simp add: fun_upd_twist)
  have 2: "get_step (?s 0 1 0 PCounted PIdle) 0 (?s 0 1 0 PMissed PIdle)"
    using get_step.miss [of "?s 0 1 0 PCounted PIdle" 0] by (simp add: fun_upd_twist)
  have 3: "get_step (?s 0 1 0 PMissed PIdle) 0 (?s 0 1 0 PCreating PIdle)"
    using get_step.below [of "?s 0 1 0 PMissed PIdle" 0] by (simp add: fun_upd_twist)
  have 4: "get_step (?s 0 1 0 PCreating PIdle) 1 (?s 0 2 0 PCreating PCounted)"
    using get_step.count [of "?s 0 1 0 PCreating PIdle" 1] by simp
  have 5: "get_step (?s 0 2 0 PCreating PCounted) 1 (?s 0 2 0 PCreating PMissed)"
    using get_step.miss [of "?s 0 2 0 PCreating PCounted" 1] by simp
  have 6: "get_step (?s 0 2 0 PCreating PMissed) 1 (?s 0 2 0 PCreating PCreating)"
    using get_step.below [of "?s 0 2 0 PCreating PMissed" 1] by simp
  have 7: "get_step (?s 0 2 0 PCreating PCreating) 0 (?s 1 2 1 (PGot 0) PCreating)"
    using get_step.create [of "?s 0 2 0 PCreating PCreating" 0 0 1] by (simp add: fun_upd_twist)
  have 8: "get_step (?s 1 2 1 (PGot 0) PCreating) 1 (?s 2 2 2 (PGot 0) (PGot 1))"
    using get_step.create [of "?s 1 2 1 (PGot 0) PCreating" 1 1 2] by simp
  note pool_reach.step [where s0 = race_start and n = 2]
  from pool_reach.start [of race_start 2] have "pool_reach race_start 2 (?s 0 0 0 PIdle PIdle)"
    by (simp add: idle)
  from pool_reach.step [OF this 1] pool_reach.step [OF _ 2] pool_reach.step [OF _ 3]
    pool_reach.step [OF _ 4] pool_reach.step [OF _ 5] pool_reach.step [OF _ 6]
    pool_reach.step [OF _ 7] pool_reach.step [OF _ 8]
  have "pool_reach race_start 2 (?s 2 2 2 (PGot 0) (PGot 1))" by simp
  then show ?thesis by (simp add: race_end_def)
qed

theorem pool_created_bound_witness:
  "0 \<le> gp_created (ps_pool race_end) \<and> gp_created (ps_pool race_end) \<le> 1 + int 2 - 1 \<and>
   gp_maxSize (ps_pool race_end) < gp_created (ps_pool race_end)"
proof -
  have "NewGenericPool 1 (\<lambda>h. (h, Suc h)) None = Ret (ps_pool race_start)"
    by (simp add: NewGenericPool_def race_start_def)
  then have "0 \<le> gp_created (ps_pool race_end) \<and> gp_created (ps_pool race_end) \<le> 1 + int 2 - 1"
    by (rule pool_created_bound) (simp_all add: race_run, simp add: race_start_def)
  then show ?thesis by (simp add: race_end_def)
qed

text \<open>
  Over any sequence of GetMessage and PutMessage on a new message pool of size m, every message
  handed out is reset (empty type, no data, empty buffer), and the free and the counted objects
  stay between 0 and m.
\<close>

theorem message_pool_run:
  assumes "NewMessagePool m = Ret p" and "m < 2 ^ 63"
    and "\<forall>w. Inl w \<in> set rs \<longrightarrow> pred_option clean_message w"
    and "pool_run GetMessage PutMessage rs p h = (got, p', h')"
  shows "list_all clean_message got \<and> 0 \<le> pool_Available p' \<and> pool_Available p' \<le> m \<and>
    0 \<le> pool_Size p' \<and> pool_Size p' \<le> m"
proof -
  have new: "message_pool_ok p" "gp_maxSize p = m"
    using assms(1,2) pool_inv_new [of m message_factory "Some message_Reset" p clean_message]
    by (auto simp: message_pool_ok_def NewMessagePool_def NewGenericPool_def split: if_splits)
  have "message_pool_ok p' \<and> gp_maxSize p' = m \<and> list_all clean_message got"
    using message_pool.run_invar [OF new(1) assms(3), of h] new(2) assms(4) by simp
  then show ?thesis
    using message_pool.available_bounds [of p']
    by (auto simp: message_pool_ok_def pool_inv_def pool_Size_def)
qed

definition empty_store :: store where
  "empty_store = \<lparr>st_next = 0, st_arr = (\<lambda>a. [])\<rparr>"

definition dirty_message :: message where
  "dirty_message = \<lparr>m_Type = ''chat'', m_Data = Slice 7 3, m_buf = Slice 7 3\<rparr>"

theorem message_pool_run_witness:
  "\<exists>p got p' h'. NewMessagePool 1 = Ret p \<and>
     pool_run GetMessage PutMessage [Inr (Some dirty_message), Inl None, Inl None] p empty_store
       = (got, p', h') \<and>
     length got = 2 \<and> list_all clean_message got \<and> pool_Available p' = 0 \<and> pool_Size p' = 1"
proof -
  obtain p where p: "NewMessagePool 1 = Ret p" by (simp add: NewMessagePool_def NewGenericPool_def)
  let ?rs = "[Inr (Some dirty_message), Inl None, Inl None]"
  obtain got p' h' where r: "pool_run GetMessage PutMessage ?rs p empty_store = (got, p', h')"
    by (metis prod_cases3)
  have "list_all clean_message got \<and> 0 \<le> pool_Available p' \<and> pool_Available p' \<le> 1 \<and>
    0 \<le> pool_Size p' \<and> pool_Size p' \<le> 1"
    by (rule message_pool_run [OF p _ _ r]) simp_all
  moreover have "length got = 2 \<and> pool_Available p' = 0 \<and> pool_Size p' = 1"
    using p r by (auto simp: NewMessagePool_def NewGenericPool_def GetMessage_def PutMessage_def
        pool_Get_def pool_Put_def pool_Available_def pool_Size_def Let_def split: prod.splits)
  ultimately show ?thesis using p r by blast
qed

text \<open>
  SetData copies the caller's bytes into the message's own buffer, but the buffer is reused: a
  Data slice kept after the message went back to the pool (buffers up to 4096 bytes are kept)
  reads the next user's bytes as soon as the message is taken out again and filled with data of
  the same length.
\<close>

theorem retained_data_overwritten:
  assumes "message_pool_ok p" and "gp_free p = []" and "0 < gp_maxSize p"
    and "message_SetData d1 m h = (m1, h1)" and "valid_slice h d1" and "slice_len d1 \<le> 4096"
    and "PutMessage (Some m1) p h1 = (p1, h2)" and "GetMessage w p1 h2 = (m2, p2, h3)"
    and "message_SetData d2 m2 h3 = (m3, h4)" and "valid_slice h3 d2"
    and "slice_len d2 = slice_len d1" and "valid_slice h (m_buf m)"
  shows "slice_bytes h1 (m_Data m1) = slice_bytes h d1 \<and>
    slice_bytes h4 (m_Data m1) = slice_bytes h3 d2"
proof -
  have d: "m_buf m1 = m_Data m1" "valid_slice h1 (m_Data m1)" "slice_len (m_Data m1) = slice_len d1"
    using SetData_valid [OF assms(4,5,12)] by simp_all
  have "m2 = m1\<lparr>m_Type := '''', m_Data := slice_to 0 (m_Data m1), m_buf := slice_to 0 (m_Data m1)\<rparr> \<and> h3 = h1"
    using assms(1-3,6,7,8) d
    by (auto simp: PutMessage_def GetMessage_def pool_Put_def pool_Get_def message_pool_ok_def
        message_Reset_def Let_def split: prod.splits if_splits)
  then have m2: "m_buf m2 = slice_to 0 (m_Data m1)" "h3 = h1" by simp_all
  have "slice_len d2 \<le> slice_cap h3 (m_buf m2)"
    using d(2,3) m2 assms(11) by (cases "m_Data m1") simp_all
  then have "m_Data m3 = m_Data m1"
    using SetData_reuses [OF assms(9)] m2(1) d(3) assms(11) by (cases "m_Data m1") simp_all
  then show ?thesis using SetData_bytes [OF assms(4,5)] SetData_bytes [OF assms(9,10)] by simp
qed

definition two_arrays :: store where
  "two_arrays = \<lparr>st_next = 3, st_arr = (\<lambda>a. [])(0 := [1, 2], 1 := [8, 9], 2 := [0, 0, 0])\<rparr>"

theorem retained_data_overwritten_witness:
  "let p = \<lparr>gp_free = [], gp_factory = message_factory, gp_reset = Some message_Reset,
       gp_maxSize = 1, gp_created = 1, gp_gotten = 1, gp_put = 0\<rparr>;
     (m1, h1) = message_SetData (Slice 0 2) \<lparr>m_Type = ''a'', m_Data = NilSlice, m_buf = Slice 2 0\<rparr> two_arrays;
     (p1, h2) = PutMessage (Some m1) p h1;
     (m2, p2, h3) = GetMessage None p1 h2;
     (m3, h4) = message_SetData (Slice 1 2) m2 h3
   in slice_bytes h1 (m_Data m1) = [1, 2] \<and> slice_bytes h4 (m_Data m1) = [8, 9]"
proof -
  let ?p = "\<lparr>gp_free = [], gp_factory = message_factory, gp_reset = Some message_Reset,
    gp_maxSize = 1, gp_created = 1, gp_gotten = 1, gp_put = 0\<rparr> :: message_pool"
  let ?m = "\<lparr>m_Type = ''a'', m_Data = NilSlice, m_buf = Slice 2 0\<rparr>"
  obtain m1 h1 where s1: "message_SetData (Slice 0 2) ?m two_arrays = (m1, h1)" by fastforce
  obtain p1 h2 where put: "PutMessage (Some m1) ?p h1 = (p1, h2)" by fastforce
  obtain m2 p2 h3 where g: "GetMessage None p1 h2 = (m2, p2, h3)" by (metis prod_cases3)
  obtain m3 h4 where s2: "message_SetData (Slice 1 2) m2 h3 = (m3, h4)" by fastforce
  have ok: "message_pool_ok ?p" by (simp add: message_pool_ok_def pool_inv_def)
  have m1: "m_buf m1 = Slice 2 2" "h1 = two_arrays\<lparr>st_arr := (st_arr two_arrays)(2 := [1, 2, 0])\<rparr>"
    using s1 by (auto simp: message_SetData_def two_arrays_def Let_def)
  have h3: "h3 = h1" using put g m1(1)
    by (auto simp: PutMessage_def GetMessage_def pool_Put_def pool_Get_def message_Reset_def Let_def)
  have "slice_bytes h1 (m_Data m1) = slice_bytes two_arrays (Slice 0 2) \<and>
    slice_bytes h4 (m_Data m1) = slice_bytes h3 (Slice 1 2)"
    by (rule retained_data_overwritten [OF ok _ _ s1 _ _ put g s2])
      (simp_all add: two_arrays_def h3 m1(2))
  then show ?thesis using s1 put g s2 h3 m1(2) by (simp add: two_arrays_def Let_def)
qed

text \<open>
  From a byte buffer pool whose sub-pools hold only buffers of their class, GetBuffer of a non-
  negative size returns a buffer of exactly that length whose capacity is the smallest class
  that fits (the size itself beyond 64 KiB), never panics, and every PutBuffer keeps the sub-
  pools sorted by class.
\<close>

theorem byte_buffer_get_put:
  assumes "buffers_ok p" and "0 \<le> sz" and "GetBuffer choice sz p = (p', r)"
  shows "buffers_ok NewByteBufferPool \<and> buffers_ok p' \<and>
    (\<exists>arr. r = Ret (arr, sz) \<and> int (length arr) = buffer_class (bb_sizes p) sz \<and> sz \<le> int (length arr)) \<and>
    (\<exists>q. PutBuffer b p' = Ret q \<and> buffers_ok q)"
proof -
  have g: "buffers_ok p'" "\<exists>arr. r = Ret (arr, sz) \<and> int (length arr) = buffer_class (bb_sizes p) sz"
    using GetBuffer_spec [OF assms] by simp_all
  have "sz \<le> buffer_class (bb_sizes p) sz"
    by (auto simp: buffer_class_def split: option.splits dest: find_Some_mem)
  then show ?thesis using g PutBuffer_ok [OF g(1), of b] buffers_ok_new by auto
qed

theorem byte_buffer_get_put_witness:
  "\<exists>p' arr. GetBuffer None 100 NewByteBufferPool = (p', Ret (arr, 100)) \<and>
     length arr = 256 \<and> buffers_ok p'"
proof -
  obtain p' r where g: "GetBuffer None 100 NewByteBufferPool = (p', r)" by fastforce
  note facts = byte_buffer_get_put [OF buffers_ok_new zero_le_numeral g, where b = "([], 0)"]
  have "buffers_ok p'" using facts by blast
  moreover obtain arr where "r = Ret (arr, 100)"
    "int (length arr) = buffer_class (bb_sizes NewByteBufferPool) 100"
    using facts by fastforce
  ultimately show ?thesis using g
    by (auto simp: NewByteBufferPool_def buffer_class_def Let_def)
qed

end
