(* ===== verification/RateLimit.thy ===== *)
theory RateLimit
  imports Prelude
begin

text \<open>
  The rate limit manager, \<open>internal/security/limiter.go\<close>. The token bucket itself,
  \<open>golang.org/x/time/rate\<close>, is a parameter; what it documents is the locale
  \<open>token_bucket\<close>, interpreted by an exact bucket. Rates are whole tokens per second, as in
  every call of the program.
\<close>

section \<open>The manager\<close>

record 'b bucket_lib =
  bl_New :: "int \<Rightarrow> int \<Rightarrow> 'b"
  bl_Allow :: "time \<Rightarrow> 'b \<Rightarrow> bool \<times> 'b"
  bl_SetLimit :: "int \<Rightarrow> time \<Rightarrow> 'b \<Rightarrow> 'b"
  bl_SetBurst :: "int \<Rightarrow> time \<Rightarrow> 'b \<Rightarrow> 'b"

record 'b rate_limiter =
  rl_limiter :: 'b
  rl_rate :: int
  rl_burst :: int
  rl_lastRequest :: time

record 'b limit_manager =
  lm_limiters :: "string \<rightharpoonup> 'b rate_limiter"
  lm_stopped :: bool

definition NewRateLimitManager :: "'b limit_manager" where
  "NewRateLimitManager = \<lparr>lm_limiters = Map.empty, lm_stopped = False\<rparr>"

text \<open>
  The clock is read on creation (\<open>now 0\<close>), by \<open>Allow\<close> (\<open>now 1\<close>; the setters read
  \<open>now 0\<close>) and after a request is allowed (\<open>now 2\<close>).
\<close>

definition CheckLimit ::
  "'b bucket_lib \<Rightarrow> (nat \<Rightarrow> time) \<Rightarrow> string \<Rightarrow> int \<Rightarrow> int \<Rightarrow> 'b limit_manager \<Rightarrow> bool \<times> 'b limit_manager" where
  "CheckLimit bl now key r burst lm =
     (case lm_limiters lm key of
        None \<Rightarrow>
          (let (allowed, b) = bl_Allow bl (now 1) (bl_New bl r burst);
               bucket = \<lparr>rl_limiter = b, rl_rate = r, rl_burst = burst,
                         rl_lastRequest = (if allowed then now 2 else now 0)\<rparr>
           in (allowed, lm\<lparr>lm_limiters := (lm_limiters lm)(key \<mapsto> bucket)\<rparr>))
      | Some bucket0 \<Rightarrow>
          (let bucket1 = (if rl_rate bucket0 \<noteq> r \<or> rl_burst bucket0 \<noteq> burst
                          then bucket0\<lparr>rl_rate := r, rl_burst := burst,
                            rl_limiter := bl_SetBurst bl burst (now 0) (bl_SetLimit bl r (now 0) (rl_limiter bucket0))\<rparr>
                          else bucket0);
               (allowed, b) = bl_Allow bl (now 1) (rl_limiter bucket1);
               bucket2 = bucket1\<lparr>rl_limiter := b\<rparr>;
               bucket3 = (if allowed then bucket2\<lparr>rl_lastRequest := now 2\<rparr> else bucket2)
           in (allowed, lm\<lparr>lm_limiters := (lm_limiters lm)(key \<mapsto> bucket3)\<rparr>)))"

definition cleanupExpiredBuckets :: "time \<Rightarrow> 'b limit_manager \<Rightarrow> 'b limit_manager" where
  "cleanupExpiredBuckets now lm =
     lm\<lparr>lm_limiters := (\<lambda>key. case lm_limiters lm key of
          None \<Rightarrow> None
        | Some b \<Rightarrow> if time_sub now (rl_lastRequest b) > 3600 * second then None else Some b)\<rparr>"

definition startCleanupLoop :: "time loop_event list \<Rightarrow> 'b limit_manager \<Rightarrow> 'b limit_manager loop_result" where
  "startCleanupLoop = ticker_loop (\<lambda>now lm. Ret (cleanupExpiredBuckets now lm))"

text \<open>Closing the stop channel a second time panics.\<close>

definition StopCleanup :: "'b limit_manager \<Rightarrow> 'b limit_manager outcome" where
  "StopCleanup lm = (if lm_stopped lm then Panic CloseOfClosedChannel else Ret (lm\<lparr>lm_stopped := True\<rparr>))"

section \<open>What the token bucket documents\<close>

text \<open>
  \<open>level b t\<close> is the content at time \<open>t\<close> in billionths of a token: it starts at most full,
  grows by the rate, and a request that is allowed takes a whole token.
\<close>

locale token_bucket =
  fixes bl :: "'b bucket_lib"
    and level :: "'b \<Rightarrow> time \<Rightarrow> int"
    and rate :: "'b \<Rightarrow> int"
  assumes level_new: "level (bl_New bl r burst) t \<le> burst * 1000000000 \<and> rate (bl_New bl r burst) = r"
    and level_grows: "t \<le> u \<Longrightarrow> 0 \<le> rate b \<Longrightarrow> level b u \<le> level b t + rate b * (u - t)"
    and allow: "bl_Allow bl t b = (ok, b') \<Longrightarrow> rate b' = rate b \<and>
      (if ok then level b t \<ge> 1000000000 \<and> level b' t = level b t - 1000000000 else level b' t = level b t)"

text \<open>Requests of one key, with clean-ups in between.\<close>

datatype limit_event = Request "nat \<Rightarrow> time" | Cleanup time

fun limit_run ::
  "'b bucket_lib \<Rightarrow> string \<Rightarrow> int \<Rightarrow> int \<Rightarrow> limit_event list \<Rightarrow> 'b limit_manager \<Rightarrow> bool list \<times> 'b limit_manager" where
  "limit_run bl key r burst [] lm = ([], lm)"
| "limit_run bl key r burst (Request now # es) lm =
     (let (ok, lm1) = CheckLimit bl now key r burst lm; (oks, lm2) = limit_run bl key r burst es lm1
      in (ok # oks, lm2))"
| "limit_run bl key r burst (Cleanup t # es) lm = limit_run bl key r burst es (cleanupExpiredBuckets t lm)"

text \<open>The events happen in order: \<open>clocked t0 es t\<close> from \<open>t0\<close> to \<open>t\<close>.\<close>

fun clocked :: "time \<Rightarrow> limit_event list \<Rightarrow> time \<Rightarrow> bool" where
  "clocked t [] u \<longleftrightarrow> t \<le> u"
| "clocked t (Request now # es) u \<longleftrightarrow> t \<le> now 0 \<and> now 0 \<le> now 1 \<and> now 1 \<le> now 2 \<and> clocked (now 2) es u"
| "clocked t (Cleanup s # es) u \<longleftrightarrow> t \<le> s \<and> clocked s es u"

text \<open>What the clean-up goroutine does is what the clean-ups of a run do; it ends with the stop channel.\<close>

lemma startCleanupLoop_run:
  "startCleanupLoop (map Tick ts @ Done # es) lm = Returned (snd (limit_run bl key r burst (map Cleanup ts) lm))"
proof -
  have "snd (limit_run bl key r burst (map Cleanup ts) lm) = fold cleanupExpiredBuckets ts lm"
    by (induction ts arbitrary: lm) simp_all
  then show ?thesis by (simp add: startCleanupLoop_def ticker_loop_fold(2) [where f = cleanupExpiredBuckets])
qed

context token_bucket
begin

text \<open>
  \<open>n\<close> requests were allowed since \<open>t0\<close>, it is now \<open>t\<close>: what is left in the bucket is
  covered by the budget, and so is a full bucket in its place once it is removed.
\<close>

definition limit_inv :: "string \<Rightarrow> int \<Rightarrow> int \<Rightarrow> time \<Rightarrow> nat \<Rightarrow> time \<Rightarrow> 'b limit_manager \<Rightarrow> bool" where
  "limit_inv key r burst t0 n t lm \<longleftrightarrow>
     (case lm_limiters lm key of
        None \<Rightarrow> int n * 1000000000 \<le> r * (t - t0)
      | Some b \<Rightarrow> rl_rate b = r \<and> rl_burst b = burst \<and> rate (rl_limiter b) = r \<and>
          level (rl_limiter b) t + int n * 1000000000 \<le> burst * 1000000000 + r * (t - t0) \<and>
          int n * 1000000000 \<le> burst * 1000000000 + r * (rl_lastRequest b - t0)) \<and>
     int n * 1000000000 \<le> burst * 1000000000 + r * (t - t0)"

lemma CheckLimit_inv:
  assumes inv: "limit_inv key r burst t0 n t lm" and r: "0 \<le> r" and b: "0 \<le> burst"
    and t: "t \<le> now 0" "now 0 \<le> now 1" "now 1 \<le> now 2"
    and c: "CheckLimit bl now key r burst lm = (ok, lm')"
  shows "limit_inv key r burst t0 (if ok then Suc n else n) (now 2) lm'"
proof -
  have mono: "r * (t - t0) \<le> r * (now 0 - t0)" "r * (now 0 - t0) \<le> r * (now 1 - t0)" "r * (now 1 - t0) \<le> r * (now 2 - t0)"
    using r t by (intro mult_left_mono; simp)+
  let ?b0 = "case lm_limiters lm key of None \<Rightarrow> bl_New bl r burst | Some x \<Rightarrow> rl_limiter x"
  obtain ok1 b1 where al: "bl_Allow bl (now 1) ?b0 = (ok1, b1)" by fastforce
  have b0: "rate ?b0 = r" "level ?b0 (now 1) + int n * 1000000000 \<le> burst * 1000000000 + r * (now 1 - t0)"
  proof -
    show "rate ?b0 = r" using inv level_new by (auto simp: limit_inv_def split: option.splits)
    show "level ?b0 (now 1) + int n * 1000000000 \<le> burst * 1000000000 + r * (now 1 - t0)"
    proof (cases "lm_limiters lm key")
      case None
      then have "int n * 1000000000 \<le> r * (now 1 - t0)" using inv mono by (simp add: limit_inv_def)
      then show ?thesis using None level_new [of r burst "now 1"] by simp
    next
      case (Some x)
      then have x: "rate (rl_limiter x) = r" "level (rl_limiter x) t + int n * 1000000000 \<le> burst * 1000000000 + r * (t - t0)"
        using inv by (simp_all add: limit_inv_def)
      have "level (rl_limiter x) (now 1) \<le> level (rl_limiter x) t + r * (now 1 - t)"
        using level_grows [of t "now 1" "rl_limiter x"] x(1) r t by simp
      then show ?thesis using x(2) Some by (simp add: algebra_simps)
    qed
  qed
  have res: "ok = ok1" "\<exists>x. lm_limiters lm' key = Some x \<and> rl_limiter x = b1 \<and> rl_rate x = r \<and> rl_burst x = burst \<and>
      (ok1 \<longrightarrow> rl_lastRequest x = now 2) \<and>
      (\<not> ok1 \<longrightarrow> (case lm_limiters lm key of None \<Rightarrow> rl_lastRequest x = now 0 | Some y \<Rightarrow> rl_lastRequest x = rl_lastRequest y))"
    using c al inv by (auto simp: CheckLimit_def limit_inv_def Let_def split: option.splits)
  then obtain x where x: "lm_limiters lm' key = Some x" "rl_limiter x = b1" "rl_rate x = r" "rl_burst x = burst"
    "ok1 \<Longrightarrow> rl_lastRequest x = now 2"
    "\<not> ok1 \<Longrightarrow> (case lm_limiters lm key of None \<Rightarrow> rl_lastRequest x = now 0 | Some y \<Rightarrow> rl_lastRequest x = rl_lastRequest y)"
    by blast
  let ?n = "if ok1 then Suc n else n"
  have lv: "level b1 (now 1) + int ?n * 1000000000 \<le> burst * 1000000000 + r * (now 1 - t0)" "rate b1 = r"
    using allow [OF al] b0 by (auto split: if_splits)
  have "level b1 (now 2) \<le> level b1 (now 1) + r * (now 2 - now 1)"
    using level_grows [of "now 1" "now 2" b1] lv(2) r t by simp
  then have lv2: "level b1 (now 2) + int ?n * 1000000000 \<le> burst * 1000000000 + r * (now 2 - t0)"
    using lv(1) by (simp add: algebra_simps)
  have used: "int ?n * 1000000000 \<le> burst * 1000000000 + r * (rl_lastRequest x - t0)"
  proof (cases ok1)
    case True
    then have "level b1 (now 1) \<ge> 0" using allow [OF al] by simp
    then show ?thesis using lv(1) mono(3) True x(5) by simp
  next
    case False
    show ?thesis
    proof (cases "lm_limiters lm key")
      case None
      then have "int n * 1000000000 \<le> r * (now 0 - t0)" using inv mono(1) by (simp add: limit_inv_def)
      then show ?thesis using None False x(6) b by simp
    next
      case (Some y)
      then show ?thesis using inv False x(6) by (simp add: limit_inv_def)
    qed
  qed
  have now2: "int ?n * 1000000000 \<le> burst * 1000000000 + r * (now 2 - t0)"
  proof (cases ok1)
    case True
    then show ?thesis using used x(5) by simp
  next
    case False
    then show ?thesis using inv mono by (simp add: limit_inv_def)
  qed
  show ?thesis unfolding limit_inv_def using x(1-4) res(1) lv(2) lv2 used now2 by simp
qed

lemma cleanup_inv:
  assumes inv: "limit_inv key r burst t0 n t lm" and r: "0 \<le> r" and rb: "burst \<le> r * 3600" and t: "t \<le> u"
  shows "limit_inv key r burst t0 n u (cleanupExpiredBuckets u lm)"
proof -
  have mono: "r * (t - t0) \<le> r * (u - t0)" using r t by (intro mult_left_mono) simp_all
  show ?thesis
  proof (cases "lm_limiters lm key")
    case None
    then show ?thesis using inv mono by (simp add: limit_inv_def cleanupExpiredBuckets_def)
  next
    case (Some b)
    then have b: "rl_rate b = r" "rl_burst b = burst" "rate (rl_limiter b) = r"
      "level (rl_limiter b) t + int n * 1000000000 \<le> burst * 1000000000 + r * (t - t0)"
      "int n * 1000000000 \<le> burst * 1000000000 + r * (rl_lastRequest b - t0)"
      using inv by (simp_all add: limit_inv_def)
    show ?thesis
    proof (cases "time_sub u (rl_lastRequest b) > 3600 * second")
      case True
      then have "u - rl_lastRequest b > 3600 * second" using time_sub_gt [of "3600 * second" u] by simp
      then have "r * (3600 * second) \<le> r * (u - rl_lastRequest b)" using r by (intro mult_left_mono) simp_all
      then have "int n * 1000000000 \<le> r * (u - t0)" using b(5) rb by (simp add: algebra_simps)
      then show ?thesis using True Some inv mono by (simp add: limit_inv_def cleanupExpiredBuckets_def)
    next
      case False
      have "level (rl_limiter b) u \<le> level (rl_limiter b) t + r * (u - t)"
        using level_grows [of t u "rl_limiter b"] b(3) r t by simp
      then have "level (rl_limiter b) u + int n * 1000000000 \<le> burst * 1000000000 + r * (u - t0)"
        using b(4) by (simp add: algebra_simps)
      then show ?thesis using False Some inv mono b by (simp add: limit_inv_def cleanupExpiredBuckets_def)
    qed
  qed
qed

lemma limit_run_inv:
  assumes "limit_run bl key r burst es lm = (oks, lm')" and "limit_inv key r burst t0 n t lm"
    and "0 \<le> r" and "0 \<le> burst" and "burst \<le> r * 3600" and "clocked t es u"
  shows "int (n + length (filter id oks)) * 1000000000 \<le> burst * 1000000000 + r * (u - t0)"
  using assms(1,2,6)
proof (induction es arbitrary: lm oks n t)
  case Nil
  have "r * (t - t0) \<le> r * (u - t0)" using Nil.prems(3) assms(3) by (intro mult_left_mono) simp_all
  then show ?case using Nil.prems by (simp add: limit_inv_def)
next
  case (Cons e es)
  show ?case
  proof (cases e)
    case (Request now)
    obtain ok lm1 where c: "CheckLimit bl now key r burst lm = (ok, lm1)" by fastforce
    obtain oks1 where run: "limit_run bl key r burst es lm1 = (oks1, lm')" "oks = ok # oks1"
      using Cons.prems(1) Request c by (auto split: prod.splits)
    have "limit_inv key r burst t0 (if ok then Suc n else n) (now 2) lm1"
      by (rule CheckLimit_inv [OF Cons.prems(2) assms(3,4) _ _ _ c]) (use Cons.prems(3) Request in simp_all)
    from Cons.IH [OF run(1) this] show ?thesis using Cons.prems(3) Request run(2) by (auto split: if_splits)
  next
    case (Cleanup s)
    have "limit_inv key r burst t0 n s (cleanupExpiredBuckets s lm)"
      by (rule cleanup_inv [OF Cons.prems(2) assms(3,5)]) (use Cons.prems(3) Cleanup in simp)
    from Cons.IH [OF _ this] show ?thesis using Cons.prems Cleanup by simp
  qed
qed

lemma limit_inv_new: "lm_limiters lm key = None \<Longrightarrow> 0 \<le> burst \<Longrightarrow> limit_inv key r burst t0 0 t0 lm"
  by (simp add: limit_inv_def)

end

section \<open>An exact bucket\<close>

record exact_bucket =
  eb_rate :: int
  eb_burst :: int
  eb_tokens :: int
  eb_last :: time

definition eb_level :: "exact_bucket \<Rightarrow> time \<Rightarrow> int" where
  "eb_level b t = min (eb_burst b * 1000000000) (eb_tokens b + eb_rate b * (t - eb_last b))"

definition exact_lib :: "exact_bucket bucket_lib" where
  "exact_lib = \<lparr>bl_New = (\<lambda>r n. \<lparr>eb_rate = r, eb_burst = n, eb_tokens = n * 1000000000, eb_last = 0\<rparr>),
     bl_Allow = (\<lambda>t b. if eb_level b t \<ge> 1000000000
        then (True, b\<lparr>eb_tokens := eb_level b t - 1000000000, eb_last := t\<rparr>)
        else (False, b\<lparr>eb_tokens := eb_level b t, eb_last := t\<rparr>)),
     bl_SetLimit = (\<lambda>r t b. b\<lparr>eb_tokens := eb_level b t, eb_last := t, eb_rate := r\<rparr>),
     bl_SetBurst = (\<lambda>n t b. b\<lparr>eb_tokens := eb_level b t, eb_last := t, eb_burst := n\<rparr>)\<rparr>"

interpretation exact: token_bucket exact_lib eb_level eb_rate
proof unfold_locales
  fix t u :: time and b :: exact_bucket
  assume "t \<le> u" "0 \<le> eb_rate b"
  then have "0 \<le> eb_rate b * (u - t)" by simp
  then show "eb_level b u \<le> eb_level b t + eb_rate b * (u - t)"
    by (auto simp: eb_level_def algebra_simps min_def)
qed (auto simp: exact_lib_def eb_level_def split: if_splits)

section \<open>Properties\<close>

text \<open>
  C18. On any token bucket that does what golang.org/x/time/rate documents, over any sequence
  of CheckLimit calls of one key with the same rate r and burst b, with clean-ups of idle
  buckets in between, at most b + r * (elapsed seconds) requests are allowed; removing a bucket
  after an hour never gives a client more, as long as the burst refills within the hour.
\<close>

theorem rate_limit_bound:
  assumes "token_bucket bl level rate" and "lm_limiters lm key = None"
    and "0 \<le> r" and "0 \<le> burst" and "burst \<le> r * 3600"
    and "clocked t es u" and "limit_run bl key r burst es lm = (oks, lm')"
  shows "int (length (filter id oks)) * 1000000000 \<le> burst * 1000000000 + r * (u - t)"
  using token_bucket.limit_run_inv [OF assms(1,7) token_bucket.limit_inv_new [OF assms(1,2,4)] assms(3-6)]
  by simp

theorem rate_limit_bound_witness:
  "let es = replicate 7 (Request (\<lambda>i. 0)) @ [Cleanup 1, Request (\<lambda>i. 200000000)];
     (oks, lm) = limit_run exact_lib ''conn'' 5 5 es NewRateLimitManager
   in oks = [True, True, True, True, True, False, False, True] \<and>
      int (length (filter id oks)) * 1000000000 \<le> 5 * 1000000000 + 5 * (200000000 - 0)"
proof -
  let ?es = "replicate 7 (Request (\<lambda>i. 0)) @ [Cleanup 1, Request (\<lambda>i. 200000000)]"
  obtain oks lm where run: "limit_run exact_lib ''conn'' 5 5 ?es NewRateLimitManager = (oks, lm)" by fastforce
  have "fst (limit_run exact_lib ''conn'' 5 5 ?es NewRateLimitManager) =
    [True, True, True, True, True, False, False, True]" by code_simp
  moreover have "int (length (filter id oks)) * 1000000000 \<le> 5 * 1000000000 + 5 * (200000000 - 0)"
    by (rule rate_limit_bound [OF exact.token_bucket_axioms _ _ _ _ _ run])
      (simp_all add: NewRateLimitManager_def numeral_eq_Suc)
  ultimately show ?thesis using run by simp
qed

end
