(* ===== verification/Framing.thy ===== *)
theory Framing
  imports Prelude
begin

text \<open>
  The framing of the TCP protocol: the length prefix that the gateway and the client write, and
  the read loop of \<open>handleConnection\<close> in \<open>internal/network/tcp_server.go\<close>, on a socket
  that delivers the stream in segments.
\<close>

unbundle bit_operations_syntax

section \<open>Big-endian prefixes\<close>

definition be_encode :: "u32 \<Rightarrow> bytes" where
  "be_encode w = [ucast (drop_bit 24 w), ucast (drop_bit 16 w), ucast (drop_bit 8 w), ucast w]"

text \<open>The four bytes at the beginning of a buffer; the callers' buffers have at least four.\<close>

definition be_decode :: "bytes \<Rightarrow> u32" where
  "be_decode bs = push_bit 24 (ucast (bs ! 0)) OR push_bit 16 (ucast (bs ! 1)) OR
     push_bit 8 (ucast (bs ! 2)) OR ucast (bs ! 3)"

lemma length_be_encode [simp]: "length (be_encode w) = 4"
  by (simp add: be_encode_def)

lemma be_decode_encode [simp]: "be_decode (be_encode w @ bs) = w"
proof (rule bit_word_eqI)
  fix n assume "n < LENGTH(32)"
  then consider "n < 8" | "8 \<le> n \<and> n < 16" | "16 \<le> n \<and> n < 24" | "24 \<le> n \<and> n < 32" by force
  then show "bit (be_decode (be_encode w @ bs)) n \<longleftrightarrow> bit w n"
    by cases (auto simp: be_decode_def be_encode_def bit_simps)
qed

lemma be_decode_encode' [simp]: "be_decode (be_encode w) = w"
  using be_decode_encode [of w "[]"] by simp

definition frame :: "bytes \<Rightarrow> bytes" where
  "frame m = be_encode (word_of_nat (length m)) @ m"

section \<open>The read loop\<close>

text \<open>
  A \<open>Read\<close> into a buffer of \<open>n\<close> bytes returns what the first segment has, at most
  \<open>n\<close> bytes; no more segments is an error (closed, or the deadline). The loop ignores the count
  and uses the whole buffer, which was made with zeros.
\<close>

fun sock_read :: "nat \<Rightarrow> bytes list \<Rightarrow> (bytes \<times> bytes list) option" where
  "sock_read n [] = None"
| "sock_read n (seg # segs) =
     Some (take n seg, if length seg \<le> n then segs else drop n seg # segs)"

definition fill :: "nat \<Rightarrow> bytes \<Rightarrow> bytes" where
  "fill n bs = bs @ replicate (n - length bs) 0"

datatype serve_end = ReadFailed | InvalidLength u32

definition stream_size :: "bytes list \<Rightarrow> nat" where
  "stream_size segs = sum_list (map (\<lambda>s. Suc (length s)) segs)"

lemma sock_read_size:
  "sock_read n segs = Some (bs, segs') \<Longrightarrow> 0 < n \<Longrightarrow> stream_size segs' < stream_size segs"
  by (cases segs) (auto simp: stream_size_def split: if_splits)

text \<open>
  The handler gets each message and says whether it closed the connection, in which case the next
  read fails.
\<close>

function serve :: "(bytes \<Rightarrow> 'h \<Rightarrow> 'h \<times> bool) \<Rightarrow> bytes list \<Rightarrow> 'h \<Rightarrow> 'h \<times> serve_end" where
  "serve handle segs h =
     (case sock_read 4 segs of
        None \<Rightarrow> (h, ReadFailed)
      | Some (c, segs1) \<Rightarrow>
          (let msgLen = be_decode (fill 4 c) in
           if msgLen = 0 \<or> msgLen > 1024 * 1024 then (h, InvalidLength msgLen)
           else (case sock_read (unat msgLen) segs1 of
                   None \<Rightarrow> (h, ReadFailed)
                 | Some (b, segs2) \<Rightarrow>
                     (let (h', closed) = handle (fill (unat msgLen) b) h
                      in if closed then (h', ReadFailed) else serve handle segs2 h'))))"
  by pat_completeness auto
termination
proof (relation "measure (\<lambda>(handle, segs, h). stream_size segs)", simp)
  fix handle :: "bytes \<Rightarrow> 'h \<Rightarrow> 'h \<times> bool" and segs h x c segs1 msgLen y b segs2 z h' closed
  assume a: "sock_read 4 segs = Some x" "(c, segs1) = x" "msgLen = be_decode (fill 4 c)"
    "\<not> (msgLen = 0 \<or> msgLen > 1024 * 1024)" "sock_read (unat msgLen) segs1 = Some y" "(b, segs2) = y"
  have "0 < unat msgLen" using a(4) by (simp add: unat_gt_0)
  then have "stream_size segs2 < stream_size segs1" using sock_read_size a(5,6) by blast
  moreover have "stream_size segs1 < stream_size segs" using sock_read_size [of 4] a(1,2) by fastforce
  ultimately show "((handle, segs2, h'), (handle, segs, h)) \<in> measure (\<lambda>(handle, segs, h). stream_size segs)"
    by simp
qed

declare serve.simps [simp del]

section \<open>Streams whose segments respect the frames\<close>

definition valid_message :: "bytes \<Rightarrow> bool" where
  "valid_message m \<longleftrightarrow> 1 \<le> length m \<and> length m \<le> 1024 * 1024"

text \<open>The pieces of a stream of messages: prefix, body, prefix, body.\<close>

definition pieces :: "bytes list \<Rightarrow> bytes list" where
  "pieces ms = concat (map (\<lambda>m. [be_encode (word_of_nat (length m)), m]) ms)"

lemma fill_full [simp]: "length bs = n \<Longrightarrow> fill n bs = bs"
  by (simp add: fill_def)

lemma unat_length: "length m \<le> 1024 * 1024 \<Longrightarrow> unat (word_of_nat (length m) :: u32) = length m"
  by (simp add: unsigned_of_nat take_bit_nat_eq_self)

lemma concat_map_concat: "concat (map concat xss) = concat (concat xss)"
  by (induction xss) simp_all

lemma sock_read_piece:
  assumes "concat groups = p # ps" and "[] \<notin> set groups" and "\<forall>q \<in> set (p # ps). q \<noteq> []"
  shows "\<exists>groups'. sock_read (length p) (map concat groups) = Some (p, map concat groups') \<and>
    concat groups' = ps \<and> [] \<notin> set groups'"
proof -
  obtain g gs where g: "groups = g # gs" using assms(1) by (cases groups) auto
  then obtain g' where g': "g = p # g'" "ps = g' @ concat gs"
    using assms(1,2) by (cases g) auto
  have "concat g' = [] \<longleftrightarrow> g' = []" using assms(3) g' by (cases g') auto
  then have "sock_read (length p) (map concat groups) =
    Some (p, map concat (if g' = [] then gs else g' # gs))"
    using g g' by (auto simp: concat_eq_Nil_conv)
  moreover have "concat (if g' = [] then gs else g' # gs) = ps" "[] \<notin> set (if g' = [] then gs else g' # gs)"
    using g g' assms(2) by auto
  ultimately show ?thesis by blast
qed

lemma valid_length_word:
  assumes "valid_message m"
  defines "w \<equiv> word_of_nat (length m) :: u32"
  shows "w \<noteq> 0 \<and> \<not> w > 1024 * 1024 \<and> unat w = length m"
proof -
  have u: "unat w = length m" using assms by (simp add: unat_length valid_message_def)
  then have "w \<noteq> 0" using assms(1) by (auto simp: valid_message_def)
  moreover have "\<not> w > 1024 * 1024" using u assms(1) by (simp add: word_less_nat_alt valid_message_def)
  ultimately show ?thesis using u by simp
qed

text \<open>A handler that keeps the connection open runs over the messages in order.\<close>

lemma serve_aligned:
  assumes "concat groups = pieces ms" and "[] \<notin> set groups" and "\<forall>m \<in> set ms. valid_message m"
    and "\<And>m h. snd (handle m h) = False"
  shows "serve handle (map concat groups) h = (fold (\<lambda>m h. fst (handle m h)) ms h, ReadFailed)"
  using assms(1-3)
proof (induction ms arbitrary: groups h)
  case Nil
  then have "groups = []" by (cases groups) (auto simp: pieces_def)
  then show ?case by (simp add: serve.simps)
next
  case (Cons m ms)
  let ?w = "word_of_nat (length m) :: u32"
  have w: "?w \<noteq> 0" "\<not> ?w > 1024 * 1024" "unat ?w = length m"
    using valid_length_word [of m] Cons.prems(3) by simp_all
  have ne: "\<forall>q \<in> set (pieces (m # ms)). q \<noteq> []"
    using Cons.prems(3) by (auto simp: pieces_def valid_message_def be_encode_def)
  have p: "pieces (m # ms) = be_encode ?w # m # pieces ms" by (simp add: pieces_def)
  have "\<exists>g1. sock_read (length (be_encode ?w)) (map concat groups) = Some (be_encode ?w, map concat g1) \<and>
    concat g1 = m # pieces ms \<and> [] \<notin> set g1"
    by (rule sock_read_piece) (use Cons.prems ne p in auto)
  then obtain g1 where g1: "sock_read 4 (map concat groups) = Some (be_encode ?w, map concat g1)"
    "concat g1 = m # pieces ms" "[] \<notin> set g1" by auto
  have "\<exists>g2. sock_read (length m) (map concat g1) = Some (m, map concat g2) \<and>
    concat g2 = pieces ms \<and> [] \<notin> set g2"
    by (rule sock_read_piece [OF g1(2,3)]) (use ne p in auto)
  then obtain g2 where g2: "sock_read (length m) (map concat g1) = Some (m, map concat g2)"
    "concat g2 = pieces ms" "[] \<notin> set g2" by blast
  obtain h' where h': "handle m h = (h', False)" using assms(4) [of m h] by (metis prod.collapse)
  have "serve handle (map concat groups) h = serve handle (map concat g2) h'"
    using g1(1) g2(1) w h' by (subst serve.simps) (simp add: Let_def)
  also have "\<dots> = (fold (\<lambda>m h. fst (handle m h)) ms h', ReadFailed)"
    by (rule Cons.IH [OF g2(2,3)]) (use Cons.prems(3) in simp)
  finally show ?case using h' by simp
qed

definition collect :: "bytes \<Rightarrow> bytes list \<Rightarrow> bytes list \<times> bool" where
  "collect m ms = (ms @ [m], False)"

lemma fold_collect: "fold (\<lambda>m h. fst (collect m h)) ms acc = acc @ ms"
  by (induction ms arbitrary: acc) (simp_all add: collect_def)

lemma serve_collect_acc:
  "serve collect segs acc = (acc @ fst (serve collect segs []), snd (serve collect segs []))"
proof (induction "stream_size segs" arbitrary: segs acc rule: less_induct)
  case less
  show ?case
  proof (cases "sock_read 4 segs")
    case None
    then show ?thesis by (simp add: serve.simps)
  next
    case (Some x)
    obtain c segs1 where x: "x = (c, segs1)" by fastforce
    let ?w = "be_decode (fill 4 c)"
    have s1: "stream_size segs1 < stream_size segs" using sock_read_size [of 4] Some x by fastforce
    show ?thesis
    proof (cases "?w = 0 \<or> ?w > 1024 * 1024 \<or> sock_read (unat ?w) segs1 = None")
      case True
      have "serve collect segs acc = (acc, if ?w = 0 \<or> ?w > 1024 * 1024 then InvalidLength ?w else ReadFailed)" for acc
        using Some x True by (subst serve.simps) (auto simp: Let_def)
      then show ?thesis by simp
    next
      case False
      then obtain b segs2 where b: "sock_read (unat ?w) segs1 = Some (b, segs2)" by fastforce
      have lt: "stream_size segs2 < stream_size segs"
        using sock_read_size [OF b] False s1 by (simp add: unat_gt_0)
      have "serve collect segs acc = serve collect segs2 (acc @ [fill (unat ?w) b])" for acc
        using Some x b False by (subst serve.simps) (auto simp: Let_def collect_def)
      then show ?thesis using less.hyps [OF lt, of "acc @ [fill (unat ?w) b]"] less.hyps [OF lt, of "[fill (unat ?w) b]"] by simp
    qed
  qed
qed

section \<open>Properties\<close>

text \<open>
  C7. If the segments in which the stream arrives never split a prefix or a body (and are not
  empty), the read loop hands the handler exactly the messages that were framed, in order,
  however the frames are grouped into segments, and ends when the stream does. Messages have 1
  to 1 MiB bytes.
\<close>

theorem framing_roundtrip:
  assumes "\<forall>m \<in> set ms. valid_message m" and "concat groups = pieces ms" and "[] \<notin> set groups"
  shows "serve collect (map concat groups) [] = (ms, ReadFailed) \<and>
    concat (map concat groups) = concat (map frame ms)"
proof -
  have "serve collect (map concat groups) [] = (fold (\<lambda>m h. fst (collect m h)) ms [], ReadFailed)"
    by (rule serve_aligned [OF assms(2,3,1)]) (simp add: collect_def)
  moreover have "concat (pieces ms) = concat (map frame ms)"
    by (induction ms) (simp_all add: pieces_def frame_def)
  moreover have "concat (map concat groups) = concat (pieces ms)" using assms(2) by (metis concat_map_concat)
  ultimately show ?thesis by (simp add: fold_collect)
qed

theorem framing_roundtrip_witness:
  "serve collect [frame [1, 2] @ frame [3], frame [4]] [] = ([[1, 2], [3], [4]], ReadFailed)"
proof -
  let ?g = "[pieces [[1, 2], [3]], pieces [[4]]]"
  have "serve collect (map concat ?g) [] = ([[1, 2], [3], [4]], ReadFailed) \<and>
    concat (map concat ?g) = concat (map frame [[1, 2], [3], [4]])"
    by (rule framing_roundtrip) (simp_all add: pieces_def valid_message_def)
  then show ?thesis by (simp add: pieces_def frame_def)
qed

text \<open>
  C34. The loop calls Read once per prefix and per body and ignores how many bytes came. When a
  body arrives in two segments, the handler gets the first part padded with zero bytes, which
  is not the message sent unless the second part is all zeros, and, if the handler does not
  close, the loop goes on with any handler exactly as on a stream that begins with the second
  segment: its first four bytes are read as a prefix, and the loop ends there if they are no
  valid length.
\<close>

theorem short_read_corrupts:
  assumes "valid_message (a @ b)" and "a \<noteq> []" and "b \<noteq> []"
  shows "let w = word_of_nat (length (a @ b)); segs = (be_encode w @ a) # b # rest; m = a @ replicate (length b) 0 in
    serve handle segs h = (let (h', closed) = handle m h in if closed then (h', ReadFailed) else serve handle (b # rest) h') \<and>
    serve collect segs [] = (m # fst (serve collect (b # rest) []), snd (serve collect (b # rest) [])) \<and>
    (b \<noteq> replicate (length b) 0 \<longrightarrow> m \<noteq> a @ b) \<and>
    (let next_len = be_decode (fill 4 (take 4 b)) in
     next_len = 0 \<or> next_len > 1024 * 1024 \<longrightarrow> serve collect segs [] = ([m], InvalidLength next_len))"
proof -
  let ?w = "word_of_nat (length (a @ b)) :: u32" and ?m = "a @ replicate (length b) 0"
  let ?segs = "(be_encode ?w @ a) # b # rest" and ?l = "be_decode (fill 4 (take 4 b))"
  have w: "?w \<noteq> 0" "\<not> ?w > 1024 * 1024" "unat ?w = length a + length b"
    using valid_length_word [OF assms(1)] by simp_all
  have step: "serve handle ?segs h =
      (let (h', closed) = handle ?m h in if closed then (h', ReadFailed) else serve handle (b # rest) h')" for handle h
    using assms(2,3) w by (subst serve.simps) (simp add: Let_def fill_def)
  have c: "serve collect ?segs [] = serve collect (b # rest) [?m]" unfolding step by (simp add: collect_def)
  also have "\<dots> = (?m # fst (serve collect (b # rest) []), snd (serve collect (b # rest) []))"
    by (subst serve_collect_acc) simp
  finally have e: "serve collect ?segs [] = (?m # fst (serve collect (b # rest) []), snd (serve collect (b # rest) []))" .
  have "serve collect (b # rest) [?m] = ([?m], InvalidLength ?l)" if "?l = 0 \<or> ?l > 1024 * 1024"
    using that by (subst serve.simps) (auto simp: Let_def)
  then have "?l = 0 \<or> ?l > 1024 * 1024 \<longrightarrow> serve collect ?segs [] = ([?m], InvalidLength ?l)" using c by simp
  moreover have "b \<noteq> replicate (length b) 0 \<longrightarrow> ?m \<noteq> a @ b" by auto
  ultimately show ?thesis using step [of handle h] e unfolding Let_def by blast
qed

text \<open>Three bytes in two segments: the rest is taken for the length 0x08090000, and the connection is closed.\<close>

theorem short_read_corrupts_witness:
  "serve collect [be_encode 3 @ [7], [8, 9]] [] = ([[7, 0, 0]], InvalidLength 0x08090000)"
proof -
  let ?a = "[7 :: u8]" and ?b = "[8, 9 :: u8]"
  have l: "be_decode (fill 4 (take 4 ?b)) = 0x08090000" by code_simp
  have v: "valid_message (?a @ ?b)" by (simp add: valid_message_def)
  note c = short_read_corrupts [OF v, of "[]" collect "[]", unfolded Let_def l]
  show ?thesis using c [THEN conjunct2, THEN conjunct2, THEN conjunct2] by simp
qed

end
