(* ===== verification/Network.thy ===== *)
theory Network
  imports MessagePools RateLimit Framing
begin

text \<open>
  The TCP server of \<open>internal/network\<close>: the connection object, its pool, the accept loop, the
  clean-up of a handler goroutine, the heartbeat, and the sending operations. Sockets are Go's
  \<open>net.Conn\<close>: a stream of incoming segments, the writes so far, and whether they are open.
\<close>

section \<open>Sockets\<close>

record socket =
  sk_open :: bool
  sk_in :: "bytes list"
  sk_out :: "bytes list"

type_synonym sockets = "nat \<Rightarrow> socket"

definition sock_close :: "nat \<Rightarrow> sockets \<Rightarrow> sockets" where
  "sock_close s socks = socks(s := (socks s)\<lparr>sk_open := False\<rparr>)"

datatype net_error = ConnectionClosed | SocketError | UserNotConnected u64 | ListenFailed

section \<open>Connections\<close>

text \<open>\<open>Connection\<close>: the two unused buffers and the write mutex are left out.\<close>

record connection =
  cn_ID :: u64
  cn_Conn :: "nat option"
  cn_UserID :: u64
  cn_SessionID :: string
  cn_LastActivity :: time
  cn_closed :: bool

definition empty_connection :: connection where
  "empty_connection = \<lparr>cn_ID = 0, cn_Conn = None, cn_UserID = 0, cn_SessionID = '''',
     cn_LastActivity = zero_time, cn_closed = False\<rparr>"

definition NewConnection :: "time \<Rightarrow> u64 \<Rightarrow> nat \<Rightarrow> connection" where
  "NewConnection now i s = empty_connection\<lparr>cn_ID := i, cn_Conn := Some s, cn_LastActivity := now\<rparr>"

text \<open>
  \<open>fails\<close>: whether the socket's own write fails (peer gone, deadline passed). A nil \<open>Conn\<close>
  panics.
\<close>

definition conn_Write ::
  "time \<Rightarrow> bool \<Rightarrow> bytes \<Rightarrow> connection \<Rightarrow> sockets \<Rightarrow> (net_error option \<times> connection \<times> sockets) outcome" where
  "conn_Write now fails data c socks =
     (if cn_closed c then Ret (Some ConnectionClosed, c, socks)
      else (let c' = c\<lparr>cn_LastActivity := now\<rparr> in
            case cn_Conn c of
              None \<Rightarrow> Panic NilDereference
            | Some s \<Rightarrow>
                if fails \<or> \<not> sk_open (socks s) then Ret (Some SocketError, c', socks)
                else Ret (None, c', socks(s := (socks s)\<lparr>sk_out := sk_out (socks s) @ [data]\<rparr>))))"

definition conn_Read ::
  "time \<Rightarrow> nat \<Rightarrow> connection \<Rightarrow> sockets \<Rightarrow> ((net_error + bytes) \<times> connection \<times> sockets) outcome" where
  "conn_Read now n c socks =
     (if cn_closed c then Ret (Inl ConnectionClosed, c, socks)
      else (let c' = c\<lparr>cn_LastActivity := now\<rparr> in
            case cn_Conn c of
              None \<Rightarrow> Panic NilDereference
            | Some s \<Rightarrow>
                (case (if sk_open (socks s) then sock_read n (sk_in (socks s)) else None) of
                   None \<Rightarrow> Ret (Inl SocketError, c', socks)
                 | Some (bs, segs) \<Rightarrow> Ret (Inr bs, c', socks(s := (socks s)\<lparr>sk_in := segs\<rparr>)))))"

definition conn_Close :: "connection \<Rightarrow> sockets \<Rightarrow> (net_error option \<times> sockets) outcome" where
  "conn_Close c socks =
     (if cn_closed c then Ret (None, socks)
      else (case cn_Conn c of
              None \<Rightarrow> Panic NilDereference
            | Some s \<Rightarrow> Ret (if sk_open (socks s) then None else Some SocketError, sock_close s socks)))"

definition IsClosed :: "connection \<Rightarrow> bool" where
  "IsClosed c = cn_closed c"

definition conn_Reset :: "connection \<Rightarrow> connection" where
  "conn_Reset c = c\<lparr>cn_UserID := 0, cn_SessionID := '''', cn_LastActivity := zero_time, cn_closed := False\<rparr>"

section \<open>The server\<close>

text \<open>
  Connection objects live on a heap, addressed by position. The map of connections is an
  association list in the order \<open>Range\<close> visits it. \<open>ts_leaving\<close> holds the objects whose
  handler has removed them from the map and not yet returned them to the pool.
\<close>

type_synonym conn_heap = "connection list"

record 'b tcp_server =
  ts_conns :: "(u64 \<times> nat) list"
  ts_counter :: u64
  ts_maxConns :: int
  ts_pool :: "(nat, conn_heap) generic_pool"
  ts_running :: bool
  ts_listening :: bool
  ts_limiter :: "'b limit_manager"
  ts_heap :: conn_heap
  ts_socks :: sockets
  ts_leaving :: "nat list"

definition conn_factory :: "conn_heap \<Rightarrow> nat \<times> conn_heap" where
  "conn_factory h = (length h, h @ [empty_connection])"

definition reset_object :: "nat \<Rightarrow> conn_heap \<Rightarrow> nat \<times> conn_heap" where
  "reset_object a h = (a, h[a := conn_Reset (h ! a)])"

definition NewTCPServer :: "int \<Rightarrow> 'b limit_manager \<Rightarrow> sockets \<Rightarrow> conn_heap \<Rightarrow> 'b tcp_server outcome" where
  "NewTCPServer maxConns limiter socks h =
     (case NewConnectionPool (Some reset_object) maxConns conn_factory of
        Ret p \<Rightarrow> Ret \<lparr>ts_conns = [], ts_counter = 0, ts_maxConns = maxConns, ts_pool = p,
          ts_running = False, ts_listening = False, ts_limiter = limiter, ts_heap = h,
          ts_socks = socks, ts_leaving = []\<rparr>
      | Panic e \<Rightarrow> Panic e
      | Blocked \<Rightarrow> Blocked)"

definition server_Start :: "bool \<Rightarrow> 'b tcp_server \<Rightarrow> net_error option \<times> 'b tcp_server" where
  "server_Start listen_ok sv =
     (if \<not> listen_ok then (Some ListenFailed, sv)
      else (None, sv\<lparr>ts_listening := True, ts_running := True\<rparr>))"

definition GetConnectionCount :: "'b tcp_server \<Rightarrow> int" where
  "GetConnectionCount sv = int (length (ts_conns sv))"

definition close_socket :: "nat \<Rightarrow> 'b tcp_server \<Rightarrow> 'b tcp_server" where
  "close_socket s sv = sv\<lparr>ts_socks := sock_close s (ts_socks sv)\<rparr>"

text \<open>
  One round of the accept loop. \<open>Accept\<close> fails, or yields a socket and what \<open>SplitHostPort\<close>
  makes of its remote address. The error is looked at only after the nil connection has been used.
\<close>

datatype accepted = AcceptFailed | Accepted nat "string option"

text \<open>A closed listener answers with an error, whoever would have come; \<open>RemoteAddr\<close> needs a connection.\<close>

definition listener_Accept :: "accepted \<Rightarrow> 'b tcp_server \<Rightarrow> accepted" where
  "listener_Accept incoming sv = (if ts_listening sv then incoming else AcceptFailed)"

fun remote_addr :: "accepted \<Rightarrow> (nat \<times> string option) outcome" where
  "remote_addr AcceptFailed = Panic NilDereference"
| "remote_addr (Accepted s clientIP) = Ret (s, clientIP)"

definition admit :: "'b bucket_lib \<Rightarrow> (nat \<Rightarrow> time) \<Rightarrow> string option \<Rightarrow> 'b tcp_server \<Rightarrow> bool \<times> 'b tcp_server" where
  "admit bl now clientIP sv =
     (case clientIP of
        None \<Rightarrow> (True, sv)
      | Some ip \<Rightarrow>
          (let (ok, lm) = CheckLimit bl now (''conn'' @ ip) 5 5 (ts_limiter sv)
           in (ok, sv\<lparr>ts_limiter := lm\<rparr>)))"

text \<open>
  Registering does not say which object the pool hands out while it waits: a handler that returns its
  object during the wait is the step \<open>give_back\<close> below before this round (lemma
  \<open>handed_over\<close>).
\<close>

definition store_conn :: "u64 \<Rightarrow> nat \<Rightarrow> (u64 \<times> nat) list \<Rightarrow> (u64 \<times> nat) list" where
  "store_conn i a conns = filter (\<lambda>e. fst e \<noteq> i) conns @ [(i, a)]"

definition register_conn :: "time \<Rightarrow> nat \<Rightarrow> 'b tcp_server \<Rightarrow> 'b tcp_server" where
  "register_conn now s sv =
     (let connID = ts_counter sv + 1;
          (a, p, h) = GetConnection None (ts_pool sv) (ts_heap sv);
          h1 = h[a := (conn_Reset (h ! a))\<lparr>cn_ID := connID, cn_Conn := Some s, cn_LastActivity := now\<rparr>]
      in sv\<lparr>ts_counter := connID, ts_pool := p, ts_heap := h1,
            ts_conns := store_conn connID a (ts_conns sv)\<rparr>)"

definition accept_step ::
  "'b bucket_lib \<Rightarrow> (nat \<Rightarrow> time) \<Rightarrow> accepted \<Rightarrow> 'b tcp_server \<Rightarrow> 'b tcp_server outcome" where
  "accept_step bl now res sv =
     obind (remote_addr res) (\<lambda>(s, clientIP).
       let (ok, sv1) = admit bl now clientIP sv in
       if \<not> ok then Ret (close_socket s sv1)
       else if GetConnectionCount sv1 \<ge> ts_maxConns sv1 then Ret (close_socket s sv1)
       else Ret (register_conn (now 3) s sv1))"

definition acceptLoop_round ::
  "'b bucket_lib \<Rightarrow> (nat \<Rightarrow> time) \<Rightarrow> accepted \<Rightarrow> 'b tcp_server \<Rightarrow> 'b tcp_server outcome" where
  "acceptLoop_round bl now res sv = (if ts_running sv then accept_step bl now res sv else Ret sv)"

text \<open>
  The deferred function of \<open>handleConnection\<close>: close and delete, then return the object.
\<close>

definition leave_step :: "nat \<Rightarrow> 'b tcp_server \<Rightarrow> 'b tcp_server outcome" where
  "leave_step a sv =
     (case conn_Close (ts_heap sv ! a) (ts_socks sv) of
        Ret (err, socks) \<Rightarrow>
          Ret (sv\<lparr>ts_socks := socks,
                  ts_conns := filter (\<lambda>e. fst e \<noteq> cn_ID (ts_heap sv ! a)) (ts_conns sv),
                  ts_leaving := a # ts_leaving sv\<rparr>)
      | Panic e \<Rightarrow> Panic e
      | Blocked \<Rightarrow> Blocked)"

definition return_step :: "nat \<Rightarrow> 'b tcp_server \<Rightarrow> 'b tcp_server" where
  "return_step a sv =
     (let (p, h) = PutConnection (Some a) (ts_pool sv) (ts_heap sv)
      in sv\<lparr>ts_pool := p, ts_heap := h, ts_leaving := removeAll a (ts_leaving sv)\<rparr>)"

section \<open>Heartbeat, lookups and sending\<close>

text \<open>Closing a list of connections, as the heartbeat, \<open>Stop\<close> and their callers do.\<close>

fun close_all :: "nat list \<Rightarrow> 'b tcp_server \<Rightarrow> 'b tcp_server outcome" where
  "close_all [] sv = Ret sv"
| "close_all (a # as) sv =
     (case conn_Close (ts_heap sv ! a) (ts_socks sv) of
        Ret (err, socks) \<Rightarrow> close_all as (sv\<lparr>ts_socks := socks\<rparr>)
      | Panic e \<Rightarrow> Panic e
      | Blocked \<Rightarrow> Blocked)"

definition expired :: "time \<Rightarrow> 'b tcp_server \<Rightarrow> u64 \<times> nat \<Rightarrow> bool" where
  "expired now sv e \<longleftrightarrow> time_sub now (cn_LastActivity (ts_heap sv ! snd e)) > 60 * second"

definition heartbeat_tick :: "time \<Rightarrow> 'b tcp_server \<Rightarrow> 'b tcp_server outcome" where
  "heartbeat_tick now sv =
     (let expiredConns = map fst (filter (expired now sv) (ts_conns sv))
      in close_all (List.map_filter (map_of (ts_conns sv)) expiredConns) sv)"

definition heartbeatLoop :: "time loop_event list \<Rightarrow> 'b tcp_server \<Rightarrow> 'b tcp_server loop_result" where
  "heartbeatLoop = ticker_loop heartbeat_tick"

definition server_GetConnection :: "u64 \<Rightarrow> 'b tcp_server \<Rightarrow> nat option" where
  "server_GetConnection connID sv = map_of (ts_conns sv) connID"

definition GetConnectionByUserID :: "u64 \<Rightarrow> 'b tcp_server \<Rightarrow> nat option" where
  "GetConnectionByUserID userID sv =
     map_option snd (List.find (\<lambda>e. cn_UserID (ts_heap sv ! snd e) = userID) (ts_conns sv))"

definition write_to :: "time \<Rightarrow> bool \<Rightarrow> bytes \<Rightarrow> nat \<Rightarrow> 'b tcp_server \<Rightarrow> (net_error option \<times> 'b tcp_server) outcome" where
  "write_to now fails data a sv =
     (case conn_Write now fails data (ts_heap sv ! a) (ts_socks sv) of
        Ret (err, c, socks) \<Rightarrow> Ret (err, sv\<lparr>ts_heap := (ts_heap sv)[a := c], ts_socks := socks\<rparr>)
      | Panic e \<Rightarrow> Panic e
      | Blocked \<Rightarrow> Blocked)"

definition SendToUser :: "time \<Rightarrow> bool \<Rightarrow> u64 \<Rightarrow> bytes \<Rightarrow> 'b tcp_server \<Rightarrow> (net_error option \<times> 'b tcp_server) outcome" where
  "SendToUser now fails userID data sv =
     (case GetConnectionByUserID userID sv of
        None \<Rightarrow> Ret (Some (UserNotConnected userID), sv)
      | Some a \<Rightarrow> write_to now fails data a sv)"

text \<open>The goroutines of a broadcast, in the order they happen to run; errors are only logged.\<close>

fun write_all :: "time \<Rightarrow> (nat \<Rightarrow> bool) \<Rightarrow> bytes \<Rightarrow> nat list \<Rightarrow> 'b tcp_server \<Rightarrow> 'b tcp_server outcome" where
  "write_all now fails data [] sv = Ret sv"
| "write_all now fails data (a # as) sv =
     (case write_to now (fails a) data a sv of
        Ret (err, sv') \<Rightarrow> write_all now fails data as sv'
      | Panic e \<Rightarrow> Panic e
      | Blocked \<Rightarrow> Blocked)"

definition Broadcast :: "time \<Rightarrow> (nat \<Rightarrow> bool) \<Rightarrow> bytes \<Rightarrow> 'b tcp_server \<Rightarrow> 'b tcp_server outcome" where
  "Broadcast now fails data sv =
     write_all now fails data (filter (\<lambda>a. \<not> IsClosed (ts_heap sv ! a)) (map snd (ts_conns sv))) sv"

text \<open>\<open>Stop\<close> up to the wait for the goroutines.\<close>

definition server_Stop :: "'b tcp_server \<Rightarrow> 'b tcp_server outcome" where
  "server_Stop sv =
     (if \<not> ts_running sv then Ret sv
      else close_all (map snd (ts_conns sv)) (sv\<lparr>ts_running := False, ts_listening := False\<rparr>))"

text \<open>
  The wait. An accept loop that stands in \<open>Accept\<close>, with \<open>incoming\<close> the next to come, gets the
  answer of the listener and goes on with it; the panic of a goroutine ends the process. One that is
  between two calls (\<open>None\<close>) finds \<open>running\<close> unset and ends.
\<close>

definition Stop_and_wait :: "accepted option \<Rightarrow> 'b tcp_server \<Rightarrow> 'b tcp_server outcome" where
  "Stop_and_wait in_accept sv =
     obind (server_Stop sv) (\<lambda>sv1.
       case in_accept of
         Some incoming \<Rightarrow>
           if ts_running sv then obind (remote_addr (listener_Accept incoming sv1)) (\<lambda>_. Ret sv1) else Ret sv1
       | None \<Rightarrow> Ret sv1)"

lemmas server_defs = accept_step_def acceptLoop_round_def leave_step_def return_step_def
  heartbeat_tick_def write_to_def SendToUser_def Broadcast_def server_Stop_def

section \<open>Runs of the server\<close>

text \<open>
  Between two rounds of the accept loop the handlers, the heartbeat and the senders make their
  steps. \<open>Accept\<close> yields sockets that no connection has had; a sender may hold an object that
  has left in the meantime. The relation covers the first \<open>2 ^ 64 - 1\<close> connections.
\<close>

definition read_from :: "time \<Rightarrow> nat \<Rightarrow> nat \<Rightarrow> 'b tcp_server \<Rightarrow> ((net_error + bytes) \<times> 'b tcp_server) outcome" where
  "read_from now n a sv =
     (case conn_Read now n (ts_heap sv ! a) (ts_socks sv) of
        Ret (r, c, socks) \<Rightarrow> Ret (r, sv\<lparr>ts_heap := (ts_heap sv)[a := c], ts_socks := socks\<rparr>)
      | Panic e \<Rightarrow> Panic e
      | Blocked \<Rightarrow> Blocked)"

definition bind_user :: "nat \<Rightarrow> u64 \<Rightarrow> string \<Rightarrow> 'b tcp_server \<Rightarrow> 'b tcp_server" where
  "bind_user a u sid sv = sv\<lparr>ts_heap := (ts_heap sv)[a := (ts_heap sv ! a)\<lparr>cn_UserID := u, cn_SessionID := sid\<rparr>]\<rparr>"

inductive server_step :: "'b bucket_lib \<Rightarrow> 'b tcp_server \<Rightarrow> 'b tcp_server \<Rightarrow> bool" for bl where
  accept: "Some s \<notin> set (map cn_Conn (ts_heap sv)) \<Longrightarrow> ts_counter sv \<noteq> - 1 \<Longrightarrow>
    acceptLoop_round bl now (Accepted s ip) sv = Ret sv' \<Longrightarrow> server_step bl sv sv'"
| leave_c: "a \<in> set (map snd (ts_conns sv)) \<Longrightarrow> leave_step a sv = Ret sv' \<Longrightarrow> server_step bl sv sv'"
| give_back: "a \<in> set (ts_leaving sv) \<Longrightarrow> server_step bl sv (return_step a sv)"
| read_s: "a \<in> set (map snd (ts_conns sv)) \<Longrightarrow> read_from now n a sv = Ret (r, sv') \<Longrightarrow> server_step bl sv sv'"
| bind_u: "a \<in> set (map snd (ts_conns sv)) \<Longrightarrow> server_step bl sv (bind_user a u sid sv)"
| write_s: "a < length (ts_heap sv) \<Longrightarrow> write_to now fails data a sv = Ret (e, sv') \<Longrightarrow> server_step bl sv sv'"
| heartbeat: "heartbeat_tick now sv = Ret sv' \<Longrightarrow> server_step bl sv sv'"

inductive server_run :: "'b bucket_lib \<Rightarrow> 'b tcp_server \<Rightarrow> 'b tcp_server \<Rightarrow> bool" for bl where
  run_start: "server_run bl sv sv"
| run_more: "server_run bl sv sv1 \<Longrightarrow> server_step bl sv1 sv2 \<Longrightarrow> server_run bl sv sv2"

text \<open>
  The invariant: no object is in two places, the map's keys are the ids of its objects and are
  not above the counter, live connections have sockets of their own, no object has its closed
  flag set, and the limit on connections is kept.
\<close>

definition server_inv :: "'b tcp_server \<Rightarrow> bool" where
  "server_inv sv \<longleftrightarrow>
     distinct (map snd (ts_conns sv) @ ts_leaving sv @ gp_free (ts_pool sv)) \<and>
     (\<forall>a \<in> set (map snd (ts_conns sv) @ ts_leaving sv @ gp_free (ts_pool sv)). a < length (ts_heap sv)) \<and>
     distinct (map fst (ts_conns sv)) \<and>
     (\<forall>(i, a) \<in> set (ts_conns sv). cn_ID (ts_heap sv ! a) = i \<and> i \<le> ts_counter sv \<and> cn_Conn (ts_heap sv ! a) \<noteq> None) \<and>
     distinct (map (\<lambda>e. cn_Conn (ts_heap sv ! snd e)) (ts_conns sv)) \<and>
     (\<forall>c \<in> set (ts_heap sv). \<not> cn_closed c) \<and>
     GetConnectionCount sv \<le> ts_maxConns sv \<and>
     gp_factory (ts_pool sv) = conn_factory \<and> gp_maxSize (ts_pool sv) = ts_maxConns sv \<and>
     gp_reset (ts_pool sv) = Some reset_object"

lemma NewTCPServer_inv:
  assumes "NewTCPServer n limiter socks h = Ret sv" and "\<forall>c \<in> set h. \<not> cn_closed c"
  shows "server_inv sv"
  using assms by (auto simp: NewTCPServer_def NewConnectionPool_def NewGenericPool_def server_inv_def
      GetConnectionCount_def split: if_splits)

lemma server_inv_addr:
  assumes "server_inv sv" and "a \<in> set (map snd (ts_conns sv)) \<or> a \<in> set (ts_leaving sv) \<or> a \<in> set (gp_free (ts_pool sv))"
  shows "a < length (ts_heap sv)"
proof -
  have "\<forall>a \<in> set (map snd (ts_conns sv) @ ts_leaving sv @ gp_free (ts_pool sv)). a < length (ts_heap sv)"
    using assms(1) unfolding server_inv_def by (elim conjE)
  then show ?thesis using assms(2) by (metis Un_iff set_append)
qed

lemma server_inv_entry:
  assumes "server_inv sv" and "(i, a) \<in> set (ts_conns sv)"
  shows "a < length (ts_heap sv) \<and> cn_ID (ts_heap sv ! a) = i \<and> i \<le> ts_counter sv \<and> cn_Conn (ts_heap sv ! a) \<noteq> None"
proof -
  have "\<forall>(i, a) \<in> set (ts_conns sv). cn_ID (ts_heap sv ! a) = i \<and> i \<le> ts_counter sv \<and> cn_Conn (ts_heap sv ! a) \<noteq> None"
    using assms(1) unfolding server_inv_def by (elim conjE)
  moreover have "a \<in> set (map snd (ts_conns sv))" using assms(2) by force
  ultimately show ?thesis using assms(2) server_inv_addr [OF assms(1)] by blast
qed

lemma server_inv_open: "server_inv sv \<Longrightarrow> a < length (ts_heap sv) \<Longrightarrow> \<not> cn_closed (ts_heap sv ! a)"
  unfolding server_inv_def by (elim conjE) (metis nth_mem)

text \<open>Steps that change only sockets and the activity or the user of one object.\<close>

definition same_shape :: "connection \<Rightarrow> connection \<Rightarrow> bool" where
  "same_shape c c' \<longleftrightarrow> cn_ID c' = cn_ID c \<and> cn_Conn c' = cn_Conn c \<and> cn_closed c' = cn_closed c"

lemma server_inv_cong:
  assumes "server_inv sv" and "list_all2 same_shape (ts_heap sv) (ts_heap sv')"
    and "ts_conns sv' = ts_conns sv" "ts_leaving sv' = ts_leaving sv" "ts_pool sv' = ts_pool sv"
    "ts_counter sv' = ts_counter sv" "ts_maxConns sv' = ts_maxConns sv"
  shows "server_inv sv'"
proof -
  have len: "length (ts_heap sv') = length (ts_heap sv)" using assms(2) by (simp add: list_all2_lengthD)
  have nth: "same_shape (ts_heap sv ! a) (ts_heap sv' ! a)" if "a < length (ts_heap sv)" for a
    using assms(2) that by (rule list_all2_nthD)
  have sh: "same_shape (ts_heap sv ! snd e) (ts_heap sv' ! snd e)" if "e \<in> set (ts_conns sv)" for e
    using nth server_inv_entry [OF assms(1)] that by (metis prod.collapse)
  have "map (\<lambda>e. cn_Conn (ts_heap sv' ! snd e)) (ts_conns sv) = map (\<lambda>e. cn_Conn (ts_heap sv ! snd e)) (ts_conns sv)"
    using sh by (simp add: same_shape_def)
  then have "distinct (map (\<lambda>e. cn_Conn (ts_heap sv' ! snd e)) (ts_conns sv))"
    using assms(1) unfolding server_inv_def by metis
  moreover have "\<forall>c \<in> set (ts_heap sv'). \<not> cn_closed c"
  proof
    fix c assume "c \<in> set (ts_heap sv')"
    then obtain a where a: "a < length (ts_heap sv)" "c = ts_heap sv' ! a" using len by (auto simp: in_set_conv_nth)
    show "\<not> cn_closed c" using server_inv_open [OF assms(1) a(1)] nth [OF a(1)] a(2) by (simp add: same_shape_def)
  qed
  moreover have "\<forall>(i, a) \<in> set (ts_conns sv). cn_ID (ts_heap sv' ! a) = i \<and> i \<le> ts_counter sv \<and> cn_Conn (ts_heap sv' ! a) \<noteq> None"
  proof clarify
    fix i a assume "(i, a) \<in> set (ts_conns sv)"
    from server_inv_entry [OF assms(1) this] sh [OF this]
    show "cn_ID (ts_heap sv' ! a) = i \<and> i \<le> ts_counter sv \<and> cn_Conn (ts_heap sv' ! a) \<noteq> None"
      by (simp add: same_shape_def)
  qed
  ultimately show ?thesis using assms(1)
    unfolding server_inv_def GetConnectionCount_def assms(3-7) len by (elim conjE) (intro conjI; assumption)
qed

lemma same_shape_refl [simp]: "same_shape c c" by (simp add: same_shape_def)

lemma same_shape_update: "same_shape (h ! a) c \<Longrightarrow> list_all2 same_shape h (h[a := c])"
  by (cases "a < length h") (simp_all add: list_all2_conv_all_nth nth_list_update)

lemma write_to_shape:
  assumes "write_to now fails data a sv = Ret (e, sv')"
  shows "list_all2 same_shape (ts_heap sv) (ts_heap sv') \<and> ts_conns sv' = ts_conns sv \<and>
    ts_leaving sv' = ts_leaving sv \<and> ts_pool sv' = ts_pool sv \<and> ts_counter sv' = ts_counter sv \<and>
    ts_maxConns sv' = ts_maxConns sv"
  using assms
  by (auto simp: write_to_def conn_Write_def Let_def same_shape_def list_all2_refl
      intro!: same_shape_update split: outcome.splits option.splits if_splits)

lemma read_from_shape:
  assumes "read_from now n a sv = Ret (r, sv')"
  shows "list_all2 same_shape (ts_heap sv) (ts_heap sv') \<and> ts_conns sv' = ts_conns sv \<and>
    ts_leaving sv' = ts_leaving sv \<and> ts_pool sv' = ts_pool sv \<and> ts_counter sv' = ts_counter sv \<and>
    ts_maxConns sv' = ts_maxConns sv"
  using assms
  by (auto simp: read_from_def conn_Read_def Let_def same_shape_def list_all2_refl
      intro!: same_shape_update split: outcome.splits option.splits if_splits)

text \<open>Closing changes sockets only.\<close>

lemma close_all_frame:
  "close_all as sv = Ret sv' \<Longrightarrow> \<exists>socks. sv' = sv\<lparr>ts_socks := socks\<rparr>"
proof (induction as arbitrary: sv)
  case Nil
  then have "sv' = sv\<lparr>ts_socks := ts_socks sv\<rparr>" by simp
  then show ?case by blast
next
  case (Cons a as)
  then obtain err socks where "close_all as (sv\<lparr>ts_socks := socks\<rparr>) = Ret sv'"
    by (auto split: outcome.splits)
  from Cons.IH [OF this] show ?case by auto
qed

lemma server_inv_close_all:
  assumes "server_inv sv" and "close_all as sv = Ret sv'"
  shows "server_inv sv'"
proof -
  obtain socks where "sv' = sv\<lparr>ts_socks := socks\<rparr>" using close_all_frame [OF assms(2)] by blast
  then show ?thesis by (intro server_inv_cong [OF assms(1)]) (simp_all add: list_all2_refl)
qed

lemma entry_unique:
  assumes "distinct (map snd xs)" and "(i, a) \<in> set xs" and "(j, a) \<in> set xs"
  shows "i = j"
  using assms by (metis distinct_map inj_on_def prod.inject snd_conv)

lemma leave_step_inv:
  assumes inv: "server_inv sv" and a: "a \<in> set (map snd (ts_conns sv))" and l: "leave_step a sv = Ret sv'"
  shows "server_inv sv' \<and> a \<in> set (ts_leaving sv') \<and> a \<notin> set (map snd (ts_conns sv'))"
proof -
  obtain i where i: "(i, a) \<in> set (ts_conns sv)" using a by auto
  note e = server_inv_entry [OF inv i]
  let ?cs = "filter (\<lambda>e. fst e \<noteq> i) (ts_conns sv)"
  obtain socks where sv': "sv' = sv\<lparr>ts_socks := socks, ts_conns := ?cs, ts_leaving := a # ts_leaving sv\<rparr>"
    using l e by (auto simp: leave_step_def split: outcome.splits)
  note I = inv [unfolded server_inv_def GetConnectionCount_def]
  have d: "distinct (map snd (ts_conns sv) @ ts_leaving sv @ gp_free (ts_pool sv))"
    and r: "\<forall>a \<in> set (map snd (ts_conns sv) @ ts_leaving sv @ gp_free (ts_pool sv)). a < length (ts_heap sv)"
    using I by blast+
  have out: "a \<notin> set (map snd ?cs)" using entry_unique [OF _ i] d by auto
  have sub: "set (map snd ?cs) \<subseteq> set (map snd (ts_conns sv))" by auto
  have d1: "distinct (map snd ?cs @ (a # ts_leaving sv) @ gp_free (ts_pool sv))"
  proof -
    have "distinct (map snd ?cs)" using d by (simp add: distinct_map_filter)
    moreover have "a \<notin> set (ts_leaving sv)" "a \<notin> set (gp_free (ts_pool sv))" using d a by auto
    moreover have "distinct (ts_leaving sv @ gp_free (ts_pool sv))"
      "set (map snd (ts_conns sv)) \<inter> set (ts_leaving sv @ gp_free (ts_pool sv)) = {}"
      using d by (simp_all only: distinct_append)
    ultimately show ?thesis using out sub unfolding distinct_append by auto
  qed
  moreover have "\<forall>x \<in> set (map snd ?cs @ (a # ts_leaving sv) @ gp_free (ts_pool sv)). x < length (ts_heap sv)"
  proof -
    have "set (map snd ?cs @ (a # ts_leaving sv) @ gp_free (ts_pool sv)) \<subseteq>
      set (map snd (ts_conns sv) @ ts_leaving sv @ gp_free (ts_pool sv))" using a by auto
    with r show ?thesis by blast
  qed
  moreover have "distinct (map fst ?cs)"
    using I by (elim conjE) (rule distinct_map_filter)
  moreover have "\<forall>(i, a) \<in> set ?cs. cn_ID (ts_heap sv ! a) = i \<and> i \<le> ts_counter sv \<and> cn_Conn (ts_heap sv ! a) \<noteq> None"
    using server_inv_entry [OF inv] by auto
  moreover have "distinct (map (\<lambda>e. cn_Conn (ts_heap sv ! snd e)) ?cs)"
    using I by (elim conjE) (rule distinct_map_filter)
  moreover have "int (length ?cs) \<le> ts_maxConns sv"
    using I length_filter_le [of "\<lambda>e. fst e \<noteq> i" "ts_conns sv"] by linarith
  moreover have f: "ts_conns sv' = ?cs" "ts_leaving sv' = a # ts_leaving sv" "ts_pool sv' = ts_pool sv"
    "ts_heap sv' = ts_heap sv" "ts_counter sv' = ts_counter sv" "ts_maxConns sv' = ts_maxConns sv"
    by (simp_all add: sv')
  ultimately have "server_inv sv'" using I unfolding server_inv_def GetConnectionCount_def f
    by (elim conjE) (intro conjI; assumption)
  then show ?thesis using out by (simp add: sv')
qed

lemma return_step_inv:
  assumes inv: "server_inv sv" and a: "a \<in> set (ts_leaving sv)"
  shows "server_inv (return_step a sv)"
proof -
  note I = inv [unfolded server_inv_def GetConnectionCount_def]
  have d: "distinct (map snd (ts_conns sv) @ ts_leaving sv @ gp_free (ts_pool sv))"
    and r: "\<forall>a \<in> set (map snd (ts_conns sv) @ ts_leaving sv @ gp_free (ts_pool sv)). a < length (ts_heap sv)"
    and reset: "gp_reset (ts_pool sv) = Some reset_object"
    using I by blast+
  obtain p h where ph: "PutConnection (Some a) (ts_pool sv) (ts_heap sv) = (p, h)" by fastforce
  have h: "h = (ts_heap sv)[a := conn_Reset (ts_heap sv ! a)]"
    and p: "gp_free p = gp_free (ts_pool sv) \<or> gp_free p = gp_free (ts_pool sv) @ [a]"
      "gp_factory p = gp_factory (ts_pool sv)" "gp_reset p = gp_reset (ts_pool sv)" "gp_maxSize p = gp_maxSize (ts_pool sv)"
    using ph reset by (auto simp: PutConnection_def pool_Put_def reset_object_def Let_def split: if_splits)
  let ?rest = "sv\<lparr>ts_pool := p, ts_leaving := removeAll a (ts_leaving sv)\<rparr>"
  have f: "ts_conns ?rest = ts_conns sv" "ts_leaving ?rest = removeAll a (ts_leaving sv)" "ts_pool ?rest = p"
    "ts_heap ?rest = ts_heap sv" "ts_counter ?rest = ts_counter sv" "ts_maxConns ?rest = ts_maxConns sv"
    by simp_all
  have "distinct (map snd (ts_conns sv) @ removeAll a (ts_leaving sv) @ gp_free p)"
    using d a p(1) by (elim disjE) (auto simp: distinct_removeAll)
  moreover have "\<forall>x \<in> set (map snd (ts_conns sv) @ removeAll a (ts_leaving sv) @ gp_free p). x < length (ts_heap sv)"
    using r a p(1) by (elim disjE) auto
  ultimately have "server_inv ?rest" using I unfolding server_inv_def GetConnectionCount_def f p(2-4)
    by (elim conjE) (intro conjI; assumption)
  moreover have "same_shape (ts_heap sv ! a) (conn_Reset (ts_heap sv ! a))"
    using server_inv_open [OF inv] server_inv_addr [OF inv] a by (simp add: same_shape_def conn_Reset_def)
  then have "list_all2 same_shape (ts_heap ?rest) (ts_heap (return_step a sv))"
    using ph h by (simp add: return_step_def same_shape_update)
  ultimately show ?thesis by (rule server_inv_cong) (simp_all add: return_step_def ph)
qed

text \<open>
  A \<open>Get\<close> that waits at a full pool and is handed the object that handler \<open>a\<close> returns: what it gets
  is what a \<open>Get\<close> after that return finds.
\<close>

lemma handed_over:
  assumes "server_inv sv" and "gp_free (ts_pool sv) = []" and "\<not> gp_created (ts_pool sv) < gp_maxSize (ts_pool sv)"
    and "0 < ts_maxConns sv"
  shows "GetConnection None (ts_pool (return_step a sv)) (ts_heap (return_step a sv)) =
    (let (x, p, h) = GetConnection (Some a) (ts_pool sv) (ts_heap sv)
     in (x, p\<lparr>gp_put := i64 (gp_put p + 1)\<rparr>, h[a := conn_Reset (h ! a)]))"
proof -
  have "gp_reset (ts_pool sv) = Some reset_object" "gp_maxSize (ts_pool sv) = ts_maxConns sv"
    using assms(1) unfolding server_inv_def by blast+
  then show ?thesis using assms(2-4)
    by (simp add: return_step_def GetConnection_def PutConnection_def pool_Get_def pool_Put_def reset_object_def Let_def)
qed

text \<open>What the pool hands to the accept loop: an object that nobody else holds.\<close>

lemma GetConnection_inv:
  assumes inv: "server_inv sv" and g: "GetConnection None (ts_pool sv) (ts_heap sv) = (a, p, h)"
  shows "a \<notin> set (map snd (ts_conns sv)) \<and> a \<notin> set (ts_leaving sv) \<and> a \<notin> set (gp_free p) \<and>
    set (gp_free p) \<subseteq> set (gp_free (ts_pool sv)) \<and> distinct (gp_free p) \<and> a < length h \<and>
    (h = ts_heap sv \<or> a = length (ts_heap sv) \<and> h = ts_heap sv @ [empty_connection]) \<and>
    gp_factory p = conn_factory \<and> gp_maxSize p = ts_maxConns sv \<and> gp_reset p = Some reset_object"
proof -
  note I = inv [unfolded server_inv_def]
  have d: "distinct (map snd (ts_conns sv) @ ts_leaving sv @ gp_free (ts_pool sv))"
    and c: "gp_factory (ts_pool sv) = conn_factory" "gp_reset (ts_pool sv) = Some reset_object"
      "gp_maxSize (ts_pool sv) = ts_maxConns sv"
    using I by blast+
  have r: "x < length (ts_heap sv)"
    if "x \<in> set (map snd (ts_conns sv)) \<or> x \<in> set (ts_leaving sv) \<or> x \<in> set (gp_free (ts_pool sv))" for x
    using server_inv_addr [OF inv that] .
  show ?thesis
  proof (cases "gp_free (ts_pool sv)")
    case Nil
    then have "a = length (ts_heap sv)" "h = ts_heap sv @ [empty_connection]" "gp_free p = []"
      "gp_factory p = gp_factory (ts_pool sv)" "gp_reset p = gp_reset (ts_pool sv)" "gp_maxSize p = gp_maxSize (ts_pool sv)"
      using g c by (auto simp: GetConnection_def pool_Get_def conn_factory_def Let_def split: if_splits)
    then show ?thesis using c r [of a] by auto
  next
    case (Cons x xs)
    then have "a = x" "h = ts_heap sv" "gp_free p = xs"
      "gp_factory p = gp_factory (ts_pool sv)" "gp_reset p = gp_reset (ts_pool sv)" "gp_maxSize p = gp_maxSize (ts_pool sv)"
      using g by (auto simp: GetConnection_def pool_Get_def Let_def)
    then show ?thesis using c d Cons r [of a] by auto
  qed
qed

lemma word_less_succ: "(c :: u64) \<noteq> - 1 \<Longrightarrow> c < c + 1"
  using unatSuc [of c] by (metis add.commute add_eq_0_iff2 lessI word_less_nat_alt)

lemma store_fresh:
  assumes "\<forall>(i, a) \<in> set conns. i \<le> c" and "(c :: u64) \<noteq> - 1"
  shows "store_conn (c + 1) a conns = conns @ [(c + 1, a)]"
proof -
  have lt: "c < c + 1" using assms(2) by (rule word_less_succ)
  have "e \<in> set conns \<Longrightarrow> fst e \<noteq> c + 1" for e using assms(1) lt by (cases e) force
  then have "filter (\<lambda>e. fst e \<noteq> c + 1) conns = conns" by (simp add: filter_id_conv)
  then show ?thesis by (simp add: store_conn_def)
qed

definition fresh_conn :: "time \<Rightarrow> u64 \<Rightarrow> nat \<Rightarrow> connection" where
  "fresh_conn now i s = \<lparr>cn_ID = i, cn_Conn = Some s, cn_UserID = 0, cn_SessionID = '''',
     cn_LastActivity = now, cn_closed = False\<rparr>"

lemma register_conn_eq:
  assumes inv: "server_inv sv" and c: "ts_counter sv \<noteq> - 1"
  obtains a p h where "register_conn now s sv = sv\<lparr>ts_counter := ts_counter sv + 1, ts_pool := p,
      ts_heap := h[a := fresh_conn now (ts_counter sv + 1) s], ts_conns := ts_conns sv @ [(ts_counter sv + 1, a)]\<rparr>"
    and "GetConnection None (ts_pool sv) (ts_heap sv) = (a, p, h)"
proof -
  obtain a p h where g: "GetConnection None (ts_pool sv) (ts_heap sv) = (a, p, h)" by (metis prod_cases3)
  have "\<forall>(i, a) \<in> set (ts_conns sv). i \<le> ts_counter sv" using server_inv_entry [OF inv] by blast
  from store_fresh [OF this c] have "register_conn now s sv = sv\<lparr>ts_counter := ts_counter sv + 1, ts_pool := p,
      ts_heap := h[a := fresh_conn now (ts_counter sv + 1) s], ts_conns := ts_conns sv @ [(ts_counter sv + 1, a)]\<rparr>"
    by (cases "h ! a") (simp add: register_conn_def g fresh_conn_def conn_Reset_def Let_def)
  then show ?thesis using g that by blast
qed

lemma register_conn_inv:
  assumes inv: "server_inv sv" and c: "ts_counter sv \<noteq> - 1" and s: "Some s \<notin> set (map cn_Conn (ts_heap sv))"
    and room: "GetConnectionCount sv < ts_maxConns sv"
  shows "server_inv (register_conn now s sv)"
proof -
  obtain a p h where eq: "register_conn now s sv = sv\<lparr>ts_counter := ts_counter sv + 1, ts_pool := p,
      ts_heap := h[a := fresh_conn now (ts_counter sv + 1) s], ts_conns := ts_conns sv @ [(ts_counter sv + 1, a)]\<rparr>"
    and g: "GetConnection None (ts_pool sv) (ts_heap sv) = (a, p, h)"
    using register_conn_eq [OF inv c] .
  let ?sv = "register_conn now s sv" and ?n = "ts_counter sv + 1"
  let ?h = "h[a := fresh_conn now ?n s]"
  have f: "ts_conns ?sv = ts_conns sv @ [(?n, a)]" "ts_leaving ?sv = ts_leaving sv" "ts_pool ?sv = p"
    "ts_heap ?sv = ?h" "ts_counter ?sv = ?n" "ts_maxConns ?sv = ts_maxConns sv" by (simp_all add: eq)
  note G = GetConnection_inv [OF inv g]
  note I = inv [unfolded server_inv_def]
  have d: "distinct (map snd (ts_conns sv) @ ts_leaving sv @ gp_free (ts_pool sv))"
    "distinct (map fst (ts_conns sv))" "distinct (map (\<lambda>e. cn_Conn (ts_heap sv ! snd e)) (ts_conns sv))"
    using I by blast+
  have n: "i < ?n" if "(i, x) \<in> set (ts_conns sv)" for i x
    using server_inv_entry [OF inv that] word_less_succ [OF c] by (metis order_le_less_trans)
  have len: "length (ts_heap sv) \<le> length ?h" using G by auto
  have old: "?h ! x = ts_heap sv ! x" if "x \<noteq> a" "x < length (ts_heap sv)" for x
    using G that by (auto simp: nth_append)
  have live: "?h ! snd e = ts_heap sv ! snd e" if "e \<in> set (ts_conns sv)" for e
  proof (rule old)
    have "snd e \<in> set (map snd (ts_conns sv))" using that by simp
    then show "snd e \<noteq> a" "snd e < length (ts_heap sv)" using G server_inv_addr [OF inv] by blast+
  qed
  have new: "?h ! a = fresh_conn now ?n s" using G by simp
  have others: "map (\<lambda>e. cn_Conn (?h ! snd e)) (ts_conns sv) = map (\<lambda>e. cn_Conn (ts_heap sv ! snd e)) (ts_conns sv)"
    using live by simp
  have unused: "Some s \<noteq> cn_Conn (ts_heap sv ! snd e)" if "e \<in> set (ts_conns sv)" for e
  proof -
    have "snd e < length (ts_heap sv)" using server_inv_entry [OF inv] that by (metis prod.collapse)
    then show ?thesis using s nth_mem by fastforce
  qed
  have "distinct (map snd (ts_conns ?sv) @ ts_leaving sv @ gp_free p)"
    using d(1) G unfolding f by auto
  moreover have "\<forall>x \<in> set (map snd (ts_conns ?sv) @ ts_leaving sv @ gp_free p). x < length ?h"
    using G server_inv_addr [OF inv] len unfolding f by fastforce
  moreover have "distinct (map fst (ts_conns ?sv))"
    using d(2) n unfolding f by fastforce
  moreover have "\<forall>(i, x) \<in> set (ts_conns ?sv). cn_ID (?h ! x) = i \<and> i \<le> ?n \<and> cn_Conn (?h ! x) \<noteq> None"
  proof clarify
    fix i x assume ix: "(i, x) \<in> set (ts_conns ?sv)"
    show "cn_ID (?h ! x) = i \<and> i \<le> ?n \<and> cn_Conn (?h ! x) \<noteq> None"
    proof (cases "(i, x) \<in> set (ts_conns sv)")
      case True
      then show ?thesis using server_inv_entry [OF inv True] live [OF True] n [OF True] by simp
    next
      case False
      then have "i = ?n" "x = a" using ix unfolding f by auto
      then show ?thesis using new by (simp add: fresh_conn_def)
    qed
  qed
  moreover have "distinct (map (\<lambda>e. cn_Conn (?h ! snd e)) (ts_conns ?sv))"
  proof -
    have "cn_Conn (?h ! a) = Some s" using new by (simp add: fresh_conn_def)
    moreover have "Some s \<notin> set (map (\<lambda>e. cn_Conn (ts_heap sv ! snd e)) (ts_conns sv))"
      using unused by auto
    ultimately show ?thesis unfolding f map_append others using d(3) by (simp add: distinct_append del: set_map)
  qed
  moreover have "\<forall>c \<in> set ?h. \<not> cn_closed c"
  proof
    fix c assume "c \<in> set ?h"
    then consider "c = fresh_conn now ?n s" | "c \<in> set h" by (meson insertE set_update_subset_insert subsetD)
    then show "\<not> cn_closed c"
    proof cases
      case 2
      then have "c = empty_connection \<or> c \<in> set (ts_heap sv)" using G by auto
      then show ?thesis using I by (auto simp: empty_connection_def)
    qed (simp add: fresh_conn_def)
  qed
  moreover have "int (length (ts_conns ?sv)) \<le> ts_maxConns sv"
    using room by (simp add: f GetConnectionCount_def)
  ultimately show ?thesis unfolding server_inv_def GetConnectionCount_def f(2-6) using G by blast
qed

text \<open>Closing live connections never panics.\<close>

definition close_sockets :: "(nat \<Rightarrow> bool) \<Rightarrow> sockets \<Rightarrow> sockets" where
  "close_sockets P socks = (\<lambda>s. if P s then (socks s)\<lparr>sk_open := False\<rparr> else socks s)"

lemma close_all_socks:
  assumes "\<forall>a \<in> set as. cn_Conn (ts_heap sv ! a) \<noteq> None \<and> \<not> cn_closed (ts_heap sv ! a)"
  shows "close_all as sv =
    Ret (sv\<lparr>ts_socks := close_sockets (\<lambda>s. Some s \<in> (\<lambda>a. cn_Conn (ts_heap sv ! a)) ` set as) (ts_socks sv)\<rparr>)"
  using assms
proof (induction as arbitrary: sv)
  case Nil
  then show ?case by (simp add: close_sockets_def)
next
  case (Cons a as)
  then obtain s where s: "cn_Conn (ts_heap sv ! a) = Some s" "\<not> cn_closed (ts_heap sv ! a)" by auto
  have IH: "close_all as (sv\<lparr>ts_socks := sock_close s (ts_socks sv)\<rparr>) = Ret (sv\<lparr>ts_socks :=
    close_sockets (\<lambda>s. Some s \<in> (\<lambda>a. cn_Conn (ts_heap sv ! a)) ` set as) (sock_close s (ts_socks sv))\<rparr>)"
    using Cons.IH [of "sv\<lparr>ts_socks := sock_close s (ts_socks sv)\<rparr>"] Cons.prems by simp
  have "close_sockets (\<lambda>s. Some s \<in> (\<lambda>a. cn_Conn (ts_heap sv ! a)) ` set as) (sock_close s (ts_socks sv)) =
    close_sockets (\<lambda>s. Some s \<in> (\<lambda>a. cn_Conn (ts_heap sv ! a)) ` set (a # as)) (ts_socks sv)"
    using s by (auto simp: close_sockets_def sock_close_def fun_eq_iff)
  then show ?case using IH s by (simp add: conn_Close_def)
qed

lemma live_closable:
  assumes "server_inv sv" and "a \<in> set (map snd (ts_conns sv))"
  shows "cn_Conn (ts_heap sv ! a) \<noteq> None \<and> \<not> cn_closed (ts_heap sv ! a)"
  using assms server_inv_entry [OF assms(1)] server_inv_open [OF assms(1)] by auto

lemma leave_step_returns:
  assumes "server_inv sv" and "a \<in> set (map snd (ts_conns sv))"
  shows "\<exists>sv'. leave_step a sv = Ret sv'"
  using live_closable [OF assms] by (auto simp: leave_step_def conn_Close_def)

lemma heartbeat_tick_eq:
  assumes "server_inv sv"
  shows "heartbeat_tick now sv = close_all (map snd (filter (expired now sv) (ts_conns sv))) sv"
proof -
  have d: "distinct (map fst (ts_conns sv))" using assms unfolding server_inv_def by blast
  have "List.map_filter (map_of (ts_conns sv)) (map fst es) = map snd es" if "set es \<subseteq> set (ts_conns sv)" for es
    using that
  proof (induction es)
    case (Cons e es)
    then have "map_of (ts_conns sv) (fst e) = Some (snd e)" using map_of_is_SomeI [OF d, of "fst e" "snd e"] by simp
    then show ?case using Cons by (simp add: map_filter_simps)
  qed (simp add: map_filter_simps)
  then show ?thesis by (simp add: heartbeat_tick_def Let_def)
qed

lemma server_inv_limiter: "server_inv sv \<Longrightarrow> server_inv (sv\<lparr>ts_limiter := lm\<rparr>)"
  by (rule server_inv_cong) (simp_all add: list_all2_refl)

lemma server_inv_socks: "server_inv sv \<Longrightarrow> server_inv (sv\<lparr>ts_socks := socks\<rparr>)"
  by (rule server_inv_cong) (simp_all add: list_all2_refl)

lemma admit_limiter: "admit bl now ip sv = (ok, sv1) \<Longrightarrow> \<exists>lm. sv1 = sv\<lparr>ts_limiter := lm\<rparr>"
  by (cases ip) (auto simp: admit_def split: prod.splits intro: exI [of _ "ts_limiter sv"])

lemma accept_step_inv:
  assumes inv: "server_inv sv" and s: "Some s \<notin> set (map cn_Conn (ts_heap sv))" and c: "ts_counter sv \<noteq> - 1"
    and a: "accept_step bl now (Accepted s ip) sv = Ret sv'"
  shows "server_inv sv'"
proof -
  obtain ok sv1 where ad: "admit bl now ip sv = (ok, sv1)" by fastforce
  obtain lm where sv1: "sv1 = sv\<lparr>ts_limiter := lm\<rparr>" using admit_limiter [OF ad] by blast
  have inv1: "server_inv sv1" using inv by (simp add: sv1 server_inv_limiter)
  have "server_inv (register_conn (now 3) s sv1)" if "GetConnectionCount sv1 < ts_maxConns sv1"
    by (rule register_conn_inv [OF inv1 _ _ that]) (use s c in \<open>simp_all add: sv1\<close>)
  then show ?thesis using a ad inv1
    by (auto simp: accept_step_def Let_def close_socket_def server_inv_socks not_le split: if_splits)
qed

lemma server_step_inv:
  assumes "server_step bl sv sv'" and "server_inv sv"
  shows "server_inv sv' \<and> ts_maxConns sv' = ts_maxConns sv"
  using assms
proof cases
  case (accept s now ip)
  have "server_inv sv'"
    using accept accept_step_inv [OF assms(2) accept(1,2)] assms(2) by (simp add: acceptLoop_round_def split: if_splits)
  moreover have "ts_maxConns sv' = ts_maxConns sv" using accept(3)
    by (auto simp: acceptLoop_round_def accept_step_def register_conn_def admit_def close_socket_def Let_def
        split: if_splits option.splits prod.splits)
  ultimately show ?thesis ..
next
  case (leave_c a)
  have "ts_maxConns sv' = ts_maxConns sv" using leave_c(2) by (auto simp: leave_step_def split: outcome.splits)
  then show ?thesis using leave_step_inv [OF assms(2) leave_c] by simp
next
  case (give_back a)
  have "ts_maxConns (return_step a sv) = ts_maxConns sv" by (simp add: return_step_def split: prod.splits)
  then show ?thesis using return_step_inv [OF assms(2)] give_back by simp
next
  case (read_s a now n r)
  note sh = read_from_shape [OF read_s(2)]
  then have "server_inv sv'" by (intro server_inv_cong [OF assms(2)]) (elim conjE, assumption)+
  then show ?thesis using sh by simp
next
  case (bind_u a u sid)
  have "same_shape (ts_heap sv ! a) ((ts_heap sv ! a)\<lparr>cn_UserID := u, cn_SessionID := sid\<rparr>)"
    by (simp add: same_shape_def)
  from same_shape_update [OF this] have "server_inv (bind_user a u sid sv)"
    by (intro server_inv_cong [OF assms(2)]) (simp_all add: bind_user_def)
  then show ?thesis using bind_u by (simp add: bind_user_def)
next
  case (write_s a now fails data e)
  note sh = write_to_shape [OF write_s(2)]
  then have "server_inv sv'" by (intro server_inv_cong [OF assms(2)]) (elim conjE, assumption)+
  then show ?thesis using sh by simp
next
  case (heartbeat now)
  have c: "close_all (map snd (filter (expired now sv) (ts_conns sv))) sv = Ret sv'"
    using heartbeat heartbeat_tick_eq [OF assms(2)] by simp
  from close_all_frame [OF c] server_inv_close_all [OF assms(2) c] show ?thesis by auto
qed

lemma server_run_inv:
  assumes "server_run bl sv sv'" and "server_inv sv"
  shows "server_inv sv' \<and> ts_maxConns sv' = ts_maxConns sv"
  using assms by induction (use server_step_inv in auto)

lemma heartbeatLoop_inv:
  assumes "heartbeatLoop es sv = Waiting sv' \<or> heartbeatLoop es sv = Returned sv'" and "server_inv sv"
  shows "server_inv sv'"
  by (rule ticker_loop_invariant [where P = server_inv, OF _ assms(2) assms(1) [unfolded heartbeatLoop_def]])
    (use server_step_inv [OF heartbeat] in blast)

definition started :: "int \<Rightarrow> 'b limit_manager \<Rightarrow> sockets \<Rightarrow> 'b tcp_server outcome" where
  "started n limiter socks = (case NewTCPServer n limiter socks [] of
     Ret sv \<Rightarrow> Ret (snd (server_Start True sv)) | Panic e \<Rightarrow> Panic e | Blocked \<Rightarrow> Blocked)"

lemma started_inv:
  assumes "started n limiter socks = Ret sv" and "server_run bl sv sv'"
  shows "server_inv sv' \<and> ts_maxConns sv' = n"
proof -
  obtain sv0 where sv0: "NewTCPServer n limiter socks [] = Ret sv0"
    and sv: "sv = sv0\<lparr>ts_listening := True, ts_running := True\<rparr>"
    using assms(1) by (auto simp: started_def server_Start_def split: outcome.splits)
  have "server_inv sv" unfolding sv
    by (rule server_inv_cong [OF NewTCPServer_inv [OF sv0]]) (simp_all add: list_all2_refl)
  moreover have "ts_maxConns sv = n" using sv0
    by (auto simp: sv NewTCPServer_def split: outcome.splits)
  ultimately show ?thesis using server_run_inv [OF assms(2)] by simp
qed

section \<open>Properties\<close>

text \<open>
  C6. In every state a started server reaches by accepting, reading, writing, binding users,
  heartbeats, and the two steps of leaving handlers, in any order: there are at most maxConns
  connections, keys are distinct, are the ids of their objects and not above the counter, no
  object is at once live, leaving and free in the pool (or twice in one of them), and neither a
  leaving handler, nor the heartbeat, nor Stop itself panics. The first 2^64 - 1 connections.
\<close>

theorem tcp_server_invariant:
  assumes "started maxConns limiter socks = Ret sv0" and "server_run bl sv0 sv"
  shows "GetConnectionCount sv \<le> maxConns \<and> distinct (map fst (ts_conns sv)) \<and>
    distinct (map snd (ts_conns sv) @ ts_leaving sv @ gp_free (ts_pool sv)) \<and>
    (\<forall>i a. server_GetConnection i sv = Some a \<longrightarrow>
       cn_ID (ts_heap sv ! a) = i \<and> i \<le> ts_counter sv \<and> (\<exists>sv'. leave_step a sv = Ret sv')) \<and>
    (\<exists>sv'. heartbeat_tick now sv = Ret sv') \<and> (\<exists>sv'. server_Stop sv = Ret sv')"
proof -
  have inv: "server_inv sv" and n: "ts_maxConns sv = maxConns" using started_inv [OF assms] by blast+
  note I = inv [unfolded server_inv_def]
  have "cn_ID (ts_heap sv ! a) = i \<and> i \<le> ts_counter sv \<and> (\<exists>sv'. leave_step a sv = Ret sv')"
    if "server_GetConnection i sv = Some a" for i a
  proof -
    have m: "(i, a) \<in> set (ts_conns sv)" using that by (simp add: server_GetConnection_def map_of_SomeD)
    then have "a \<in> set (map snd (ts_conns sv))" by force
    then show ?thesis using server_inv_entry [OF inv m] leave_step_returns [OF inv] by blast
  qed
  moreover have "\<exists>sv'. heartbeat_tick now sv = Ret sv'"
    using close_all_socks [of "map snd (filter (expired now sv) (ts_conns sv))" sv] live_closable [OF inv]
    by (fastforce simp: heartbeat_tick_eq [OF inv])
  moreover have "\<exists>sv'. server_Stop sv = Ret sv'"
    using close_all_socks [of "map snd (ts_conns sv)" "sv\<lparr>ts_running := False, ts_listening := False\<rparr>"]
      live_closable [OF inv] by (fastforce simp: server_Stop_def)
  moreover have "distinct (map fst (ts_conns sv))" "GetConnectionCount sv \<le> maxConns"
    "distinct (map snd (ts_conns sv) @ ts_leaving sv @ gp_free (ts_pool sv))" using I n by blast+
  ultimately show ?thesis by blast
qed

text \<open>The sockets of the witnesses: all open and silent.\<close>

definition quiet_socks :: sockets where
  "quiet_socks = (\<lambda>s. \<lparr>sk_open = True, sk_in = [], sk_out = []\<rparr>)"

definition demo_server :: "exact_bucket tcp_server" where
  "demo_server = (case started 2 NewRateLimitManager quiet_socks of Ret sv \<Rightarrow> sv)"

definition demo_one :: "exact_bucket tcp_server" where
  "demo_one = (case acceptLoop_round exact_lib (\<lambda>_. 0) (Accepted 7 None) demo_server of Ret sv \<Rightarrow> sv)"

lemma demo_started: "started 2 NewRateLimitManager quiet_socks = Ret demo_server"
  by (simp add: demo_server_def started_def NewTCPServer_def NewConnectionPool_def NewGenericPool_def)

lemmas demo_simps = demo_server_def demo_one_def started_def NewTCPServer_def NewConnectionPool_def NewGenericPool_def
  server_Start_def acceptLoop_round_def accept_step_def admit_def GetConnectionCount_def register_conn_def
  GetConnection_def pool_Get_def conn_factory_def store_conn_def conn_Reset_def empty_connection_def

lemma demo_one_run: "server_run exact_lib demo_server demo_one"
proof -
  have "server_step exact_lib demo_server demo_one"
    by (rule server_step.accept [of 7 _ _ "\<lambda>_. 0" None]) (simp_all add: demo_simps)
  then show ?thesis by (rule server_run.run_more [OF server_run.run_start])
qed

lemma demo_one_state:
  "ts_conns demo_one = [(1, 0)]" "ts_heap demo_one = [fresh_conn 0 1 7]" "ts_socks demo_one = quiet_socks"
  "ts_leaving demo_one = []" "gp_free (ts_pool demo_one) = []" "ts_running demo_one" "ts_counter demo_one = 1"
  "ts_maxConns demo_one = 2" "ts_limiter demo_one = NewRateLimitManager"
  by (simp_all add: demo_simps fresh_conn_def)

lemma demo_one_inv: "server_inv demo_one"
  using started_inv [OF demo_started demo_one_run] by blast

theorem tcp_server_invariant_witness:
  "server_GetConnection 1 demo_one = Some 0 \<and> GetConnectionCount demo_one = 1 \<and>
   GetConnectionCount demo_one \<le> 2 \<and> (\<exists>sv'. leave_step 0 demo_one = Ret sv')"
  using tcp_server_invariant [OF demo_started demo_one_run, where now = 0]
  by (simp add: server_GetConnection_def GetConnectionCount_def demo_one_state)

text \<open>
  C13. A socket from Accept becomes a connection exactly if its IP is within the rate limit and
  fewer than maxConns connections live: then one entry with the next id is added, whose pool
  object nobody else holds and carries nothing of its previous user, and no other object and no
  socket changes. Otherwise the socket is closed and only the limiter has changed.
\<close>

theorem accept_correct:
  assumes "server_inv sv" and "ts_running sv" and "ts_counter sv \<noteq> - 1"
    and "admit bl now ip sv = (ok, sv1)" and "acceptLoop_round bl now (Accepted s ip) sv = Ret sv'"
  shows "if ok \<and> GetConnectionCount sv < ts_maxConns sv
    then \<exists>a. ts_conns sv' = ts_conns sv @ [(ts_counter sv + 1, a)] \<and> ts_counter sv' = ts_counter sv + 1 \<and>
      a \<notin> set (map snd (ts_conns sv)) \<and> a \<notin> set (ts_leaving sv) \<and>
      ts_heap sv' ! a = fresh_conn (now 3) (ts_counter sv + 1) s \<and> ts_socks sv' = ts_socks sv \<and>
      (\<forall>b < length (ts_heap sv). b \<noteq> a \<longrightarrow> ts_heap sv' ! b = ts_heap sv ! b)
    else sv' = sv1\<lparr>ts_socks := sock_close s (ts_socks sv)\<rparr>"
proof -
  obtain lm where sv1: "sv1 = sv\<lparr>ts_limiter := lm\<rparr>" using admit_limiter [OF assms(4)] by blast
  have step: "accept_step bl now (Accepted s ip) sv = Ret sv'" using assms(2,5) by (simp add: acceptLoop_round_def)
  show ?thesis
  proof (cases "ok \<and> GetConnectionCount sv < ts_maxConns sv")
    case False
    then show ?thesis using step
      by (auto simp: accept_step_def assms(4) sv1 close_socket_def GetConnectionCount_def not_le split: if_splits)
  next
    case True
    then have sv': "sv' = register_conn (now 3) s sv1" using step
      by (auto simp: accept_step_def assms(4) sv1 GetConnectionCount_def split: if_splits)
    have inv1: "server_inv sv1" using assms(1) by (simp add: sv1 server_inv_limiter)
    have c1: "ts_counter sv1 \<noteq> - 1" using assms(3) by (simp add: sv1)
    obtain a p h where eq: "sv' = sv1\<lparr>ts_counter := ts_counter sv1 + 1, ts_pool := p,
        ts_heap := h[a := fresh_conn (now 3) (ts_counter sv1 + 1) s], ts_conns := ts_conns sv1 @ [(ts_counter sv1 + 1, a)]\<rparr>"
      and g: "GetConnection None (ts_pool sv1) (ts_heap sv1) = (a, p, h)"
      using register_conn_eq [OF inv1 c1] unfolding sv' .
    note G = GetConnection_inv [OF inv1 g, unfolded sv1, simplified]
    have "\<forall>b < length (ts_heap sv). b \<noteq> a \<longrightarrow> ts_heap sv' ! b = ts_heap sv ! b"
      using G by (auto simp: eq nth_append)
    then show ?thesis using True G by (auto simp: eq sv1)
  qed
qed

theorem accept_correct_witness:
  "\<exists>sv'. acceptLoop_round exact_lib (\<lambda>_. 5) (Accepted 9 None) demo_one = Ret sv' \<and>
    ts_heap sv' ! 1 = fresh_conn 5 2 9 \<and> ts_conns sv' = [(1, 0), (2, 1)]"
proof -
  have ad: "admit exact_lib (\<lambda>_. 5) None demo_one = (True, demo_one)" by (simp add: admit_def)
  obtain sv' where sv': "acceptLoop_round exact_lib (\<lambda>_. 5) (Accepted 9 None) demo_one = Ret sv'"
    by (simp add: acceptLoop_round_def accept_step_def ad demo_one_state GetConnectionCount_def)
  have "gp_created (ts_pool demo_one) = 1" "gp_maxSize (ts_pool demo_one) = 2"
    "gp_factory (ts_pool demo_one) = conn_factory" by (simp_all add: demo_simps)
  then have "ts_conns sv' = [(1, 0), (2, 1)]" using sv'
    by (auto simp: acceptLoop_round_def accept_step_def ad demo_one_state GetConnectionCount_def register_conn_def
        GetConnection_def pool_Get_def conn_factory_def store_conn_def Let_def)
  then show ?thesis using accept_correct [OF demo_one_inv _ _ ad sv'] sv'
    by (simp add: demo_one_state GetConnectionCount_def)
qed

text \<open>
  C26. A tick of the heartbeat closes exactly the sockets of the live connections whose last
  activity is more than 60 seconds ago, and changes nothing else; it does not panic.
\<close>

theorem heartbeat_closes_idle:
  assumes "started maxConns limiter socks = Ret sv0" and "server_run bl sv0 sv"
  shows "heartbeat_tick now sv = Ret (sv\<lparr>ts_socks := (\<lambda>s.
    if \<exists>i a. server_GetConnection i sv = Some a \<and> cn_Conn (ts_heap sv ! a) = Some s \<and>
         now - cn_LastActivity (ts_heap sv ! a) > 60 * second
    then (ts_socks sv s)\<lparr>sk_open := False\<rparr> else ts_socks sv s)\<rparr>)"
proof -
  have inv: "server_inv sv" using started_inv [OF assms] by blast
  let ?as = "map snd (filter (expired now sv) (ts_conns sv))"
  have d: "distinct (map fst (ts_conns sv))" using inv unfolding server_inv_def by blast
  have "\<forall>a \<in> set ?as. cn_Conn (ts_heap sv ! a) \<noteq> None \<and> \<not> cn_closed (ts_heap sv ! a)"
    using live_closable [OF inv] by fastforce
  from close_all_socks [OF this] have "heartbeat_tick now sv = Ret (sv\<lparr>ts_socks :=
    close_sockets (\<lambda>s. Some s \<in> (\<lambda>a. cn_Conn (ts_heap sv ! a)) ` set ?as) (ts_socks sv)\<rparr>)"
    unfolding heartbeat_tick_eq [OF inv] .
  moreover have "Some s \<in> (\<lambda>a. cn_Conn (ts_heap sv ! a)) ` set ?as \<longleftrightarrow>
      (\<exists>i a. server_GetConnection i sv = Some a \<and> cn_Conn (ts_heap sv ! a) = Some s \<and>
         now - cn_LastActivity (ts_heap sv ! a) > 60 * second)" for s
    by (force simp: server_GetConnection_def expired_def time_sub_gt map_of_eq_Some_iff [OF d])
  ultimately show ?thesis by (simp add: close_sockets_def)
qed

theorem heartbeat_closes_idle_witness:
  "\<exists>sv. heartbeat_tick (61 * second) demo_one = Ret sv \<and> \<not> sk_open (ts_socks sv 7) \<and> sk_open (ts_socks sv 8)"
  using heartbeat_closes_idle [OF demo_started demo_one_run, of "61 * second"]
  by (simp add: server_GetConnection_def demo_one_state fresh_conn_def quiet_socks_def nth_Cons')

text \<open>
  Close never sets the closed flag: after a connection has been closed and removed, no object
  in the server reports IsClosed, a further Write is not refused with "connection closed" but
  reaches the closed socket, fails there, and renews the last activity.
\<close>

theorem closed_flag_never_set:
  assumes "started maxConns limiter socks = Ret sv0" and "server_run bl sv0 sv"
    and "server_GetConnection i sv = Some a" and "leave_step a sv = Ret sv'"
  shows "server_GetConnection i sv' = None \<and> (\<forall>c \<in> set (ts_heap sv'). \<not> IsClosed c) \<and>
    cn_LastActivity (ts_heap sv' ! a) = cn_LastActivity (ts_heap sv ! a) \<and>
    (\<exists>sv2. write_to now False data a sv' = Ret (Some SocketError, sv2) \<and> cn_LastActivity (ts_heap sv2 ! a) = now)"
proof -
  have inv: "server_inv sv" using started_inv [OF assms(1,2)] by blast
  have m: "(i, a) \<in> set (ts_conns sv)" using assms(3) by (simp add: server_GetConnection_def map_of_SomeD)
  then have a: "a \<in> set (map snd (ts_conns sv))" by force
  note e = server_inv_entry [OF inv m]
  obtain s where s: "cn_Conn (ts_heap sv ! a) = Some s" using e by blast
  have open_a: "\<not> cn_closed (ts_heap sv ! a)" using live_closable [OF inv a] by simp
  have sv': "ts_heap sv' = ts_heap sv" "ts_socks sv' = sock_close s (ts_socks sv)"
    "ts_conns sv' = filter (\<lambda>e. fst e \<noteq> i) (ts_conns sv)"
    using assms(4) s open_a e by (auto simp: leave_step_def conn_Close_def)
  have "server_GetConnection i sv' = None"
    by (auto simp: server_GetConnection_def sv'(3) map_of_eq_None_iff)
  moreover have "\<forall>c \<in> set (ts_heap sv'). \<not> IsClosed c"
    using inv unfolding sv'(1) IsClosed_def server_inv_def by blast
  moreover have "\<exists>sv2. write_to now False data a sv' = Ret (Some SocketError, sv2) \<and> cn_LastActivity (ts_heap sv2 ! a) = now"
    using s open_a e by (auto simp: write_to_def conn_Write_def sv' sock_close_def Let_def)
  ultimately show ?thesis by (simp add: sv'(1))
qed

theorem closed_flag_never_set_witness:
  "\<exists>sv'. leave_step 0 demo_one = Ret sv' \<and> \<not> sk_open (ts_socks sv' 7) \<and> \<not> IsClosed (ts_heap sv' ! 0)"
proof -
  obtain sv' where sv': "leave_step 0 demo_one = Ret sv'"
    using leave_step_returns [OF demo_one_inv, of 0] by (auto simp: demo_one_state)
  have s: "ts_heap sv' = ts_heap demo_one" "\<not> sk_open (ts_socks sv' 7)"
    using sv' by (auto simp: leave_step_def conn_Close_def demo_one_state fresh_conn_def sock_close_def)
  have "server_GetConnection 1 demo_one = Some 0" by (simp add: server_GetConnection_def demo_one_state)
  from closed_flag_never_set [OF demo_started demo_one_run this sv']
  have "\<forall>c \<in> set (ts_heap sv'). \<not> IsClosed c" by blast
  then show ?thesis using sv' s by (simp add: demo_one_state)
qed

text \<open>What a Stop with its wait answers: it crashes exactly when the loop stands in Accept.\<close>

lemma Stop_and_wait_outcome:
  assumes "server_inv sv"
  obtains sv' where "server_Stop sv = Ret sv'" and "\<not> ts_running sv'"
    and "Stop_and_wait in_accept sv = (if ts_running sv \<and> in_accept \<noteq> None then Panic NilDereference else Ret sv')"
proof (cases "ts_running sv")
  case True
  let ?sv = "sv\<lparr>ts_running := False, ts_listening := False\<rparr>"
  obtain sv' where "server_Stop sv = Ret sv'" and sv': "sv' = ?sv\<lparr>ts_socks :=
      close_sockets (\<lambda>s. Some s \<in> (\<lambda>a. cn_Conn (ts_heap sv ! a)) ` set (map snd (ts_conns sv))) (ts_socks sv)\<rparr>"
    using close_all_socks [of "map snd (ts_conns sv)" ?sv] live_closable [OF assms] True by (simp add: server_Stop_def)
  then show thesis
    by (intro that [of sv']) (auto simp: Stop_and_wait_def listener_Accept_def True split: option.splits)
next
  case False
  show thesis
    by (rule that [of sv]) (use False in \<open>auto simp: Stop_and_wait_def server_Stop_def split: option.splits\<close>)
qed

lemma run_listens:
  assumes "server_run bl sv0 sv"
  shows "ts_running sv = ts_running sv0 \<and> ts_listening sv = ts_listening sv0"
  using assms
proof (induction rule: server_run.induct)
  case (run_more sv0 sv1 sv2)
  have "ts_running sv2 = ts_running sv1 \<and> ts_listening sv2 = ts_listening sv1"
    using run_more.hyps(2)
  proof (cases rule: server_step.cases)
    case (heartbeat now)
    then show ?thesis using close_all_frame by (fastforce simp: heartbeat_tick_def Let_def)
  qed (auto simp: acceptLoop_round_def accept_step_def admit_def close_socket_def register_conn_def leave_step_def return_step_def
      read_from_def write_to_def bind_user_def Let_def split: outcome.splits prod.splits if_splits option.splits)
  then show ?case using run_more.IH by simp
qed simp

text \<open>
  C36. In every state a started server reaches, Stop closes the sockets of all live connections
  and the listener. Whatever connection would come next, the Accept the loop is blocked in then
  fails, and the loop uses the nil connection before it looks at the error: the process panics
  while Stop waits. Only a loop that is not in Accept at that moment finds the server stopped
  at its next test and ends, and Stop returns.
\<close>

theorem Stop_crashes_accept_loop:
  assumes "started maxConns limiter socks = Ret sv0" and "server_run bl sv0 sv"
  shows "\<exists>sv'. server_Stop sv = Ret sv' \<and> \<not> ts_running sv' \<and> ts_conns sv' = ts_conns sv \<and>
    (\<forall>i a s. server_GetConnection i sv = Some a \<and> cn_Conn (ts_heap sv ! a) = Some s \<longrightarrow> \<not> sk_open (ts_socks sv' s)) \<and>
    (\<forall>incoming. accept_step bl now (listener_Accept incoming sv') sv' = Panic NilDereference \<and>
       Stop_and_wait (Some incoming) sv = Panic NilDereference) \<and>
    (\<forall>res. acceptLoop_round bl now res sv' = Ret sv') \<and> Stop_and_wait None sv = Ret sv'"
proof -
  have inv: "server_inv sv" using started_inv [OF assms] by blast
  have run: "ts_running sv" "ts_listening sv"
    using run_listens [OF assms(2)] assms(1) by (auto simp: started_def server_Start_def split: outcome.splits)
  let ?sv = "sv\<lparr>ts_running := False, ts_listening := False\<rparr>"
  obtain sv' where stop: "server_Stop sv = Ret sv'" and sv': "sv' = ?sv\<lparr>ts_socks :=
      close_sockets (\<lambda>s. Some s \<in> (\<lambda>a. cn_Conn (ts_heap sv ! a)) ` set (map snd (ts_conns sv))) (ts_socks sv)\<rparr>"
    using close_all_socks [of "map snd (ts_conns sv)" ?sv] live_closable [OF inv] run by (simp add: server_Stop_def)
  have "Some s \<in> (\<lambda>a. cn_Conn (ts_heap sv ! a)) ` set (map snd (ts_conns sv))"
    if "server_GetConnection i sv = Some a" "cn_Conn (ts_heap sv ! a) = Some s" for i a s
  proof -
    have "(i, a) \<in> set (ts_conns sv)" using that(1) by (simp add: server_GetConnection_def map_of_SomeD)
    then have "a \<in> set (map snd (ts_conns sv))" by force
    then show ?thesis using that(2) by force
  qed
  then have "\<forall>i a s. server_GetConnection i sv = Some a \<and> cn_Conn (ts_heap sv ! a) = Some s \<longrightarrow> \<not> sk_open (ts_socks sv' s)"
    by (simp add: sv' close_sockets_def) blast
  moreover have l: "\<not> ts_running sv'" "listener_Accept incoming sv' = AcceptFailed" "ts_conns sv' = ts_conns sv" for incoming
    by (simp_all add: sv' listener_Accept_def)
  ultimately show ?thesis
    using stop run by (intro exI [of _ sv']) (simp add: Stop_and_wait_def acceptLoop_round_def accept_step_def)
qed

theorem Stop_crashes_accept_loop_witness:
  "\<exists>sv'. server_Stop demo_one = Ret sv' \<and> \<not> sk_open (ts_socks sv' 7) \<and>
     accept_step exact_lib (\<lambda>_. 0) (listener_Accept (Accepted 9 None) sv') sv' = Panic NilDereference"
proof -
  obtain sv' where s: "server_Stop demo_one = Ret sv'" and c: "\<forall>i a s. server_GetConnection i demo_one = Some a \<and>
      cn_Conn (ts_heap demo_one ! a) = Some s \<longrightarrow> \<not> sk_open (ts_socks sv' s)"
    and p: "\<forall>incoming. accept_step exact_lib (\<lambda>_. 0) (listener_Accept incoming sv') sv' = Panic NilDereference"
    using Stop_crashes_accept_loop [OF demo_started demo_one_run, of "\<lambda>_. 0"] by blast
  have "server_GetConnection 1 demo_one = Some 0" "cn_Conn (ts_heap demo_one ! 0) = Some 7"
    by (simp_all add: server_GetConnection_def demo_one_state fresh_conn_def)
  then show ?thesis using s c p by blast
qed

text \<open>
  Senders keep the pointer they looked up. If the connection leaves and its pooled object is
  given to the next client before the write, the write succeeds and its data is delivered to
  the new client, under the new connection id.
\<close>

theorem stale_pointer_misdelivers:
  assumes "started maxConns limiter socks = Ret sv0" and "server_run bl sv0 sv"
    and "server_GetConnection i sv = Some a" and "gp_free (ts_pool sv) = []"
    and "ts_running sv" and "ts_counter sv \<noteq> - 1" and "sk_open (ts_socks sv s)"
    and "Some s \<notin> set (map cn_Conn (ts_heap sv))"
    and "leave_step a sv = Ret sv1"
    and "acceptLoop_round bl now (Accepted s None) (return_step a sv1) = Ret sv2"
  shows "server_GetConnection (ts_counter sv + 1) sv2 = Some a \<and>
    (\<exists>sv3. write_to t False data a sv2 = Ret (None, sv3) \<and> sk_out (ts_socks sv3 s) = sk_out (ts_socks sv s) @ [data])"
proof -
  have inv: "server_inv sv" using started_inv [OF assms(1,2)] by blast
  have m: "(i, a) \<in> set (ts_conns sv)" using assms(3) by (simp add: server_GetConnection_def map_of_SomeD)
  then have a: "a \<in> set (map snd (ts_conns sv))" by force
  have inv1: "server_inv sv1" and left: "a \<in> set (ts_leaving sv1)" using leave_step_inv [OF inv a assms(9)] by blast+
  note inv2 = return_step_inv [OF inv1 left]
  let ?sv = "return_step a sv1"
  note e = server_inv_entry [OF inv m] and o = live_closable [OF inv a]
  have I: "gp_maxSize (ts_pool sv) = ts_maxConns sv" "gp_reset (ts_pool sv) = Some reset_object"
    "GetConnectionCount sv \<le> ts_maxConns sv" using inv unfolding server_inv_def by blast+
  have "ts_conns sv \<noteq> []" using m by auto
  then have room: "0 < ts_maxConns sv" using I(3) by (simp add: GetConnectionCount_def) (metis length_greater_0_conv of_nat_0_less_iff order_less_le_trans)
  obtain s0 where s0: "cn_Conn (ts_heap sv ! a) = Some s0" using e by blast
  have "Some s0 \<in> set (map cn_Conn (ts_heap sv))"
    using nth_mem [OF conjunct1 [OF e]] s0 by (metis image_eqI list.set_map)
  then have s0_s: "s0 \<noteq> s" using assms(8) by blast
  have sv1: "sv1 = sv\<lparr>ts_socks := sock_close s0 (ts_socks sv), ts_conns := filter (\<lambda>e. fst e \<noteq> i) (ts_conns sv),
      ts_leaving := a # ts_leaving sv\<rparr>"
  proof -
    have "conn_Close (ts_heap sv ! a) (ts_socks sv) =
        Ret (if sk_open (ts_socks sv s0) then None else Some SocketError, sock_close s0 (ts_socks sv))"
      using s0 conjunct2 [OF o] by (simp add: conn_Close_def)
    moreover have "cn_ID (ts_heap sv ! a) = i" using e by blast
    ultimately show ?thesis using assms(9) by (simp add: leave_step_def)
  qed
  have put: "PutConnection (Some a) (ts_pool sv) (ts_heap sv) =
      ((ts_pool sv)\<lparr>gp_put := i64 (gp_put (ts_pool sv) + 1), gp_free := [a]\<rparr>, (ts_heap sv)[a := conn_Reset (ts_heap sv ! a)])"
    using I(1,2) room assms(4) by (simp add: PutConnection_def pool_Put_def reset_object_def Let_def)
  have sv: "ts_running ?sv" "ts_counter ?sv = ts_counter sv" "gp_free (ts_pool ?sv) = [a]"
    "ts_socks ?sv = sock_close s0 (ts_socks sv)" "a < length (ts_heap ?sv)"
    "ts_conns ?sv = filter (\<lambda>e. fst e \<noteq> i) (ts_conns sv)" "ts_maxConns ?sv = ts_maxConns sv"
    using assms(5) conjunct1 [OF e] by (simp_all add: sv1 return_step_def put)
  have g: "GetConnection None (ts_pool ?sv) (ts_heap ?sv) =
      (a, (ts_pool ?sv)\<lparr>gp_gotten := i64 (gp_gotten (ts_pool ?sv) + 1), gp_free := []\<rparr>, ts_heap ?sv)"
    using sv(3) by (simp add: GetConnection_def pool_Get_def Let_def)
  have c2: "ts_counter ?sv \<noteq> - 1" using sv(2) assms(6) by simp
  obtain p where reg: "register_conn (now 3) s ?sv = ?sv\<lparr>ts_counter := ts_counter ?sv + 1, ts_pool := p,
      ts_heap := (ts_heap ?sv)[a := fresh_conn (now 3) (ts_counter ?sv + 1) s], ts_conns := ts_conns ?sv @ [(ts_counter ?sv + 1, a)]\<rparr>"
    using register_conn_eq [OF inv2 c2, of "now 3" s] g by (metis prod.inject)
  have "distinct (map fst (ts_conns sv))" using inv unfolding server_inv_def by blast
  from filter_distinct_length [OF this m] have "GetConnectionCount ?sv < ts_maxConns ?sv"
    using I(3) by (simp add: GetConnectionCount_def sv(6,7))
  then have sv2: "sv2 = register_conn (now 3) s ?sv"
    using assms(10) sv(1) by (simp add: acceptLoop_round_def accept_step_def admit_def)
  have c: "ts_counter sv + 1 \<notin> set (map fst (ts_conns ?sv))"
    using server_inv_entry [OF inv2] word_less_succ [OF c2] sv(2) by (force simp: not_le [symmetric])
  then have "map_of (ts_conns ?sv) (ts_counter sv + 1) = None" by (simp add: map_of_eq_None_iff)
  then have "server_GetConnection (ts_counter sv + 1) sv2 = Some a"
    by (simp add: sv2 reg sv(2) server_GetConnection_def map_add_def)
  moreover have "ts_heap sv2 ! a = fresh_conn (now 3) (ts_counter sv + 1) s" "ts_socks sv2 s = ts_socks sv s"
    using sv s0_s by (simp_all add: sv2 reg sock_close_def)
  ultimately show ?thesis
    using assms(7) by (auto simp: write_to_def conn_Write_def fresh_conn_def Let_def)
qed

theorem stale_pointer_misdelivers_witness:
  "\<exists>sv1 sv2 sv3. leave_step 0 demo_one = Ret sv1 \<and>
     acceptLoop_round exact_lib (\<lambda>_. 5) (Accepted 9 None) (return_step 0 sv1) = Ret sv2 \<and>
     server_GetConnection 2 sv2 = Some 0 \<and> write_to 6 False [1, 2, 3] 0 sv2 = Ret (None, sv3) \<and>
     sk_out (ts_socks sv3 9) = [[1, 2, 3]]"
proof -
  obtain sv1 where sv1: "leave_step 0 demo_one = Ret sv1"
    using leave_step_returns [OF demo_one_inv, of 0] by (auto simp: demo_one_state)
  obtain sv2 where sv2: "acceptLoop_round exact_lib (\<lambda>_. 5) (Accepted 9 None) (return_step 0 sv1) = Ret sv2"
    by (cases "acceptLoop_round exact_lib (\<lambda>_. 5) (Accepted 9 None) (return_step 0 sv1)")
      (auto simp: acceptLoop_round_def accept_step_def admit_def split: if_splits)
  have one: "server_GetConnection 1 demo_one = Some 0" by (simp add: server_GetConnection_def demo_one_state)
  have "server_GetConnection (ts_counter demo_one + 1) sv2 = Some 0 \<and>
    (\<exists>sv3. write_to 6 False [1, 2, 3] 0 sv2 = Ret (None, sv3) \<and> sk_out (ts_socks sv3 9) = sk_out (ts_socks demo_one 9) @ [[1, 2, 3]])"
    by (rule stale_pointer_misdelivers [OF demo_started demo_one_run one _ _ _ _ _ sv1 sv2])
      (simp_all add: demo_one_state quiet_socks_def fresh_conn_def)
  then show ?thesis using sv1 sv2 by (auto simp: demo_one_state quiet_socks_def)
qed

end
