(* ===== verification/Balancer.thy ===== *)
theory Balancer
  imports Prelude "HOL-Library.Multiset"
begin

text \<open>
  Service descriptions and the load balancers of \<open>internal/discovery/etcd.go\<close>: the
  \<open>LoadBalancer\<close> interface as a locale, interpreted by the round-robin and the weighted
  balancer.
\<close>

record service_info =
  si_NodeID :: string
  si_NodeType :: string
  si_Address :: string
  si_Port :: int
  si_Load :: int
  si_Status :: string
  si_Metadata :: "(string \<times> string) list option"
  si_UpdateTime :: int

section \<open>The interface\<close>

text \<open>
  \<open>ready k s\<close>: the balancer in state \<open>s\<close> can serve \<open>k\<close> more requests.
\<close>

locale load_balancer =
  fixes select :: "service_info list \<Rightarrow> 's \<Rightarrow> service_info option outcome \<times> 's"
    and ready :: "nat \<Rightarrow> 's \<Rightarrow> bool"
  assumes select_Nil: "select [] s = (Ret None, s)"
    and select_mem: "ready (Suc k) s \<Longrightarrow> xs \<noteq> [] \<Longrightarrow> \<exists>x \<in> set xs. fst (select xs s) = Ret (Some x)"
    and select_ready: "ready (Suc k) s \<Longrightarrow> ready k (snd (select xs s))"
    and ready_less: "ready (Suc k) s \<Longrightarrow> ready k s"
begin

fun select_run :: "service_info list list \<Rightarrow> 's \<Rightarrow> service_info option outcome list \<times> 's" where
  "select_run [] s = ([], s)"
| "select_run (xs # xss) s = (let (r, s') = select xs s; (rs, s'') = select_run xss s' in (r # rs, s''))"

lemma select_run_ok:
  assumes "ready (length xss) s"
  shows "list_all2 (\<lambda>xs r. if xs = [] then r = Ret None else \<exists>x \<in> set xs. r = Ret (Some x)) xss
    (fst (select_run xss s))"
  using assms
proof (induction xss arbitrary: s)
  case Nil
  then show ?case by simp
next
  case (Cons xs xss)
  obtain r s' where sel: "select xs s = (r, s')" by fastforce
  obtain rs s'' where run: "select_run xss s' = (rs, s'')" by fastforce
  have rd: "ready (Suc (length xss)) s" using Cons.prems by simp
  have "ready (length xss) s'" using select_ready [OF rd, of xs] sel by simp
  from Cons.IH [OF this] have ih: "list_all2 (\<lambda>xs r. if xs = [] then r = Ret None else \<exists>x \<in> set xs. r = Ret (Some x)) xss rs"
    using run by simp
  have "if xs = [] then r = Ret None else \<exists>x \<in> set xs. r = Ret (Some x)"
    using select_mem [OF rd, of xs] select_Nil [of s] sel by auto
  then show ?case using ih sel run by simp
qed

end

section \<open>Round robin\<close>

text \<open>A counter per service type, an int that wraps; a missing one reads zero.\<close>

record rr_balancer =
  rr_counters :: "string \<rightharpoonup> int"

definition NewRoundRobinLoadBalancer :: rr_balancer where
  "NewRoundRobinLoadBalancer = \<lparr>rr_counters = Map.empty\<rparr>"

text \<open>Go's \<open>%\<close> has the sign of its first operand.\<close>

definition go_rem :: "int \<Rightarrow> int \<Rightarrow> int" where
  "go_rem a b = (if a < 0 then - ((- a) mod b) else a mod b)"

definition rr_counter :: "rr_balancer \<Rightarrow> string \<Rightarrow> int" where
  "rr_counter lb t = (case rr_counters lb t of None \<Rightarrow> 0 | Some c \<Rightarrow> c)"

definition rr_Select ::
  "service_info list \<Rightarrow> rr_balancer \<Rightarrow> service_info option outcome \<times> rr_balancer" where
  "rr_Select services lb =
     (if services = [] then (Ret None, lb)
      else (let nodeType = si_NodeType (services ! 0);
                counter = rr_counter lb nodeType;
                i = go_rem counter (int (length services))
            in if i < 0 then (Panic IndexOutOfRange, lb)
               else (Ret (Some (services ! nat i)),
                     lb\<lparr>rr_counters := (rr_counters lb)(nodeType \<mapsto> i64 (counter + 1))\<rparr>)))"

definition rr_ready :: "nat \<Rightarrow> rr_balancer \<Rightarrow> bool" where
  "rr_ready k lb \<longleftrightarrow> (\<forall>t. 0 \<le> rr_counter lb t \<and> rr_counter lb t + int k < 2 ^ 63)"

section \<open>Weighted\<close>

fun lowest_load :: "service_info list \<Rightarrow> int \<Rightarrow> service_info option \<Rightarrow> service_info option" where
  "lowest_load [] minLoad selected = selected"
| "lowest_load (s # ss) minLoad selected =
     (if si_Status s = ''online'' \<and> si_Load s < minLoad
      then lowest_load ss (si_Load s) (Some s) else lowest_load ss minLoad selected)"

definition weighted_Select :: "service_info list \<Rightarrow> service_info option" where
  "weighted_Select services =
     (if services = [] then None
      else case lowest_load services max_int None of
             None \<Rightarrow> Some (services ! 0)
           | Some s \<Rightarrow> Some s)"

definition weighted_select :: "service_info list \<Rightarrow> unit \<Rightarrow> service_info option outcome \<times> unit" where
  "weighted_select services s = (Ret (weighted_Select services), s)"

section \<open>Both implement the interface\<close>

lemma rr_Select_step:
  assumes "rr_ready (Suc k) lb" and "xs \<noteq> []"
  shows "rr_Select xs lb =
    (Ret (Some (xs ! nat (rr_counter lb (si_NodeType (xs ! 0)) mod int (length xs)))),
     lb\<lparr>rr_counters := (rr_counters lb)(si_NodeType (xs ! 0) \<mapsto> rr_counter lb (si_NodeType (xs ! 0)) + 1)\<rparr>)"
proof -
  let ?c = "rr_counter lb (si_NodeType (xs ! 0))"
  have c: "0 \<le> ?c" "?c + int (Suc k) < 2 ^ 63" using assms(1) by (simp_all add: rr_ready_def)
  then have "i64 (?c + 1) = ?c + 1" by (intro i64_id) simp_all
  moreover have "\<not> ?c mod int (length xs) < 0" using assms(2) by (simp add: not_less)
  ultimately show ?thesis using c(1) assms(2) by (simp add: rr_Select_def go_rem_def Let_def)
qed

lemma rr_ready_step:
  "rr_ready (Suc k) lb \<Longrightarrow> rr_ready k (lb\<lparr>rr_counters := (rr_counters lb)(t \<mapsto> rr_counter lb t + 1)\<rparr>)"
  unfolding rr_ready_def by (auto simp: rr_counter_def) (smt (verit) option.simps)+

interpretation rr: load_balancer rr_Select rr_ready
proof unfold_locales
  fix k s and xs :: "service_info list"
  assume r: "rr_ready (Suc k) s"
  then show "rr_ready k s" by (simp add: rr_ready_def) (smt (verit, best))
  show "rr_ready k (snd (rr_Select xs s))"
    using rr_Select_step [OF r] rr_ready_step [OF r] \<open>rr_ready k s\<close>
    by (cases "xs = []") (simp_all add: rr_Select_def)
  assume ne: "xs \<noteq> []"
  have "nat (rr_counter s (si_NodeType (xs ! 0)) mod int (length xs)) < length xs"
    using ne by (simp add: nat_less_iff)
  then show "\<exists>x \<in> set xs. fst (rr_Select xs s) = Ret (Some x)"
    using rr_Select_step [OF r ne] by auto
qed (simp add: rr_Select_def)

lemma lowest_load_ne: "lowest_load ss m (Some x) \<noteq> None"
  by (induction ss arbitrary: m x) auto

lemma lowest_load_None: "lowest_load ss m None = None \<longleftrightarrow> (\<forall>s \<in> set ss. \<not> (si_Status s = ''online'' \<and> si_Load s < m))"
proof (induction ss arbitrary: m)
  case (Cons s ss)
  then show ?case using lowest_load_ne [of ss "si_Load s" s] by auto
qed simp

lemma lowest_load_Some:
  assumes "lowest_load ss m sel = Some x"
  shows "(sel = Some x \<and> (\<forall>s \<in> set ss. si_Status s = ''online'' \<longrightarrow> m \<le> si_Load s)) \<or>
    (x \<in> set ss \<and> si_Status x = ''online'' \<and> si_Load x < m \<and>
      (\<forall>s \<in> set ss. si_Status s = ''online'' \<longrightarrow> si_Load x \<le> si_Load s))"
  using assms
proof (induction ss arbitrary: m sel)
  case Nil
  then show ?case by simp
next
  case (Cons s ss)
  show ?case
  proof (cases "si_Status s = ''online'' \<and> si_Load s < m")
    case True
    then have "lowest_load ss (si_Load s) (Some s) = Some x" using Cons.prems by simp
    from Cons.IH [OF this] True show ?thesis by auto
  next
    case False
    then have "lowest_load ss m sel = Some x" using Cons.prems by (auto split: if_splits)
    from Cons.IH [OF this] False show ?thesis by auto
  qed
qed

lemma weighted_Select_mem: "xs \<noteq> [] \<Longrightarrow> \<exists>x \<in> set xs. weighted_Select xs = Some x"
proof (cases "lowest_load xs max_int None")
  case (Some x)
  moreover assume "xs \<noteq> []"
  ultimately show ?thesis using lowest_load_Some [OF Some] by (simp add: weighted_Select_def)
qed (simp add: weighted_Select_def)

interpretation weighted: load_balancer weighted_select "\<lambda>k s. True"
proof unfold_locales
  fix xs :: "service_info list" and s :: unit
  assume "xs \<noteq> []"
  then show "\<exists>x \<in> set xs. fst (weighted_select xs s) = Ret (Some x)"
    using weighted_Select_mem [of xs] by (auto simp: weighted_select_def)
qed (simp_all add: weighted_select_def weighted_Select_def)

section \<open>Properties\<close>

lemma mset_rotate: "mset (rotate n xs) = mset xs"
proof (induction n)
  case (Suc n)
  have "mset (rotate1 ys) = mset ys" for ys :: "'a list" by (cases ys) simp_all
  with Suc show ?case by simp
qed simp

lemma rr_run_same:
  assumes "rr_ready n lb" and "xs \<noteq> []"
  shows "fst (rr.select_run (replicate n xs) lb) =
    map (\<lambda>i. Ret (Some (xs ! nat ((rr_counter lb (si_NodeType (xs ! 0)) + int i) mod int (length xs))))) [0..<n]"
  using assms(1)
proof (induction n arbitrary: lb)
  case 0
  then show ?case by simp
next
  case (Suc n)
  let ?t = "si_NodeType (xs ! 0)"
  let ?lb = "lb\<lparr>rr_counters := (rr_counters lb)(?t \<mapsto> rr_counter lb ?t + 1)\<rparr>"
  have c: "rr_counter ?lb ?t = rr_counter lb ?t + 1" by (simp add: rr_counter_def)
  have ih: "fst (rr.select_run (replicate n xs) ?lb) =
    map (\<lambda>i. Ret (Some (xs ! nat ((rr_counter ?lb ?t + int i) mod int (length xs))))) [0..<n]"
    by (rule Suc.IH) (rule rr_ready_step [OF Suc.prems])
  have "[0..<Suc n] = 0 # map Suc [0..<n]" by (simp add: map_Suc_upt upt_conv_Cons del: upt_Suc)
  then show ?case using ih rr_Select_step [OF Suc.prems assms(2)] c
    by (simp add: split_beta algebra_simps del: upt_Suc)
qed

text \<open>
  C29. Round robin is fair: as many consecutive selections as there are services, on the same
  list and from any counter that does not overflow, select every service exactly once and never
  panic.
\<close>

theorem round_robin_fair:
  assumes "rr_ready (length xs) lb"
  shows "mset (fst (rr.select_run (replicate (length xs) xs) lb)) = image_mset (\<lambda>x. Ret (Some x)) (mset xs)"
proof (cases "xs = []")
  case False
  let ?c = "rr_counter lb (si_NodeType (xs ! 0))"
  have c: "0 \<le> ?c" using assms by (simp add: rr_ready_def)
  have nat: "nat ((?c + int i) mod int (length xs)) = (nat ?c + i) mod length xs" for i
    using c by (simp add: nat_mod_distrib nat_add_distrib)
  have "map (\<lambda>i. xs ! ((nat ?c + i) mod length xs)) [0..<length xs] = rotate (nat ?c) xs"
    by (rule nth_equalityI) (simp_all add: nth_rotate)
  then have "map (\<lambda>i. Ret (Some (xs ! nat ((?c + int i) mod int (length xs))))) [0..<length xs] =
    map (\<lambda>x. Ret (Some x)) (rotate (nat ?c) xs)"
    using nat by (metis (no_types, lifting) map_map comp_apply map_eq_conv)
  then show ?thesis using rr_run_same [OF assms False] by (simp add: mset_rotate)
qed simp

text \<open>
  C23. The weighted balancer returns a service that is online and has the lowest load among the
  online ones, whenever an online one has a load below the largest int; otherwise it returns
  the first service, whatever its status.
\<close>

theorem weighted_select_lowest:
  assumes "xs \<noteq> []"
  shows "\<exists>x \<in> set xs. weighted_Select xs = Some x \<and>
    (if \<exists>s \<in> set xs. si_Status s = ''online'' \<and> si_Load s < max_int
     then si_Status x = ''online'' \<and> (\<forall>s \<in> set xs. si_Status s = ''online'' \<longrightarrow> si_Load x \<le> si_Load s)
     else x = hd xs)"
proof (cases "lowest_load xs max_int None")
  case None
  then have "\<not> (\<exists>s \<in> set xs. si_Status s = ''online'' \<and> si_Load s < max_int)"
    by (simp add: lowest_load_None)
  then show ?thesis using None assms by (simp add: weighted_Select_def hd_conv_nth) (metis hd_conv_nth hd_in_set)
next
  case (Some x)
  then show ?thesis using lowest_load_Some [OF Some] assms by (auto simp: weighted_Select_def)
qed

definition demo_service :: "string \<Rightarrow> string \<Rightarrow> int \<Rightarrow> service_info" where
  "demo_service i st ld = \<lparr>si_NodeID = i, si_NodeType = ''game'', si_Address = ''h'', si_Port = 9000,
     si_Load = ld, si_Status = st, si_Metadata = Some [], si_UpdateTime = 0\<rparr>"

theorem round_robin_fair_witness:
  "let xs = [demo_service ''a'' ''online'' 1, demo_service ''b'' ''online'' 2]
   in mset (fst (rr.select_run [xs, xs] NewRoundRobinLoadBalancer)) =
      {#Ret (Some (xs ! 0)), Ret (Some (xs ! 1))#}"
proof -
  let ?xs = "[demo_service ''a'' ''online'' 1, demo_service ''b'' ''online'' 2]"
  have "rr_ready (length ?xs) NewRoundRobinLoadBalancer"
    by (simp add: rr_ready_def rr_counter_def NewRoundRobinLoadBalancer_def)
  from round_robin_fair [OF this] show ?thesis by (simp add: numeral_2_eq_2)
qed

theorem weighted_select_lowest_witness:
  "weighted_Select [demo_service ''a'' ''offline'' 1, demo_service ''b'' ''online'' 9, demo_service ''c'' ''online'' 4]
   = Some (demo_service ''c'' ''online'' 4)"
proof -
  let ?xs = "[demo_service ''a'' ''offline'' 1, demo_service ''b'' ''online'' 9, demo_service ''c'' ''online'' 4]"
  have "\<exists>x \<in> set ?xs. weighted_Select ?xs = Some x \<and>
    (if \<exists>s \<in> set ?xs. si_Status s = ''online'' \<and> si_Load s < max_int
     then si_Status x = ''online'' \<and> (\<forall>s \<in> set ?xs. si_Status s = ''online'' \<longrightarrow> si_Load x \<le> si_Load s)
     else x = hd ?xs)"
    by (rule weighted_select_lowest) simp
  then show ?thesis by (auto simp: demo_service_def max_int_def split: if_splits)
qed

end
