(* ===== verification/Discovery.thy ===== *)
theory Discovery
  imports Balancer "HOL-Library.AList"
begin

text \<open>
  Service registration and discovery, \<open>internal/discovery/etcd.go\<close>. The etcd client and the
  JSON codec are a parameter: a record of the calls made, each given whether the registry's context
  is done; stored values have an abstract type, because the code only passes them through. What etcd
  and \<open>encoding/json\<close> document is the locale \<open>etcd_client\<close>.
\<close>

section \<open>Configuration\<close>

record etcd_config =
  ec_Endpoints :: "string list"
  ec_DialTimeout :: duration
  ec_Username :: string
  ec_Password :: string
  ec_TLSEnabled :: bool
  ec_TLSCertFile :: string
  ec_TLSKeyFile :: string
  ec_TLSCAFile :: string
  ec_TLSInsecure :: bool
  ec_AutoSyncInterval :: duration
  ec_DialKeepAliveTime :: duration
  ec_DialKeepAliveTimeout :: duration
  ec_MaxCallSendMsgSize :: int
  ec_MaxCallRecvMsgSize :: int

record ('c, 'p) tls_config =
  tls_Insecure :: bool
  tls_Certificates :: "'c list"
  tls_RootCAs :: "'p option"

datatype tls_error = ClientCertFailed | ReadCAFailed | ParseCAFailed

text \<open>\<open>tls.LoadX509KeyPair\<close>, \<open>ioutil.ReadFile\<close> and the PEM parser are parameters.\<close>

definition buildETCDTLSConfig ::
  "(string \<Rightarrow> string \<Rightarrow> 'c option) \<Rightarrow> (string \<Rightarrow> bytes option) \<Rightarrow> (bytes \<Rightarrow> 'p option) \<Rightarrow> etcd_config \<Rightarrow>
   tls_error + ('c, 'p) tls_config" where
  "buildETCDTLSConfig load_pair read_file parse_pem config =
     (let tls0 = \<lparr>tls_Insecure = ec_TLSInsecure config, tls_Certificates = [], tls_RootCAs = None\<rparr>;
          with_cert = (if ec_TLSCertFile config \<noteq> '''' \<and> ec_TLSKeyFile config \<noteq> ''''
            then (case load_pair (ec_TLSCertFile config) (ec_TLSKeyFile config) of
                    None \<Rightarrow> Inl ClientCertFailed
                  | Some cert \<Rightarrow> Inr (tls0\<lparr>tls_Certificates := [cert]\<rparr>))
            else Inr tls0)
      in case with_cert of
           Inl e \<Rightarrow> Inl e
         | Inr tls1 \<Rightarrow>
             if ec_TLSCAFile config \<noteq> ''''
             then (case read_file (ec_TLSCAFile config) of
                     None \<Rightarrow> Inl ReadCAFailed
                   | Some pem \<Rightarrow> (case parse_pem pem of
                       None \<Rightarrow> Inl ParseCAFailed
                     | Some cas \<Rightarrow> Inr (tls1\<lparr>tls_RootCAs := Some cas\<rparr>)))
             else Inr tls1)"

record ('c, 'p) client_config =
  cc_base :: etcd_config
  cc_Username :: string
  cc_Password :: string
  cc_TLS :: "('c, 'p) tls_config option"

definition etcd_client_config ::
  "(string \<Rightarrow> string \<Rightarrow> 'c option) \<Rightarrow> (string \<Rightarrow> bytes option) \<Rightarrow> (bytes \<Rightarrow> 'p option) \<Rightarrow> etcd_config \<Rightarrow>
   tls_error + ('c, 'p) client_config" where
  "etcd_client_config load_pair read_file parse_pem config =
     (let creds = ec_Username config \<noteq> '''' \<and> ec_Password config \<noteq> '''';
          cc = \<lparr>cc_base = config, cc_Username = (if creds then ec_Username config else ''''),
                cc_Password = (if creds then ec_Password config else ''''), cc_TLS = None\<rparr>
      in if ec_TLSEnabled config
         then (case buildETCDTLSConfig load_pair read_file parse_pem config of
                 Inl e \<Rightarrow> Inl e
               | Inr tls \<Rightarrow> Inr (cc\<lparr>cc_TLS := Some tls\<rparr>))
         else Inr cc)"

section \<open>The client and the registry\<close>

record ('v, 'd) etcd =
  et_Grant :: "bool \<Rightarrow> int \<Rightarrow> 'd \<Rightarrow> int option \<times> 'd"
  et_KeepAlive :: "bool \<Rightarrow> int \<Rightarrow> 'd \<Rightarrow> bool \<times> 'd"
  et_Put :: "bool \<Rightarrow> string \<Rightarrow> 'v \<Rightarrow> int \<Rightarrow> 'd \<Rightarrow> bool \<times> 'd"
  et_Delete :: "bool \<Rightarrow> string \<Rightarrow> 'd \<Rightarrow> bool \<times> 'd"
  et_GetPrefix :: "bool \<Rightarrow> string \<Rightarrow> 'd \<Rightarrow> (string \<times> 'v) list option \<times> 'd"
  et_Revoke :: "bool \<Rightarrow> int \<Rightarrow> 'd \<Rightarrow> bool \<times> 'd"
  et_Close :: "'d \<Rightarrow> bool \<times> 'd"
  et_marshal :: "service_info \<Rightarrow> 'v option"
  et_unmarshal :: "'v \<Rightarrow> service_info option"

text \<open>
  \<open>rg_locked\<close>: the registry's mutex is held by a goroutine that will not release it.
  Callbacks of watchers are known by number.
\<close>

record registry =
  rg_leaseID :: int
  rg_ctxDone :: bool
  rg_locked :: bool
  rg_services :: "string \<rightharpoonup> service_info"
  rg_watchers :: "string \<Rightarrow> nat list"
  rg_keyPrefix :: string

datatype reg_error = LeaseFailed | KeepAliveFailed | MarshalFailed | EtcdFailed | ServiceNotFound

definition createLease :: "('v, 'd) etcd \<Rightarrow> registry \<Rightarrow> 'd \<Rightarrow> reg_error option \<times> registry \<times> 'd" where
  "createLease et rg d =
     (case et_Grant et (rg_ctxDone rg) 30 d of
        (None, d1) \<Rightarrow> (Some LeaseFailed, rg, d1)
      | (Some lease, d1) \<Rightarrow>
          (let rg1 = rg\<lparr>rg_leaseID := lease\<rparr>;
               (ok, d2) = et_KeepAlive et (rg_ctxDone rg) lease d1
           in (if ok then None else Some KeepAliveFailed, rg1, d2)))"

definition NewETCDRegistry :: "('v, 'd) etcd \<Rightarrow> 'd \<Rightarrow> (reg_error + registry) \<times> 'd" where
  "NewETCDRegistry et d =
     (let rg = \<lparr>rg_leaseID = 0, rg_ctxDone = False, rg_locked = False, rg_services = Map.empty,
                rg_watchers = (\<lambda>t. []), rg_keyPrefix = ''/lufy/services/''\<rparr>
      in case createLease et rg d of
           (Some e, rg1, d1) \<Rightarrow> (Inl e, snd (et_Close et d1))
         | (None, rg1, d1) \<Rightarrow> (Inr rg1, d1))"

text \<open>One round of \<open>keepAliveLoop\<close>: the response received, nil when the channel is closed.\<close>

definition keepAlive_round :: "('v, 'd) etcd \<Rightarrow> unit option \<Rightarrow> registry \<Rightarrow> 'd \<Rightarrow> registry \<times> 'd" where
  "keepAlive_round et resp rg d =
     (case resp of
        Some _ \<Rightarrow> (rg, d)
      | None \<Rightarrow> (let (_, rg1, d1) = createLease et rg d in (rg1, d1)))"

text \<open>The members' client URLs: how many members count as healthy, and whether the loop warns.\<close>

definition cluster_health :: "string list list \<Rightarrow> nat \<times> bool" where
  "cluster_health members =
     (let healthy = length (filter (\<lambda>urls. urls \<noteq> []) members)
      in (healthy, healthy < length members div 2 + 1))"

text \<open>The loop around it, with the member list of each tick or None where it cannot be read; it only logs.\<close>

definition clusterHealthCheck ::
  "string list list option loop_event list \<Rightarrow> (nat \<times> bool) list \<Rightarrow> (nat \<times> bool) list loop_result" where
  "clusterHealthCheck = ticker_loop (\<lambda>members logged. Ret (case members of
     None \<Rightarrow> logged | Some ms \<Rightarrow> logged @ [cluster_health ms]))"

section \<open>Registration\<close>

text \<open>
  In Go \<open>Register\<close> takes a pointer, sets \<open>UpdateTime\<close> in the caller's own object and caches that
  pointer. The only caller outside the registry, \<open>BaseServer.Start\<close>, builds the object for the call and
  never looks at it again, and \<open>UpdateLoad\<close> changes the cached one, as it does here, so the
  argument can be a value.
\<close>

definition service_key :: "registry \<Rightarrow> string \<Rightarrow> string \<Rightarrow> string" where
  "service_key rg nodeType nodeID = rg_keyPrefix rg @ nodeType @ ''/'' @ nodeID"

definition Register ::
  "('v, 'd) etcd \<Rightarrow> time \<Rightarrow> service_info \<Rightarrow> registry \<Rightarrow> 'd \<Rightarrow> reg_error option outcome \<times> registry \<times> 'd" where
  "Register et now info0 rg d =
     (if rg_locked rg then (Blocked, rg, d)
      else (let info = info0\<lparr>si_UpdateTime := unix now\<rparr>;
                key = service_key rg (si_NodeType info) (si_NodeID info)
            in case et_marshal et info of
                 None \<Rightarrow> (Ret (Some MarshalFailed), rg, d)
               | Some data \<Rightarrow>
                   (let (ok, d1) = et_Put et (rg_ctxDone rg) key data (rg_leaseID rg) d
                    in if \<not> ok then (Ret (Some EtcdFailed), rg, d1)
                       else (Ret None, rg\<lparr>rg_services := (rg_services rg)(si_NodeID info \<mapsto> info)\<rparr>, d1))))"

definition Unregister ::
  "('v, 'd) etcd \<Rightarrow> string \<Rightarrow> registry \<Rightarrow> 'd \<Rightarrow> reg_error option outcome \<times> registry \<times> 'd" where
  "Unregister et nodeID rg d =
     (if rg_locked rg then (Blocked, rg, d)
      else case rg_services rg nodeID of
        None \<Rightarrow> (Ret (Some ServiceNotFound), rg, d)
      | Some info \<Rightarrow>
          (let (ok, d1) = et_Delete et (rg_ctxDone rg) (service_key rg (si_NodeType info) nodeID) d
           in if \<not> ok then (Ret (Some EtcdFailed), rg, d1)
              else (Ret None, rg\<lparr>rg_services := (rg_services rg)(nodeID := None)\<rparr>, d1)))"

text \<open>
  \<open>UpdateLoad\<close> takes the lock, changes the cached description in place and calls
  \<open>Register\<close>; its deferred unlock runs when that returns.
\<close>

definition UpdateLoad ::
  "('v, 'd) etcd \<Rightarrow> (nat \<Rightarrow> time) \<Rightarrow> string \<Rightarrow> int \<Rightarrow> registry \<Rightarrow> 'd \<Rightarrow>
   reg_error option outcome \<times> registry \<times> 'd" where
  "UpdateLoad et now nodeID ld rg d =
     (if rg_locked rg then (Blocked, rg, d)
      else (let rg1 = rg\<lparr>rg_locked := True\<rparr>
            in case rg_services rg1 nodeID of
                 None \<Rightarrow> (Ret (Some ServiceNotFound), rg1\<lparr>rg_locked := False\<rparr>, d)
               | Some info \<Rightarrow>
                   (let info1 = info\<lparr>si_Load := ld, si_UpdateTime := unix (now 0)\<rparr>;
                        rg2 = rg1\<lparr>rg_services := (rg_services rg1)(nodeID \<mapsto> info1)\<rparr>
                    in case Register et (now 1) info1 rg2 d of
                         (Ret e, rg3, d1) \<Rightarrow> (Ret e, rg3\<lparr>rg_locked := False\<rparr>, d1)
                       | (Panic p, rg3, d1) \<Rightarrow> (Panic p, rg3\<lparr>rg_locked := False\<rparr>, d1)
                       | (Blocked, rg3, d1) \<Rightarrow> (Blocked, rg3, d1))))"

section \<open>Queries\<close>

definition decode_all :: "('v, 'd) etcd \<Rightarrow> (string \<times> 'v) list \<Rightarrow> service_info list" where
  "decode_all et kvs = List.map_filter (\<lambda>kv. et_unmarshal et (snd kv)) kvs"

definition GetServices ::
  "('v, 'd) etcd \<Rightarrow> string \<Rightarrow> registry \<Rightarrow> 'd \<Rightarrow> service_info list option \<times> 'd" where
  "GetServices et nodeType rg d =
     (let (res, d1) = et_GetPrefix et (rg_ctxDone rg) (service_key rg nodeType '''') d
      in (map_option (decode_all et) res, d1))"

definition reg_GetService ::
  "('v, 'd) etcd \<Rightarrow> string \<Rightarrow> registry \<Rightarrow> 'd \<Rightarrow> (reg_error + service_info) outcome \<times> 'd" where
  "reg_GetService et nodeID rg d =
     (if rg_locked rg then (Blocked, d)
      else case rg_services rg nodeID of
        Some info \<Rightarrow> (Ret (Inr info), d)
      | None \<Rightarrow>
          (case et_GetPrefix et (rg_ctxDone rg) (rg_keyPrefix rg) d of
             (None, d1) \<Rightarrow> (Ret (Inl EtcdFailed), d1)
           | (Some kvs, d1) \<Rightarrow>
               (case List.find (\<lambda>i. si_NodeID i = nodeID) (decode_all et kvs) of
                  Some info \<Rightarrow> (Ret (Inr info), d1)
                | None \<Rightarrow> (Ret (Inl ServiceNotFound), d1))))"

section \<open>Watching and closing\<close>

definition Watch :: "string \<Rightarrow> nat \<Rightarrow> registry \<Rightarrow> registry outcome" where
  "Watch nodeType cb rg =
     (if rg_locked rg then Blocked
      else Ret (rg\<lparr>rg_watchers := (rg_watchers rg)(nodeType := rg_watchers rg nodeType @ [cb])\<rparr>))"

text \<open>What one watching goroutine does with a change: the callbacks it starts.\<close>

definition watch_event ::
  "('v, 'd) etcd \<Rightarrow> string \<Rightarrow> registry \<Rightarrow> 'd \<Rightarrow> (nat \<times> service_info list) list \<times> 'd" where
  "watch_event et nodeType rg d =
     (case GetServices et nodeType rg d of
        (None, d1) \<Rightarrow> ([], d1)
      | (Some services, d1) \<Rightarrow> (map (\<lambda>cb. (cb, services)) (rg_watchers rg nodeType), d1))"

text \<open>Every \<open>Watch\<close> of the type has its own goroutine, and each of them sees the change.\<close>

fun watch_goroutines ::
  "('v, 'd) etcd \<Rightarrow> string \<Rightarrow> registry \<Rightarrow> nat list \<Rightarrow> 'd \<Rightarrow> (nat \<times> service_info list) list \<times> 'd" where
  "watch_goroutines et nodeType rg [] d = ([], d)"
| "watch_goroutines et nodeType rg (_ # gs) d =
     (let (calls, d1) = watch_event et nodeType rg d; (rest, d2) = watch_goroutines et nodeType rg gs d1
      in (calls @ rest, d2))"

definition watch_change ::
  "('v, 'd) etcd \<Rightarrow> string \<Rightarrow> registry \<Rightarrow> 'd \<Rightarrow> (nat \<times> service_info list) list \<times> 'd" where
  "watch_change et nodeType rg d = watch_goroutines et nodeType rg (rg_watchers rg nodeType) d"

definition registry_Close :: "('v, 'd) etcd \<Rightarrow> registry \<Rightarrow> 'd \<Rightarrow> bool \<times> registry \<times> 'd" where
  "registry_Close et rg d =
     (let rg1 = rg\<lparr>rg_ctxDone := True\<rparr>;
          d1 = (if rg_leaseID rg1 \<noteq> 0 then snd (et_Revoke et (rg_ctxDone rg1) (rg_leaseID rg1) d) else d);
          (ok, d2) = et_Close et d1
      in (ok, rg1, d2))"

section \<open>Discovery\<close>

text \<open>
  \<open>ServiceDiscovery\<close> over any \<open>ServiceRegistry\<close> (its \<open>GetServices\<close>, on a state
  \<open>'r\<close>) and any \<open>LoadBalancer\<close> (on a state \<open>'b\<close>).
\<close>

record discovery =
  sd_nodeType :: string
  sd_cache :: "string \<rightharpoonup> service_info list"

definition NewServiceDiscovery :: "string \<Rightarrow> discovery" where
  "NewServiceDiscovery nodeType = \<lparr>sd_nodeType = nodeType, sd_cache = Map.empty\<rparr>"

text \<open>The callback it registers with \<open>Watch\<close>.\<close>

definition cache_callback :: "service_info list \<Rightarrow> discovery \<Rightarrow> discovery" where
  "cache_callback services sd = sd\<lparr>sd_cache := (sd_cache sd)(sd_nodeType sd \<mapsto> services)\<rparr>"

definition sd_GetService ::
  "(string \<Rightarrow> 'r \<Rightarrow> service_info list option \<times> 'r) \<Rightarrow>
   (service_info list \<Rightarrow> 'b \<Rightarrow> service_info option outcome \<times> 'b) \<Rightarrow>
   string \<Rightarrow> discovery \<Rightarrow> 'b \<Rightarrow> 'r \<Rightarrow> service_info option outcome \<times> discovery \<times> 'b \<times> 'r" where
  "sd_GetService fetch select nodeType sd b r =
     (case sd_cache sd nodeType of
        Some (s # ss) \<Rightarrow> (let (x, b1) = select (s # ss) b in (x, sd, b1, r))
      | _ \<Rightarrow>
          (case fetch nodeType r of
             (None, r1) \<Rightarrow> (Ret None, sd, b, r1)
           | (Some fresh, r1) \<Rightarrow>
               (let sd1 = sd\<lparr>sd_cache := (sd_cache sd)(nodeType \<mapsto> fresh)\<rparr>; (x, b1) = select fresh b
                in (x, sd1, b1, r1))))"

definition sd_GetAllServices ::
  "(string \<Rightarrow> 'r \<Rightarrow> service_info list option \<times> 'r) \<Rightarrow> string \<Rightarrow> discovery \<Rightarrow> 'r \<Rightarrow>
   service_info list \<times> discovery \<times> 'r" where
  "sd_GetAllServices fetch nodeType sd r =
     (case sd_cache sd nodeType of
        Some ss \<Rightarrow> (ss, sd, r)
      | None \<Rightarrow>
          (case fetch nodeType r of
             (None, r1) \<Rightarrow> ([], sd, r1)
           | (Some fresh, r1) \<Rightarrow> (fresh, sd\<lparr>sd_cache := (sd_cache sd)(nodeType \<mapsto> fresh)\<rparr>, r1)))"

text \<open>A tick of \<open>updateCacheLoop\<close>, over the cached types in some order.\<close>

fun update_cache ::
  "(string \<Rightarrow> 'r \<Rightarrow> service_info list option \<times> 'r) \<Rightarrow> string list \<Rightarrow> discovery \<Rightarrow> 'r \<Rightarrow> discovery \<times> 'r" where
  "update_cache fetch [] sd r = (sd, r)"
| "update_cache fetch (t # ts) sd r =
     (case fetch t r of
        (None, r1) \<Rightarrow> update_cache fetch ts sd r1
      | (Some services, r1) \<Rightarrow>
          update_cache fetch ts (sd\<lparr>sd_cache := (sd_cache sd)(t \<mapsto> services)\<rparr>) r1)"

text \<open>
  \<open>updateCacheLoop\<close> ranges over the ticker's channel, which \<open>Stop\<close> does not close: there
  is no \<open>Done\<close>. A tick has the cached types in the order the range visits them.
\<close>

definition updateCacheLoop ::
  "(string \<Rightarrow> 'r \<Rightarrow> service_info list option \<times> 'r) \<Rightarrow> string list list \<Rightarrow> discovery \<times> 'r \<Rightarrow> (discovery \<times> 'r) loop_result" where
  "updateCacheLoop fetch ticks = ticker_loop (\<lambda>ts (sd, r). Ret (update_cache fetch ts sd r)) (map Tick ticks)"

definition sd_Close :: "('r \<Rightarrow> bool \<times> 'r) \<Rightarrow> 'r \<Rightarrow> bool \<times> 'r" where
  "sd_Close registryClose r = registryClose r"

lemma updateCacheLoop_waits: "\<exists>s'. updateCacheLoop fetch ticks s = Waiting s'"
  unfolding updateCacheLoop_def
  by (rule exI, rule ticker_loop_fold(1) [where f = "\<lambda>ts s. update_cache fetch ts (fst s) (snd s)"]) (simp add: case_prod_beta)

section \<open>What the client documents\<close>

definition has_prefix :: "string \<Rightarrow> string \<Rightarrow> bool" where
  "has_prefix p k \<longleftrightarrow> take (length p) k = p"

text \<open>
  The view of a store is its keys and values. A write that reports success is done; one that
  reports an error may have been applied; with a done context no call has an effect. In
  \<open>etcd_client\<close> the codec reads back what it wrote.
\<close>

locale etcd_store =
  fixes et :: "('v, 'd) etcd"
    and view :: "'d \<Rightarrow> string \<rightharpoonup> 'v"
  assumes put: "et_Put et c k v l d = (ok, d') \<Longrightarrow>
      (view d' = (view d)(k \<mapsto> v) \<and> \<not> c) \<or> (\<not> ok \<and> view d' = view d)"
    and delete: "et_Delete et c k d = (ok, d') \<Longrightarrow>
      (view d' = (view d)(k := None) \<and> \<not> c) \<or> (\<not> ok \<and> view d' = view d)"
    and get: "et_GetPrefix et c p d = (res, d') \<Longrightarrow> view d' = view d \<and>
      (\<forall>kvs. res = Some kvs \<longrightarrow> distinct (map fst kvs) \<and>
         set kvs = {(k, v). view d k = Some v \<and> has_prefix p k})"
    and revoke: "et_Revoke et True l d = (ok, d') \<Longrightarrow> \<not> ok \<and> view d' = view d"
    and close: "view (snd (et_Close et d)) = view d"

locale etcd_client = etcd_store et view for et :: "('v, 'd) etcd" and view :: "'d \<Rightarrow> string \<rightharpoonup> 'v" +
  assumes codec: "et_marshal et i = Some v \<Longrightarrow> et_unmarshal et v = Some i"

section \<open>The ServiceRegistry contract\<close>

text \<open>
  An abstract registry is a map from type and id to a description. Types have no slash, because the
  keys are built with it.
\<close>

type_synonym services = "string \<times> string \<rightharpoonup> service_info"

abbreviation plain :: "string \<Rightarrow> bool" where
  "plain t \<equiv> CHR ''/'' \<notin> set t"

definition of_type :: "services \<Rightarrow> string \<Rightarrow> service_info set" where
  "of_type m t = {i. m (t, si_NodeID i) = Some i}"

definition keyed :: "services \<Rightarrow> bool" where
  "keyed m \<longleftrightarrow> (\<forall>t n i. m (t, n) = Some i \<longrightarrow> si_NodeType i = t \<and> si_NodeID i = n \<and> plain t)"

locale service_registry =
  fixes register :: "time \<Rightarrow> service_info \<Rightarrow> 's \<Rightarrow> reg_error option outcome \<times> 's"
    and unregister :: "string \<Rightarrow> 's \<Rightarrow> reg_error option outcome \<times> 's"
    and get_services :: "string \<Rightarrow> 's \<Rightarrow> service_info list option \<times> 's"
    and invar :: "'s \<Rightarrow> bool"
    and services :: "'s \<Rightarrow> services"
  assumes register_law: "register now i s = (r, s') \<Longrightarrow> invar s \<Longrightarrow> plain (si_NodeType i) \<Longrightarrow> invar s' \<and>
      (services s' = (services s)((si_NodeType i, si_NodeID i) \<mapsto> i\<lparr>si_UpdateTime := unix now\<rparr>) \<or>
       r \<noteq> Ret None \<and> services s' = services s)"
    and unregister_law: "unregister n s = (r, s') \<Longrightarrow> invar s \<Longrightarrow> invar s' \<and>
      (\<exists>t. services s' = (services s)((t, n) := None) \<or> r \<noteq> Ret None \<and> services s' = services s)"
    and get_law: "get_services t s = (res, s') \<Longrightarrow> invar s \<Longrightarrow> plain t \<Longrightarrow> invar s' \<and>
      services s' = services s \<and> (\<forall>xs. res = Some xs \<longrightarrow> set xs = of_type (services s) t)"
    and keyed: "invar s \<Longrightarrow> keyed (services s)"
begin

lemma register_get:
  assumes "register now i s = (Ret None, s1)" and "invar s" and "plain (si_NodeType i)"
    and "get_services (si_NodeType i) s1 = (Some xs, s2)"
  shows "i\<lparr>si_UpdateTime := unix now\<rparr> \<in> set xs"
  using register_law [OF assms(1-3)] get_law [OF assms(4)] assms(3) by (auto simp: of_type_def)

text \<open>Discovery returns a cached service, or one that is registered.\<close>

lemma discovery_sound:
  assumes lb: "load_balancer select ready" and "ready (Suc k) b" and "invar s" and "plain t"
    and "sd_GetService get_services select t sd b s = (Ret (Some x), sd', b', s')"
  shows "(\<exists>cs. sd_cache sd t = Some cs \<and> x \<in> set cs) \<or> services s (t, si_NodeID x) = Some x"
proof -
  have sel: "x \<in> set xs" if "select xs b = (Ret (Some x), b1)" for xs b1
  proof (cases "xs = []")
    case True
    then show ?thesis using that load_balancer.select_Nil [OF lb, of b] by simp
  next
    case False
    then show ?thesis using that load_balancer.select_mem [OF lb assms(2) False] by auto
  qed
  have fresh: "services s (t, si_NodeID x) = Some x"
    if "get_services t s = (Some xs, s1)" "x \<in> set xs" for xs s1
    using get_law [OF that(1) assms(3,4)] that(2) by (auto simp: of_type_def)
  show ?thesis
  proof (cases "sd_cache sd t")
    case None
    then show ?thesis using assms(5) sel fresh
      by (auto simp: sd_GetService_def Let_def split: prod.splits option.splits)
  next
    case (Some cs)
    show ?thesis
    proof (cases cs)
      case Nil
      then show ?thesis using Some assms(5) sel fresh
        by (auto simp: sd_GetService_def Let_def split: prod.splits option.splits)
    next
      case (Cons c cs')
      then have "select cs b = (Ret (Some x), b')"
        using Some assms(5) by (auto simp: sd_GetService_def split: prod.splits)
      then show ?thesis using Some sel by blast
    qed
  qed
qed

end

section \<open>The etcd registry implements it\<close>

definition etcd_register ::
  "('v, 'd) etcd \<Rightarrow> time \<Rightarrow> service_info \<Rightarrow> registry \<times> 'd \<Rightarrow> reg_error option outcome \<times> registry \<times> 'd" where
  "etcd_register et now i s = Register et now i (fst s) (snd s)"

definition etcd_unregister ::
  "('v, 'd) etcd \<Rightarrow> string \<Rightarrow> registry \<times> 'd \<Rightarrow> reg_error option outcome \<times> registry \<times> 'd" where
  "etcd_unregister et n s = Unregister et n (fst s) (snd s)"

definition etcd_services ::
  "('v, 'd) etcd \<Rightarrow> string \<Rightarrow> registry \<times> 'd \<Rightarrow> service_info list option \<times> registry \<times> 'd" where
  "etcd_services et t s = (let (r, d') = GetServices et t (fst s) (snd s) in (r, fst s, d'))"

lemma service_key_inj:
  assumes "plain t" and "plain t'"
  shows "service_key rg t n = service_key rg t' n' \<longleftrightarrow> t = t' \<and> n = n'"
proof -
  have "t @ CHR ''/'' # n = t' @ CHR ''/'' # n' \<Longrightarrow> t = t' \<and> n = n'"
    using assms
  proof (induction t arbitrary: t')
    case Nil
    then show ?case by (cases t') auto
  next
    case (Cons c t)
    then show ?case by (cases t') auto
  qed
  then show ?thesis by (auto simp: service_key_def)
qed

lemma service_key_prefix:
  assumes "plain t" and "plain t'"
  shows "has_prefix (service_key rg t '''') (service_key rg t' n) \<longleftrightarrow> t = t'"
proof
  assume "has_prefix (service_key rg t '''') (service_key rg t' n)"
  then obtain m where "service_key rg t' n = service_key rg t '''' @ m"
    unfolding has_prefix_def by (metis append_take_drop_id)
  then have "service_key rg t' n = service_key rg t m" by (simp add: service_key_def)
  then show "t = t'" using assms service_key_inj by metis
qed (simp add: has_prefix_def service_key_def)

definition etcd_abs :: "('v, 'd) etcd \<Rightarrow> ('d \<Rightarrow> string \<rightharpoonup> 'v) \<Rightarrow> registry \<times> 'd \<Rightarrow> services" where
  "etcd_abs et view s = (\<lambda>(t, n). if plain t
     then (case view (snd s) (service_key (fst s) t n) of None \<Rightarrow> None | Some v \<Rightarrow> et_unmarshal et v) else None)"

text \<open>Every stored description sits under its own key; so do the local ones.\<close>

definition etcd_ok :: "('v, 'd) etcd \<Rightarrow> ('d \<Rightarrow> string \<rightharpoonup> 'v) \<Rightarrow> registry \<times> 'd \<Rightarrow> bool" where
  "etcd_ok et view s \<longleftrightarrow>
     (\<forall>k v i. view (snd s) k = Some v \<longrightarrow> et_unmarshal et v = Some i \<longrightarrow>
        k = service_key (fst s) (si_NodeType i) (si_NodeID i) \<and> plain (si_NodeType i)) \<and>
     (\<forall>n i. rg_services (fst s) n = Some i \<longrightarrow> si_NodeID i = n \<and> plain (si_NodeType i))"

lemma etcd_ok_D:
  assumes "etcd_ok et view s" and "view (snd s) k = Some v" and "et_unmarshal et v = Some i"
  shows "k = service_key (fst s) (si_NodeType i) (si_NodeID i)" and "plain (si_NodeType i)"
  using assms unfolding etcd_ok_def by blast+

lemma etcd_ok_local:
  "etcd_ok et view s \<Longrightarrow> rg_services (fst s) n = Some i \<Longrightarrow> si_NodeID i = n \<and> plain (si_NodeType i)"
  unfolding etcd_ok_def by blast

lemma service_key_cong [simp]:
  "service_key (rg\<lparr>rg_services := f\<rparr>) t n = service_key rg t n"
  by (simp add: service_key_def)

lemma etcd_abs_Some:
  assumes "etcd_ok et view s" and "etcd_abs et view s (t, n) = Some i"
  shows "si_NodeType i = t" and "si_NodeID i = n" and "plain t"
proof -
  obtain v where v: "view (snd s) (service_key (fst s) t n) = Some v" "et_unmarshal et v = Some i" "plain t"
    using assms(2) by (auto simp: etcd_abs_def split: option.splits if_splits)
  have "si_NodeType i = t \<and> si_NodeID i = n"
    using etcd_ok_D [OF assms(1) v(1,2)] v(3) service_key_inj by metis
  then show "si_NodeType i = t" "si_NodeID i = n" "plain t" using v(3) by simp_all
qed

lemma decode_all_set: "i \<in> set (decode_all et kvs) \<longleftrightarrow> (\<exists>k v. (k, v) \<in> set kvs \<and> et_unmarshal et v = Some i)"
  by (force simp: decode_all_def List.map_filter_def image_iff)

lemma etcd_abs_put:
  assumes "plain t" and "et_unmarshal et v = Some i"
    and "view d' = (view d)(service_key rg t n \<mapsto> v)"
  shows "etcd_abs et view (rg\<lparr>rg_services := f\<rparr>, d') = (etcd_abs et view (rg, d))((t, n) \<mapsto> i)"
  using assms by (auto simp: etcd_abs_def fun_eq_iff service_key_inj)

lemma etcd_abs_delete:
  assumes "plain t" and "view d' = (view d)(service_key rg t n := None)"
  shows "etcd_abs et view (rg\<lparr>rg_services := f\<rparr>, d') = (etcd_abs et view (rg, d))((t, n) := None)"
  using assms by (auto simp: etcd_abs_def fun_eq_iff service_key_inj)

lemma etcd_abs_same:
  assumes "view d' = view d"
  shows "etcd_abs et view (rg\<lparr>rg_services := f\<rparr>, d') = etcd_abs et view (rg, d)"
  using assms by (simp add: etcd_abs_def fun_eq_iff)

lemma etcd_ok_put:
  assumes "etcd_ok et view (rg, d)" and "plain (si_NodeType i)" and "et_unmarshal et v = Some i"
    and "view d' = (view d)(service_key rg (si_NodeType i) (si_NodeID i) \<mapsto> v)"
    and "f = rg_services rg \<or> f = (rg_services rg)(si_NodeID i \<mapsto> i)"
  shows "etcd_ok et view (rg\<lparr>rg_services := f\<rparr>, d')"
  using assms unfolding etcd_ok_def by (auto split: if_splits)

lemma etcd_ok_delete:
  assumes "etcd_ok et view (rg, d)"
    and "view d' = view d \<or> view d' = (view d)(k := None)"
    and "f = rg_services rg \<or> f = (rg_services rg)(n := None)"
  shows "etcd_ok et view (rg\<lparr>rg_services := f\<rparr>, d')"
  using assms unfolding etcd_ok_def by (auto split: if_splits)

context etcd_client
begin

lemma Register_view:
  assumes "Register et now i0 rg d = (r, rg', d')"
  defines "i \<equiv> i0\<lparr>si_UpdateTime := unix now\<rparr>"
  shows "\<exists>f. rg' = rg\<lparr>rg_services := f\<rparr> \<and> (f = rg_services rg \<or> f = (rg_services rg)(si_NodeID i \<mapsto> i)) \<and>
    (f = rg_services rg \<and> view d' = view d \<and> r \<noteq> Ret None \<or>
     (\<exists>v. et_unmarshal et v = Some i \<and> view d' = (view d)(service_key rg (si_NodeType i) (si_NodeID i) \<mapsto> v)))"
proof (cases "rg_locked rg \<or> et_marshal et i = None")
  case True
  then have "rg' = rg \<and> d' = d \<and> r \<noteq> Ret None"
    using assms(1) unfolding i_def by (auto simp: Register_def Let_def split: if_splits)
  then show ?thesis by (intro exI [of _ "rg_services rg"]) simp
next
  case False
  then obtain v where v: "et_marshal et i = Some v" by blast
  obtain ok d1 where p: "et_Put et (rg_ctxDone rg) (service_key rg (si_NodeType i) (si_NodeID i)) v (rg_leaseID rg) d = (ok, d1)"
    by fastforce
  have res: "d' = d1" "rg' = (if ok then rg\<lparr>rg_services := (rg_services rg)(si_NodeID i \<mapsto> i)\<rparr> else rg)"
    "ok \<or> r \<noteq> Ret None"
    using assms(1) False v p unfolding i_def by (auto simp: Register_def Let_def split: if_splits)
  then show ?thesis using put [OF p] codec [OF v]
    by (intro exI [of _ "if ok then (rg_services rg)(si_NodeID i \<mapsto> i) else rg_services rg"]) auto
qed

lemma Unregister_view:
  assumes "Unregister et n rg d = (r, rg', d')"
  shows "\<exists>f. rg' = rg\<lparr>rg_services := f\<rparr> \<and> (f = rg_services rg \<or> f = (rg_services rg)(n := None)) \<and>
    (f = rg_services rg \<and> view d' = view d \<and> r \<noteq> Ret None \<or>
     (\<exists>i. rg_services rg n = Some i \<and> view d' = (view d)(service_key rg (si_NodeType i) n := None)))"
proof (cases "rg_locked rg \<or> rg_services rg n = None")
  case True
  then have "rg' = rg \<and> d' = d \<and> r \<noteq> Ret None"
    using assms by (auto simp: Unregister_def Let_def split: option.splits if_splits)
  then show ?thesis by (intro exI [of _ "rg_services rg"]) simp
next
  case False
  then obtain i where i: "rg_services rg n = Some i" by blast
  obtain ok d1 where p: "et_Delete et (rg_ctxDone rg) (service_key rg (si_NodeType i) n) d = (ok, d1)" by fastforce
  have res: "d' = d1" "rg' = (if ok then rg\<lparr>rg_services := (rg_services rg)(n := None)\<rparr> else rg)"
    "ok \<or> r \<noteq> Ret None"
    using assms False i p by (auto simp: Unregister_def Let_def split: if_splits)
  then show ?thesis using delete [OF p] i
    by (intro exI [of _ "if ok then (rg_services rg)(n := None) else rg_services rg"]) auto
qed

lemma GetServices_view:
  assumes "GetServices et t rg d = (res, d')" and "etcd_ok et view (rg, d)" and "plain t"
  shows "view d' = view d \<and> (\<forall>xs. res = Some xs \<longrightarrow> set xs = of_type (etcd_abs et view (rg, d)) t)"
proof -
  obtain kvs d1 where g: "et_GetPrefix et (rg_ctxDone rg) (service_key rg t '''') d = (kvs, d1)" by fastforce
  have res: "res = map_option (decode_all et) kvs" "d' = d1"
    using assms(1) g by (simp_all add: GetServices_def)
  have "set (decode_all et ks) = of_type (etcd_abs et view (rg, d)) t" if "kvs = Some ks" for ks
  proof (rule set_eqI)
    fix i
    have "i \<in> set (decode_all et ks) \<longleftrightarrow>
      (\<exists>k v. view d k = Some v \<and> has_prefix (service_key rg t '''') k \<and> et_unmarshal et v = Some i)"
      using get [OF g] that by (auto simp: decode_all_set)
    also have "\<dots> \<longleftrightarrow> (\<exists>v. view d (service_key rg t (si_NodeID i)) = Some v \<and> et_unmarshal et v = Some i)"
    proof
      assume "\<exists>k v. view d k = Some v \<and> has_prefix (service_key rg t '''') k \<and> et_unmarshal et v = Some i"
      then obtain k v where k: "view d k = Some v" "has_prefix (service_key rg t '''') k" "et_unmarshal et v = Some i"
        by blast
      have "k = service_key rg (si_NodeType i) (si_NodeID i)" "plain (si_NodeType i)"
        using etcd_ok_D [OF assms(2), of k v i] k by simp_all
      then show "\<exists>v. view d (service_key rg t (si_NodeID i)) = Some v \<and> et_unmarshal et v = Some i"
        using k service_key_prefix [OF assms(3)] by auto
    next
      assume "\<exists>v. view d (service_key rg t (si_NodeID i)) = Some v \<and> et_unmarshal et v = Some i"
      then show "\<exists>k v. view d k = Some v \<and> has_prefix (service_key rg t '''') k \<and> et_unmarshal et v = Some i"
        using service_key_prefix [OF assms(3) assms(3)] by blast
    qed
    also have "\<dots> \<longleftrightarrow> i \<in> of_type (etcd_abs et view (rg, d)) t"
      using assms(3) by (auto simp: of_type_def etcd_abs_def split: option.splits)
    finally show "i \<in> set (decode_all et ks) \<longleftrightarrow> i \<in> of_type (etcd_abs et view (rg, d)) t" .
  qed
  then show ?thesis using res get [OF g] by auto
qed

end

sublocale etcd_client \<subseteq> reg: service_registry "etcd_register et" "etcd_unregister et" "etcd_services et"
  "etcd_ok et view" "etcd_abs et view"
proof unfold_locales
  fix now i0 r and s s' :: "registry \<times> 'd"
  assume a: "etcd_register et now i0 s = (r, s')" and ok: "etcd_ok et view s" and p: "plain (si_NodeType i0)"
  obtain rg d rg' d' where s: "s = (rg, d)" "s' = (rg', d')" by fastforce
  have reg: "Register et now i0 rg d = (r, rg', d')" using a s by (simp add: etcd_register_def)
  let ?i = "i0\<lparr>si_UpdateTime := unix now\<rparr>"
  from Register_view [OF reg] obtain f where f: "rg' = rg\<lparr>rg_services := f\<rparr>"
    "f = rg_services rg \<or> f = (rg_services rg)(si_NodeID ?i \<mapsto> ?i)" and
    out: "f = rg_services rg \<and> view d' = view d \<and> r \<noteq> Ret None \<or>
     (\<exists>v. et_unmarshal et v = Some ?i \<and> view d' = (view d)(service_key rg (si_NodeType ?i) (si_NodeID ?i) \<mapsto> v))"
    by blast
  from out show "etcd_ok et view s' \<and>
      (etcd_abs et view s' = (etcd_abs et view s)((si_NodeType i0, si_NodeID i0) \<mapsto> ?i) \<or>
       r \<noteq> Ret None \<and> etcd_abs et view s' = etcd_abs et view s)"
  proof
    assume "f = rg_services rg \<and> view d' = view d \<and> r \<noteq> Ret None"
    then show ?thesis using ok s f etcd_abs_same [where view = view and d' = d' and d = d and rg = rg and f = f and et = et]
        etcd_ok_delete [of et view rg d d' "''''" f] by simp
  next
    assume "\<exists>v. et_unmarshal et v = Some ?i \<and> view d' = (view d)(service_key rg (si_NodeType ?i) (si_NodeID ?i) \<mapsto> v)"
    then obtain v where v: "et_unmarshal et v = Some ?i"
      "view d' = (view d)(service_key rg (si_NodeType ?i) (si_NodeID ?i) \<mapsto> v)" by blast
    have p': "plain (si_NodeType ?i)" using p by simp
    have "etcd_ok et view s'"
      using etcd_ok_put [OF _ p' v f(2)] ok s f(1) by simp
    moreover have "etcd_abs et view s' = (etcd_abs et view s)((si_NodeType ?i, si_NodeID ?i) \<mapsto> ?i)"
      using etcd_abs_put [OF p' v, where f = f] s f(1) by simp
    ultimately show ?thesis by simp
  qed
next
  fix n r and s s' :: "registry \<times> 'd"
  assume a: "etcd_unregister et n s = (r, s')" and ok: "etcd_ok et view s"
  obtain rg d rg' d' where s: "s = (rg, d)" "s' = (rg', d')" by fastforce
  have un: "Unregister et n rg d = (r, rg', d')" using a s by (simp add: etcd_unregister_def)
  from Unregister_view [OF un] obtain f where f: "rg' = rg\<lparr>rg_services := f\<rparr>"
    "f = rg_services rg \<or> f = (rg_services rg)(n := None)" and
    out: "f = rg_services rg \<and> view d' = view d \<and> r \<noteq> Ret None \<or>
     (\<exists>i. rg_services rg n = Some i \<and> view d' = (view d)(service_key rg (si_NodeType i) n := None))"
    by blast
  from out show "etcd_ok et view s' \<and> (\<exists>t. etcd_abs et view s' = (etcd_abs et view s)((t, n) := None) \<or>
       r \<noteq> Ret None \<and> etcd_abs et view s' = etcd_abs et view s)"
  proof
    assume "f = rg_services rg \<and> view d' = view d \<and> r \<noteq> Ret None"
    then show ?thesis using ok s f etcd_abs_same [where view = view and d' = d' and d = d and rg = rg and f = f and et = et]
        etcd_ok_delete [of et view rg d d' "''''" f n] by simp
  next
    assume "\<exists>i. rg_services rg n = Some i \<and> view d' = (view d)(service_key rg (si_NodeType i) n := None)"
    then obtain i where i: "rg_services rg n = Some i"
      "view d' = (view d)(service_key rg (si_NodeType i) n := None)" by blast
    have "plain (si_NodeType i)" using etcd_ok_local [OF ok, of n i] i(1) s(1) by simp
    then have abs: "etcd_abs et view s' = (etcd_abs et view s)((si_NodeType i, n) := None)"
      using etcd_abs_delete [OF _ i(2), where f = f and et = et] s f(1) by simp
    have "etcd_ok et view (rg\<lparr>rg_services := f\<rparr>, d')"
      by (rule etcd_ok_delete [OF _ disjI2 [OF i(2)] f(2)]) (use ok s in simp)
    then show ?thesis using abs s f(1) by auto
  qed
next
  fix t res and s s' :: "registry \<times> 'd"
  assume a: "etcd_services et t s = (res, s')" and ok: "etcd_ok et view s" and p: "plain t"
  obtain rg d d' where s: "s = (rg, d)" "s' = (rg, d')" and g: "GetServices et t rg d = (res, d')"
    using a by (cases s) (auto simp: etcd_services_def split: prod.splits)
  have v: "view d' = view d \<and> (\<forall>xs. res = Some xs \<longrightarrow> set xs = of_type (etcd_abs et view (rg, d)) t)"
    by (rule GetServices_view [OF g _ p]) (use ok s in simp)
  then have "etcd_ok et view s'" "etcd_abs et view s' = etcd_abs et view s"
    using ok s by (auto simp: etcd_ok_def etcd_abs_def fun_eq_iff)
  then show "etcd_ok et view s' \<and> etcd_abs et view s' = etcd_abs et view s \<and>
      (\<forall>xs. res = Some xs \<longrightarrow> set xs = of_type (etcd_abs et view s) t)"
    using v s by simp
next
  fix s :: "registry \<times> 'd"
  assume "etcd_ok et view s"
  then show "keyed (etcd_abs et view s)" using etcd_abs_Some unfolding keyed_def by blast
qed

section \<open>An etcd kept in memory\<close>

definition mem_store ::
  "(service_info \<Rightarrow> 'v option) \<Rightarrow> ('v \<Rightarrow> service_info option) \<Rightarrow> ('v, (string \<times> 'v) list) etcd" where
  "mem_store ma un =
     \<lparr>et_Grant = (\<lambda>c ttl d. (if c then None else Some 1, d)),
      et_KeepAlive = (\<lambda>c l d. (\<not> c, d)),
      et_Put = (\<lambda>c k v l d. if c then (False, d) else (True, AList.update k v d)),
      et_Delete = (\<lambda>c k d. if c then (False, d) else (True, AList.delete k d)),
      et_GetPrefix = (\<lambda>c p d. (if c then None else Some (filter (\<lambda>kv. has_prefix p (fst kv)) (AList.clearjunk d)), d)),
      et_Revoke = (\<lambda>c l d. if c then (False, d) else (True, [])),
      et_Close = (\<lambda>d. (True, d)),
      et_marshal = ma, et_unmarshal = un\<rparr>"

definition mem_etcd :: "(service_info, (string \<times> service_info) list) etcd" where
  mem_etcd_store: "mem_etcd = mem_store Some Some"

lemmas mem_etcd_def = mem_etcd_store [unfolded mem_store_def]

lemma set_clearjunk: "set (AList.clearjunk d) = {(k, v). map_of d k = Some v}"
proof -
  have "(k, v) \<in> set (AList.clearjunk d) \<longleftrightarrow> map_of (AList.clearjunk d) k = Some v" for k v
    using distinct_clearjunk [of d] map_of_eq_Some_iff by fast
  then show ?thesis by (auto simp: map_of_clearjunk)
qed

interpretation mem_store: etcd_store "mem_store ma un" map_of
proof unfold_locales
  fix c p res and d d' :: "(string \<times> 'a) list"
  assume a: "et_GetPrefix (mem_store ma un) c p d = (res, d')"
  have "distinct (map fst (filter (\<lambda>kv. has_prefix p (fst kv)) (AList.clearjunk d)))"
    using distinct_clearjunk [of d] by (simp add: distinct_map_filter)
  then show "map_of d' = map_of d \<and> (\<forall>kvs. res = Some kvs \<longrightarrow> distinct (map fst kvs) \<and>
      set kvs = {(k, v). map_of d k = Some v \<and> has_prefix p k})"
    using a by (auto simp: mem_store_def set_clearjunk split: if_splits)
qed (auto simp: mem_store_def update_conv' delete_conv' split: if_splits)

interpretation mem_etcd: etcd_client mem_etcd map_of
  by (simp add: etcd_client_def etcd_client_axioms_def mem_etcd_store mem_store.etcd_store_axioms) (simp add: mem_store_def)

section \<open>Properties\<close>

lemma of_type_upd:
  "keyed m \<Longrightarrow> of_type (m((t', n) := v)) t =
     {x \<in> of_type m t. (t, si_NodeID x) \<noteq> (t', n)} \<union> {x. v = Some x \<and> t = t' \<and> si_NodeID x = n}"
  by (auto simp: of_type_def)

lemma of_type_NodeType: "keyed m \<Longrightarrow> x \<in> of_type m t \<Longrightarrow> si_NodeType x = t"
  by (auto simp: of_type_def keyed_def)

lemma Unregister_local:
  assumes "Unregister et n rg d = (Ret None, rg', d')"
  shows "\<exists>i. rg_services rg n = Some i"
  using assms by (auto simp: Unregister_def split: if_splits option.splits)

lemma Register_local:
  assumes "Register et now i rg d = (Ret None, rg', d')"
  shows "rg_services rg' (si_NodeID i) = Some (i\<lparr>si_UpdateTime := unix now\<rparr>)"
  using assms by (auto simp: Register_def Let_def split: if_splits option.splits prod.splits)

context etcd_client
begin

lemma Unregister_abs:
  assumes "Unregister et n rg d = (Ret None, rg', d')" and "etcd_ok et view (rg, d)"
    and "rg_services rg n = Some i"
  shows "etcd_abs et view (rg', d') = (etcd_abs et view (rg, d))((si_NodeType i, n) := None)"
proof -
  from Unregister_view [OF assms(1)] assms(3) obtain f where f: "rg' = rg\<lparr>rg_services := f\<rparr>"
    "view d' = (view d)(service_key rg (si_NodeType i) n := None)" by auto
  have "plain (si_NodeType i)" using etcd_ok_local [OF assms(2), of n i] assms(3) by simp
  then show ?thesis using etcd_abs_delete [OF _ f(2), where f = f and et = et] f(1) by simp
qed

lemma registry_session:
  assumes "etcd_ok et view (rg, d)" and "plain (si_NodeType i)" and "plain t"
    and "Register et now i rg d = (Ret None, rg1, d1)"
    and "GetServices et t rg1 d1 = (Some xs, d2)"
    and "Unregister et (si_NodeID i) rg1 d2 = (Ret None, rg2, d3)"
    and "GetServices et t rg2 d3 = (Some ys, d4)"
  shows "set xs = of_type ((etcd_abs et view (rg, d))((si_NodeType i, si_NodeID i) \<mapsto> i\<lparr>si_UpdateTime := unix now\<rparr>)) t"
    and "set ys = {x \<in> set xs. (si_NodeType x, si_NodeID x) \<noteq> (si_NodeType i, si_NodeID i)}"
proof -
  let ?i = "i\<lparr>si_UpdateTime := unix now\<rparr>" and ?A = "etcd_abs et view"
  let ?m1 = "(?A (rg, d))((si_NodeType i, si_NodeID i) \<mapsto> ?i)"
  have r: "etcd_ok et view (rg1, d1)" "?A (rg1, d1) = ?m1"
    using reg.register_law [of now i "(rg, d)" "Ret None" "(rg1, d1)"] assms(1,2,4)
    by (simp_all add: etcd_register_def)
  have g1: "etcd_services et t (rg1, d1) = (Some xs, rg1, d2)" using assms(5) by (simp add: etcd_services_def)
  have xs: "etcd_ok et view (rg1, d2)" "?A (rg1, d2) = ?m1" "set xs = of_type ?m1 t"
    using reg.get_law [OF g1 r(1) assms(3)] r(2) by simp_all
  then show "set xs = of_type ?m1 t" by simp
  have u: "?A (rg2, d3) = ?m1((si_NodeType i, si_NodeID i) := None)"
    using Unregister_abs [OF assms(6) xs(1) Register_local [OF assms(4)]] xs(2) by simp
  have ok2: "etcd_ok et view (rg2, d3)"
    using reg.unregister_law [of "si_NodeID i" "(rg1, d2)" "Ret None" "(rg2, d3)"] assms(6) xs(1)
    by (simp add: etcd_unregister_def)
  have g2: "etcd_services et t (rg2, d3) = (Some ys, rg2, d4)" using assms(7) by (simp add: etcd_services_def)
  have ys: "set ys = of_type (?m1((si_NodeType i, si_NodeID i) := None)) t"
    using reg.get_law [OF g2 ok2 assms(3)] u by simp
  have k: "keyed ?m1" using reg.keyed [OF r(1)] r(2) by simp
  show "set ys = {x \<in> set xs. (si_NodeType x, si_NodeID x) \<noteq> (si_NodeType i, si_NodeID i)}"
    unfolding ys xs(3) of_type_upd [OF k, of "si_NodeType i" "si_NodeID i" None t]
    using of_type_NodeType [OF k] by blast
qed

lemmas registry_contract = reg.service_registry_axioms

lemmas put_law = put

lemmas revoke_law = revoke

lemmas close_law = close

end

text \<open>
  On any etcd client and JSON codec that do what they document, the registry implements a map
  from (type, id) to descriptions: from a consistent state, after a successful Register,
  GetServices of a type returns exactly the registered services of that type, the new one with
  its update time, none of another type; after a successful Unregister it returns exactly the
  same services without that one. Types have no slash, since keys are built with it.
\<close>

theorem etcd_registry_refines:
  assumes "etcd_client et view" and "etcd_ok et view (rg, d)" and "plain (si_NodeType i)" and "plain t"
    and "Register et now i rg d = (Ret None, rg1, d1)"
    and "GetServices et t rg1 d1 = (Some xs, d2)"
    and "Unregister et (si_NodeID i) rg1 d2 = (Ret None, rg2, d3)"
    and "GetServices et t rg2 d3 = (Some ys, d4)"
  shows "set xs = of_type ((etcd_abs et view (rg, d))((si_NodeType i, si_NodeID i) \<mapsto> i\<lparr>si_UpdateTime := unix now\<rparr>)) t \<and>
    set ys = {x \<in> set xs. (si_NodeType x, si_NodeID x) \<noteq> (si_NodeType i, si_NodeID i)}"
  using etcd_client.registry_session [OF assms] by blast

definition demo_registry :: registry where
  "demo_registry = \<lparr>rg_leaseID = 1, rg_ctxDone = False, rg_locked = False, rg_services = Map.empty,
     rg_watchers = (\<lambda>t. []), rg_keyPrefix = ''/lufy/services/''\<rparr>"

lemma demo_registry_ok: "etcd_ok mem_etcd map_of (demo_registry, [])"
  by (simp add: etcd_ok_def demo_registry_def)

theorem etcd_registry_refines_witness:
  "let i = demo_service ''a'' ''online'' 0;
     (r1, rg1, d1) = Register mem_etcd 5000000000 i demo_registry [];
     (xs, d2) = GetServices mem_etcd ''game'' rg1 d1;
     (r2, rg2, d3) = Unregister mem_etcd ''a'' rg1 d2;
     (ys, d4) = GetServices mem_etcd ''game'' rg2 d3
   in map_option set xs = Some {i\<lparr>si_UpdateTime := 5\<rparr>} \<and> map_option set ys = Some {}"
proof -
  let ?i = "demo_service ''a'' ''online'' 0" and ?now = "5000000000 :: int"
  let ?j = "?i\<lparr>si_UpdateTime := unix ?now\<rparr>"
  let ?k = "''/lufy/services/game/a''"
  let ?rg1 = "demo_registry\<lparr>rg_services := [''a'' \<mapsto> ?j]\<rparr>"
  have r: "Register mem_etcd ?now ?i demo_registry [] = (Ret None, ?rg1, [(?k, ?j)])"
    by (simp add: Register_def demo_registry_def demo_service_def service_key_def mem_etcd_def Let_def)
  have g: "GetServices mem_etcd ''game'' ?rg1 [(?k, ?j)] = (Some [?j], [(?k, ?j)])"
    by (simp add: GetServices_def demo_registry_def service_key_def mem_etcd_def has_prefix_def
        decode_all_def List.map_filter_simps)
  have u: "Unregister mem_etcd (si_NodeID ?i) ?rg1 [(?k, ?j)] = (Ret None, ?rg1\<lparr>rg_services := Map.empty\<rparr>, [])"
    by (simp add: Unregister_def demo_registry_def demo_service_def service_key_def mem_etcd_def Let_def)
  have g2: "GetServices mem_etcd ''game'' (?rg1\<lparr>rg_services := Map.empty\<rparr>) [] = (Some [], [])"
    by (simp add: GetServices_def demo_registry_def mem_etcd_def decode_all_def List.map_filter_simps)
  have "set [?j] = of_type ((etcd_abs mem_etcd map_of (demo_registry, []))((si_NodeType ?i, si_NodeID ?i) \<mapsto> ?j)) ''game'' \<and>
    set ([] :: service_info list) = {x \<in> set [?j]. (si_NodeType x, si_NodeID x) \<noteq> (si_NodeType ?i, si_NodeID ?i)}"
    by (rule etcd_registry_refines [OF mem_etcd.etcd_client_axioms demo_registry_ok _ _ r g u g2])
      (simp_all add: demo_service_def)
  then show ?thesis using r g u g2 by (simp add: unix_def demo_service_def Let_def)
qed

text \<open>
  UpdateLoad of a registered node holds the registry's mutex while it calls Register, which
  locks the same mutex: it never returns, nothing is sent to etcd, and the mutex stays locked,
  so that every later Register, Unregister, UpdateLoad, GetService and Watch blocks for ever
  too.
\<close>

theorem UpdateLoad_deadlock:
  assumes "\<not> rg_locked rg" and "rg_services rg n = Some i"
    and "UpdateLoad et now n ld rg d = (r, rg', d')"
  shows "r = Blocked \<and> d' = d \<and>
    fst (Register et t j rg' d') = Blocked \<and> fst (Unregister et m rg' d') = Blocked \<and>
    fst (UpdateLoad et now' m ld' rg' d') = Blocked \<and> fst (reg_GetService et m rg' d') = Blocked \<and>
    Watch ty cb rg' = Blocked"
proof -
  have "r = Blocked \<and> d' = d \<and> rg_locked rg'"
    using assms by (auto simp: UpdateLoad_def Register_def Let_def)
  then show ?thesis
    by (simp add: Register_def Unregister_def UpdateLoad_def reg_GetService_def Watch_def)
qed

theorem UpdateLoad_deadlock_witness:
  "let rg = demo_registry\<lparr>rg_services := [''a'' \<mapsto> demo_service ''a'' ''online'' 0]\<rparr>;
     (r, rg', d') = UpdateLoad mem_etcd (\<lambda>i. 0) ''a'' 7 rg []
   in r = Blocked \<and> fst (Unregister mem_etcd ''a'' rg' d') = Blocked"
proof -
  let ?rg = "demo_registry\<lparr>rg_services := [''a'' \<mapsto> demo_service ''a'' ''online'' 0]\<rparr>"
  obtain r rg' d' where u: "UpdateLoad mem_etcd (\<lambda>i. 0) ''a'' 7 ?rg [] = (r, rg', d')" by (metis prod_cases3)
  have "\<not> rg_locked ?rg" "rg_services ?rg ''a'' = Some (demo_service ''a'' ''online'' 0)"
    by (simp_all add: demo_registry_def)
  then have "r = Blocked" "fst (Unregister mem_etcd ''a'' rg' d') = Blocked"
    using UpdateLoad_deadlock [OF _ _ u] by blast+
  then show ?thesis unfolding u Let_def prod.case by (rule conjI)
qed

text \<open>
  ServiceDiscovery over the etcd registry and any balancer that keeps the LoadBalancer contract
  returns only a service of its cache for the type or one that etcd holds at this moment under
  that type and its own id.
\<close>

theorem discovery_GetService_sound:
  assumes "etcd_client et view" and "etcd_ok et view s" and "plain t"
    and "load_balancer select ready" and "ready (Suc k) b"
    and "sd_GetService (etcd_services et) select t sd b s = (Ret (Some x), sd', b', s')"
  shows "(\<exists>cs. sd_cache sd t = Some cs \<and> x \<in> set cs) \<or>
    (etcd_abs et view s (t, si_NodeID x) = Some x \<and> si_NodeType x = t)"
  using service_registry.discovery_sound [OF etcd_client.registry_contract [OF assms(1)] assms(4,5,2,3,6)]
    etcd_abs_Some [OF assms(2)] by blast

theorem discovery_GetService_sound_witness:
  "let i = demo_service ''a'' ''online'' 0; k = ''/lufy/services/game/a'';
     (r, sd, b, s) = sd_GetService (etcd_services mem_etcd) rr_Select ''game'' (NewServiceDiscovery ''game'')
       NewRoundRobinLoadBalancer (demo_registry, [(k, i)])
   in r = Ret (Some i) \<and> etcd_abs mem_etcd map_of (demo_registry, [(k, i)]) (''game'', ''a'') = Some i"
proof -
  let ?i = "demo_service ''a'' ''online'' 0" and ?k = "''/lufy/services/game/a''"
  let ?s = "(demo_registry, [(?k, ?i)])"
  have ok: "etcd_ok mem_etcd map_of ?s"
    by (auto simp: etcd_ok_def demo_registry_def demo_service_def service_key_def mem_etcd_def split: if_splits)
  have lb: "rr_ready (Suc 0) NewRoundRobinLoadBalancer"
    by (simp add: rr_ready_def rr_counter_def NewRoundRobinLoadBalancer_def)
  obtain r sd b s where g: "sd_GetService (etcd_services mem_etcd) rr_Select ''game'' (NewServiceDiscovery ''game'')
       NewRoundRobinLoadBalancer ?s = (r, sd, b, s)" by (metis prod_cases4)
  have r: "r = Ret (Some ?i)" using g
    by (auto simp: sd_GetService_def NewServiceDiscovery_def etcd_services_def GetServices_def demo_registry_def
        service_key_def mem_etcd_def has_prefix_def decode_all_def List.map_filter_simps rr_Select_def go_rem_def
        rr_counter_def NewRoundRobinLoadBalancer_def Let_def)
  have "(\<exists>cs. sd_cache (NewServiceDiscovery ''game'') ''game'' = Some cs \<and> ?i \<in> set cs) \<or>
    (etcd_abs mem_etcd map_of ?s (''game'', si_NodeID ?i) = Some ?i \<and> si_NodeType ?i = ''game'')"
    by (rule discovery_GetService_sound [OF mem_etcd.etcd_client_axioms ok _ rr.load_balancer_axioms lb g [unfolded r]])
      simp
  then show ?thesis using g r by (simp add: NewServiceDiscovery_def demo_service_def Let_def)
qed

lemma watch_goroutines_calls:
  assumes "\<And>d'. fst (GetServices et t rg d') \<noteq> None"
  shows "map fst (fst (watch_goroutines et t rg gs d)) = concat (replicate (length gs) (rg_watchers rg t))"
proof (induction gs arbitrary: d)
  case Nil
  then show ?case by simp
next
  case (Cons g gs)
  obtain ss d1 where g: "GetServices et t rg d = (Some ss, d1)"
    using assms [of d] by (metis not_Some_eq prod.collapse)
  have "map fst (fst (watch_event et t rg d)) = rg_watchers rg t" "snd (watch_event et t rg d) = d1"
    by (simp_all add: watch_event_def g comp_def)
  then show ?case using Cons.IH [of d1] by (simp add: split_beta)
qed

text \<open>
  Every Watch of a type starts its own goroutine, and each of them calls all callbacks of the
  type: one change notifies each of k watchers k times.
\<close>

theorem watch_calls_squared:
  assumes "\<And>d'. fst (GetServices et t rg d') \<noteq> None"
  shows "map fst (fst (watch_change et t rg d)) =
    concat (replicate (length (rg_watchers rg t)) (rg_watchers rg t))"
  unfolding watch_change_def by (rule watch_goroutines_calls) (rule assms)

theorem watch_calls_squared_witness:
  "case Watch ''game'' 1 demo_registry of
     Ret rg1 \<Rightarrow> (case Watch ''game'' 2 rg1 of
        Ret rg2 \<Rightarrow> map fst (fst (watch_change mem_etcd ''game'' rg2 [])) = [1, 2, 1, 2]
      | _ \<Rightarrow> False)
   | _ \<Rightarrow> False"
proof -
  let ?rg2 = "demo_registry\<lparr>rg_watchers := (\<lambda>t. [])(''game'' := [1, 2])\<rparr>"
  have "map fst (fst (watch_change mem_etcd ''game'' ?rg2 [])) =
    concat (replicate (length (rg_watchers ?rg2 ''game'')) (rg_watchers ?rg2 ''game''))"
    by (rule watch_calls_squared) (simp add: GetServices_def mem_etcd_def demo_registry_def)
  then show ?thesis by (simp add: Watch_def demo_registry_def numeral_2_eq_2)
qed

text \<open>
  Close cancels the registry's context before it revokes the lease with that context, so the
  revocation always fails: every key stays in etcd until the lease times out, and nothing can
  be registered any more.
\<close>

theorem Close_leaves_services:
  assumes "etcd_client et view" and "registry_Close et rg d = (ok, rg', d')"
  shows "view d' = view d \<and> rg_ctxDone rg' \<and>
    (\<forall>now i. fst (Register et now i rg' d') \<noteq> Ret None)"
proof -
  have "view d' = view d"
  proof -
    obtain r1 d1 where r: "et_Revoke et True (rg_leaseID rg) d = (r1, d1)" by fastforce
    show ?thesis using assms(2) r etcd_client.revoke_law [OF assms(1) r] etcd_client.close_law [OF assms(1), of d1]
        etcd_client.close_law [OF assms(1), of d]
      by (auto simp: registry_Close_def Let_def split: if_splits prod.splits)
  qed
  moreover have c: "rg_ctxDone rg'" using assms(2) by (auto simp: registry_Close_def Let_def split: prod.splits)
  moreover have "fst (Register et now i rg' d') \<noteq> Ret None" for now i
    using etcd_client.put_law [OF assms(1)] c
    by (auto simp: Register_def Let_def split: if_splits option.splits prod.splits) blast
  ultimately show ?thesis by blast
qed

theorem Close_leaves_services_witness:
  "let (ok, rg', d') = registry_Close mem_etcd demo_registry [(''k'', demo_service ''a'' ''online'' 0)]
   in ok \<and> map_of d' ''k'' = Some (demo_service ''a'' ''online'' 0)"
proof -
  let ?d = "[(''k'', demo_service ''a'' ''online'' 0)]"
  obtain ok rg' d' where c: "registry_Close mem_etcd demo_registry ?d = (ok, rg', d')" by (metis prod_cases3)
  have "map_of d' = map_of ?d" using Close_leaves_services [OF mem_etcd.etcd_client_axioms c] by simp
  moreover have ok using c by (auto simp: registry_Close_def mem_etcd_def Let_def demo_registry_def)
  ultimately show ?thesis using c by simp
qed

end
