(* ===== verification/RedisCache.thy ===== *)
theory RedisCache
  imports Prelude "HOL-Library.AList"
begin

text \<open>
  The Redis manager and the caches on it, \<open>internal/cache\<close>. The client library is a
  parameter \<open>exec\<close>: a command and a state give a reply and a state. What Redis documents of
  the string commands is the locale \<open>redis\<close>, a server kept in memory interprets it.
\<close>

section \<open>Commands\<close>

datatype rcmd = PingC | DelC "string list" | ExistsC string | ExpireC string duration | TTLC string
  | SetC string string duration | SetNXC string string duration | GetC string
  | IncrC string | IncrByC string int
  | HSetC string string string | HGetC string string | HGetAllC string | HDelC string "string list"
  | HExistsC string string
  | LPushC string "string list" | RPushC string "string list" | LPopC string | RPopC string
  | LLenC string | LRangeC string int int
  | SAddC string "string list" | SRemC string "string list" | SMembersC string
  | SIsMemberC string string | SCardC string
  | ZAddC string "(string \<times> string) list" | ZRemC string "string list" | ZRangeC string int int
  | ZRangeWithScoresC string int int | ZRevRangeC string int int | ZScoreC string string | ZCardC string
  | PublishC string string

datatype reply = RStatus | RInt int | RBool bool | RStr string | RStrs "string list"
  | RPairs "(string \<times> string) list" | RDur duration | RNil | RErr string

datatype redis_error = RedisNil | RedisErr string | KeyNotFound | MarshalErr | UnmarshalErr

text \<open>\<open>Err()\<close> and \<open>Result()\<close> of a command.\<close>

fun reply_err :: "reply \<Rightarrow> redis_error option" where
  "reply_err RNil = Some RedisNil"
| "reply_err (RErr e) = Some (RedisErr e)"
| "reply_err _ = None"

fun reply_str :: "reply \<Rightarrow> redis_error + string" where
  "reply_str (RStr v) = Inr v"
| "reply_str r = (case reply_err r of Some e \<Rightarrow> Inl e | None \<Rightarrow> Inr '''')"

fun reply_int :: "reply \<Rightarrow> redis_error + int" where
  "reply_int (RInt n) = Inr n"
| "reply_int r = (case reply_err r of Some e \<Rightarrow> Inl e | None \<Rightarrow> Inr 0)"

fun reply_bool :: "reply \<Rightarrow> redis_error + bool" where
  "reply_bool (RBool b) = Inr b"
| "reply_bool r = (case reply_err r of Some e \<Rightarrow> Inl e | None \<Rightarrow> Inr False)"

fun reply_strs :: "reply \<Rightarrow> redis_error + string list" where
  "reply_strs (RStrs vs) = Inr vs"
| "reply_strs r = (case reply_err r of Some e \<Rightarrow> Inl e | None \<Rightarrow> Inr [])"

fun reply_pairs :: "reply \<Rightarrow> redis_error + (string \<times> string) list" where
  "reply_pairs (RPairs vs) = Inr vs"
| "reply_pairs r = (case reply_err r of Some e \<Rightarrow> Inl e | None \<Rightarrow> Inr [])"

fun reply_dur :: "reply \<Rightarrow> redis_error + duration" where
  "reply_dur (RDur d) = Inr d"
| "reply_dur r = (case reply_err r of Some e \<Rightarrow> Inl e | None \<Rightarrow> Inr 0)"

type_synonym 's exec = "rcmd \<Rightarrow> 's \<Rightarrow> reply \<times> 's"

section \<open>The manager\<close>

text \<open>
  \<open>rm_client\<close>: whether \<open>client\<close> is set. The cluster and the sentinel mode are stubs that
  leave it nil; calling \<open>Ping\<close> on the nil interface panics.
\<close>

record redis_config =
  rc_PoolSize :: int
  rc_MaxRetries :: int
  rc_DialTimeout :: duration
  rc_ReadTimeout :: duration
  rc_WriteTimeout :: duration
  rc_IdleTimeout :: duration
  rc_Addr :: string
  rc_Password :: string
  rc_DB :: int
  rc_ClusterMode :: bool
  rc_ClusterAddrs :: "string list"
  rc_SentinelMode :: bool
  rc_SentinelAddrs :: "string list"
  rc_SentinelMaster :: string
  rc_MaxRedirects :: int
  rc_ReadOnly :: bool
  rc_RouteByLatency :: bool
  rc_RouteRandomly :: bool

record redis_manager =
  rm_config :: redis_config
  rm_mode :: string
  rm_client :: bool

definition initSingleMode :: "redis_manager \<Rightarrow> redis_manager" where
  "initSingleMode rm = rm\<lparr>rm_client := True\<rparr>"

definition initClusterMode :: "redis_manager \<Rightarrow> redis_manager" where
  "initClusterMode rm = rm"

definition initSentinelMode :: "redis_manager \<Rightarrow> redis_manager" where
  "initSentinelMode rm = rm"

definition NewRedisManager ::
  "'s exec \<Rightarrow> redis_config \<Rightarrow> 's \<Rightarrow> (redis_error + redis_manager) outcome \<times> 's" where
  "NewRedisManager exec config s =
     (let rm0 = \<lparr>rm_config = config, rm_mode = '''', rm_client = False\<rparr>;
          rm = (if rc_ClusterMode config then initClusterMode (rm0\<lparr>rm_mode := ''cluster''\<rparr>)
                else if rc_SentinelMode config then initSentinelMode (rm0\<lparr>rm_mode := ''sentinel''\<rparr>)
                else initSingleMode (rm0\<lparr>rm_mode := ''single''\<rparr>))
      in if \<not> rm_client rm then (Panic NilDereference, s)
         else (let (r, s') = exec PingC s
               in case reply_err r of Some e \<Rightarrow> (Ret (Inl e), s') | None \<Rightarrow> (Ret (Inr rm), s')))"

definition rm_Delete :: "'s exec \<Rightarrow> string list \<Rightarrow> 's \<Rightarrow> redis_error option \<times> 's" where
  "rm_Delete exec keys s = apfst reply_err (exec (DelC keys) s)"

definition rm_Exists :: "'s exec \<Rightarrow> string \<Rightarrow> 's \<Rightarrow> (redis_error + bool) \<times> 's" where
  "rm_Exists exec key s = apfst (\<lambda>r. case reply_int r of Inl e \<Rightarrow> Inl e | Inr n \<Rightarrow> Inr (n > 0)) (exec (ExistsC key) s)"

definition rm_Expire :: "'s exec \<Rightarrow> string \<Rightarrow> duration \<Rightarrow> 's \<Rightarrow> redis_error option \<times> 's" where
  "rm_Expire exec key expiration s = apfst reply_err (exec (ExpireC key expiration) s)"

definition rm_TTL :: "'s exec \<Rightarrow> string \<Rightarrow> 's \<Rightarrow> (redis_error + duration) \<times> 's" where
  "rm_TTL exec key s = apfst reply_dur (exec (TTLC key) s)"

text \<open>The value of \<open>Set\<close>: a string, bytes, or anything else with the result of \<open>json.Marshal\<close>.\<close>

datatype set_value = VString string | VBytes string | VJson "string option"

definition rm_Set :: "'s exec \<Rightarrow> string \<Rightarrow> set_value \<Rightarrow> duration \<Rightarrow> 's \<Rightarrow> redis_error option \<times> 's" where
  "rm_Set exec key v expiration s =
     (let data = (case v of VString x \<Rightarrow> Some x | VBytes x \<Rightarrow> Some x | VJson j \<Rightarrow> j)
      in case data of
           None \<Rightarrow> (Some MarshalErr, s)
         | Some x \<Rightarrow> apfst reply_err (exec (SetC key x expiration) s))"

definition rm_Get :: "'s exec \<Rightarrow> string \<Rightarrow> 's \<Rightarrow> (redis_error + string) \<times> 's" where
  "rm_Get exec key s = apfst (\<lambda>r. case reply_str r of
       Inl RedisNil \<Rightarrow> Inl KeyNotFound | Inl e \<Rightarrow> Inl e | Inr v \<Rightarrow> Inr v) (exec (GetC key) s)"

definition rm_GetString :: "'s exec \<Rightarrow> string \<Rightarrow> 's \<Rightarrow> (redis_error + string) \<times> 's" where
  "rm_GetString exec key s = apfst reply_str (exec (GetC key) s)"

definition rm_GetObject ::
  "'s exec \<Rightarrow> (string \<Rightarrow> 'a option) \<Rightarrow> string \<Rightarrow> 's \<Rightarrow> (redis_error + 'a) \<times> 's" where
  "rm_GetObject exec unmarshal key s =
     (case rm_Get exec key s of
        (Inl e, s') \<Rightarrow> (Inl e, s')
      | (Inr data, s') \<Rightarrow> (case unmarshal data of None \<Rightarrow> (Inl UnmarshalErr, s') | Some x \<Rightarrow> (Inr x, s')))"

definition rm_Incr :: "'s exec \<Rightarrow> string \<Rightarrow> 's \<Rightarrow> (redis_error + int) \<times> 's" where
  "rm_Incr exec key s = apfst reply_int (exec (IncrC key) s)"

definition rm_IncrBy :: "'s exec \<Rightarrow> string \<Rightarrow> int \<Rightarrow> 's \<Rightarrow> (redis_error + int) \<times> 's" where
  "rm_IncrBy exec key n s = apfst reply_int (exec (IncrByC key n) s)"

definition rm_HSet :: "'s exec \<Rightarrow> string \<Rightarrow> string \<Rightarrow> string \<Rightarrow> 's \<Rightarrow> redis_error option \<times> 's" where
  "rm_HSet exec key f v s = apfst reply_err (exec (HSetC key f v) s)"

definition rm_HGet :: "'s exec \<Rightarrow> string \<Rightarrow> string \<Rightarrow> 's \<Rightarrow> (redis_error + string) \<times> 's" where
  "rm_HGet exec key f s = apfst reply_str (exec (HGetC key f) s)"

definition rm_HGetAll :: "'s exec \<Rightarrow> string \<Rightarrow> 's \<Rightarrow> (redis_error + (string \<times> string) list) \<times> 's" where
  "rm_HGetAll exec key s = apfst reply_pairs (exec (HGetAllC key) s)"

definition rm_HDel :: "'s exec \<Rightarrow> string \<Rightarrow> string list \<Rightarrow> 's \<Rightarrow> redis_error option \<times> 's" where
  "rm_HDel exec key fs s = apfst reply_err (exec (HDelC key fs) s)"

definition rm_HExists :: "'s exec \<Rightarrow> string \<Rightarrow> string \<Rightarrow> 's \<Rightarrow> (redis_error + bool) \<times> 's" where
  "rm_HExists exec key f s = apfst reply_bool (exec (HExistsC key f) s)"

definition rm_LPush :: "'s exec \<Rightarrow> string \<Rightarrow> string list \<Rightarrow> 's \<Rightarrow> redis_error option \<times> 's" where
  "rm_LPush exec key vs s = apfst reply_err (exec (LPushC key vs) s)"

definition rm_RPush :: "'s exec \<Rightarrow> string \<Rightarrow> string list \<Rightarrow> 's \<Rightarrow> redis_error option \<times> 's" where
  "rm_RPush exec key vs s = apfst reply_err (exec (RPushC key vs) s)"

definition rm_LPop :: "'s exec \<Rightarrow> string \<Rightarrow> 's \<Rightarrow> (redis_error + string) \<times> 's" where
  "rm_LPop exec key s = apfst reply_str (exec (LPopC key) s)"

definition rm_RPop :: "'s exec \<Rightarrow> string \<Rightarrow> 's \<Rightarrow> (redis_error + string) \<times> 's" where
  "rm_RPop exec key s = apfst reply_str (exec (RPopC key) s)"

definition rm_LLen :: "'s exec \<Rightarrow> string \<Rightarrow> 's \<Rightarrow> (redis_error + int) \<times> 's" where
  "rm_LLen exec key s = apfst reply_int (exec (LLenC key) s)"

definition rm_LRange :: "'s exec \<Rightarrow> string \<Rightarrow> int \<Rightarrow> int \<Rightarrow> 's \<Rightarrow> (redis_error + string list) \<times> 's" where
  "rm_LRange exec key a b s = apfst reply_strs (exec (LRangeC key a b) s)"

definition rm_SAdd :: "'s exec \<Rightarrow> string \<Rightarrow> string list \<Rightarrow> 's \<Rightarrow> redis_error option \<times> 's" where
  "rm_SAdd exec key ms s = apfst reply_err (exec (SAddC key ms) s)"

definition rm_SRem :: "'s exec \<Rightarrow> string \<Rightarrow> string list \<Rightarrow> 's \<Rightarrow> redis_error option \<times> 's" where
  "rm_SRem exec key ms s = apfst reply_err (exec (SRemC key ms) s)"

definition rm_SMembers :: "'s exec \<Rightarrow> string \<Rightarrow> 's \<Rightarrow> (redis_error + string list) \<times> 's" where
  "rm_SMembers exec key s = apfst reply_strs (exec (SMembersC key) s)"

definition rm_SIsMember :: "'s exec \<Rightarrow> string \<Rightarrow> string \<Rightarrow> 's \<Rightarrow> (redis_error + bool) \<times> 's" where
  "rm_SIsMember exec key m s = apfst reply_bool (exec (SIsMemberC key m) s)"

definition rm_SCard :: "'s exec \<Rightarrow> string \<Rightarrow> 's \<Rightarrow> (redis_error + int) \<times> 's" where
  "rm_SCard exec key s = apfst reply_int (exec (SCardC key) s)"

definition rm_ZAdd :: "'s exec \<Rightarrow> string \<Rightarrow> (string \<times> string) list \<Rightarrow> 's \<Rightarrow> redis_error option \<times> 's" where
  "rm_ZAdd exec key ms s = apfst reply_err (exec (ZAddC key ms) s)"

definition rm_ZRem :: "'s exec \<Rightarrow> string \<Rightarrow> string list \<Rightarrow> 's \<Rightarrow> redis_error option \<times> 's" where
  "rm_ZRem exec key ms s = apfst reply_err (exec (ZRemC key ms) s)"

definition rm_ZRange :: "'s exec \<Rightarrow> string \<Rightarrow> int \<Rightarrow> int \<Rightarrow> 's \<Rightarrow> (redis_error + string list) \<times> 's" where
  "rm_ZRange exec key a b s = apfst reply_strs (exec (ZRangeC key a b) s)"

definition rm_ZRangeWithScores ::
  "'s exec \<Rightarrow> string \<Rightarrow> int \<Rightarrow> int \<Rightarrow> 's \<Rightarrow> (redis_error + (string \<times> string) list) \<times> 's" where
  "rm_ZRangeWithScores exec key a b s = apfst reply_pairs (exec (ZRangeWithScoresC key a b) s)"

definition rm_ZRevRange :: "'s exec \<Rightarrow> string \<Rightarrow> int \<Rightarrow> int \<Rightarrow> 's \<Rightarrow> (redis_error + string list) \<times> 's" where
  "rm_ZRevRange exec key a b s = apfst reply_strs (exec (ZRevRangeC key a b) s)"

definition rm_ZScore :: "'s exec \<Rightarrow> string \<Rightarrow> string \<Rightarrow> 's \<Rightarrow> (redis_error + string) \<times> 's" where
  "rm_ZScore exec key m s = apfst reply_str (exec (ZScoreC key m) s)"

definition rm_ZCard :: "'s exec \<Rightarrow> string \<Rightarrow> 's \<Rightarrow> (redis_error + int) \<times> 's" where
  "rm_ZCard exec key s = apfst reply_int (exec (ZCardC key) s)"

definition rm_Publish :: "'s exec \<Rightarrow> string \<Rightarrow> string \<Rightarrow> 's \<Rightarrow> redis_error option \<times> 's" where
  "rm_Publish exec channel m s = apfst reply_err (exec (PublishC channel m) s)"

text \<open>
  Which connection \<open>Subscribe\<close>, \<open>PSubscribe\<close> and \<open>Close\<close> use: the cluster and the
  sentinel client are never created, so there is one only in single mode.
\<close>

definition manager_client :: "redis_manager \<Rightarrow> bool" where
  "manager_client rm =
     (if rm_mode rm = ''cluster'' then False
      else if rm_mode rm = ''sentinel'' then False
      else rm_client rm)"

definition rm_Subscribe :: "redis_manager \<Rightarrow> string list \<Rightarrow> string list option" where
  "rm_Subscribe rm channels = (if manager_client rm then Some channels else None)"

definition rm_PSubscribe :: "redis_manager \<Rightarrow> string list \<Rightarrow> string list option" where
  "rm_PSubscribe rm patterns = (if manager_client rm then Some patterns else None)"

definition rm_Close :: "('s \<Rightarrow> redis_error option \<times> 's) \<Rightarrow> redis_manager \<Rightarrow> 's \<Rightarrow> redis_error option \<times> 's" where
  "rm_Close close rm s = (if manager_client rm then close s else (None, s))"

section \<open>Locks\<close>

definition lock_key :: "string \<Rightarrow> string" where
  "lock_key key = ''lock:'' @ key"

definition rm_Lock :: "'s exec \<Rightarrow> string \<Rightarrow> duration \<Rightarrow> 's \<Rightarrow> (redis_error + bool) \<times> 's" where
  "rm_Lock exec key expiration s = apfst reply_bool (exec (SetNXC (lock_key key) ''1'' expiration) s)"

definition rm_Unlock :: "'s exec \<Rightarrow> string \<Rightarrow> 's \<Rightarrow> redis_error option \<times> 's" where
  "rm_Unlock exec key s = apfst reply_err (exec (DelC [lock_key key]) s)"

section \<open>The caches\<close>

text \<open>\<open>encoding/json\<close> on a \<open>uint64\<close>: white space around, \<open>null\<close> leaves zero, no leading
  zero, no overflow.\<close>

definition json_space :: "char \<Rightarrow> bool" where
  "json_space c \<longleftrightarrow> (of_char c :: nat) \<in> {9, 10, 13, 32}"

definition json_trim :: "string \<Rightarrow> string" where
  "json_trim s = rev (dropWhile json_space (rev (dropWhile json_space s)))"

definition json_u64 :: "string \<Rightarrow> u64 option" where
  "json_u64 s0 =
     (let s = json_trim s0 in
      if s = ''null'' then Some 0
      else if s = [] \<or> \<not> list_all is_digit s \<or> (hd s = digit 0 \<and> length s > 1) then None
      else if parse_digits s < 2 ^ 64 then Some (word_of_nat (parse_digits s)) else None)"

record session_cache =
  sc_prefix :: string
  sc_expiry :: duration

definition NewSessionCache :: session_cache where
  "NewSessionCache = \<lparr>sc_prefix = ''session:'', sc_expiry = 2 * 3600 * second\<rparr>"

definition SetSession :: "'s exec \<Rightarrow> session_cache \<Rightarrow> string \<Rightarrow> u64 \<Rightarrow> 's \<Rightarrow> redis_error option \<times> 's" where
  "SetSession exec sc sessionID userID s =
     rm_Set exec (sc_prefix sc @ sessionID) (VJson (Some (show_u64 userID))) (sc_expiry sc) s"

definition GetSession :: "'s exec \<Rightarrow> session_cache \<Rightarrow> string \<Rightarrow> 's \<Rightarrow> (redis_error + u64) \<times> 's" where
  "GetSession exec sc sessionID s =
     (case rm_GetString exec (sc_prefix sc @ sessionID) s of
        (Inl e, s') \<Rightarrow> (Inl e, s')
      | (Inr result, s') \<Rightarrow> (case json_u64 result of None \<Rightarrow> (Inl UnmarshalErr, s') | Some u \<Rightarrow> (Inr u, s')))"

definition DeleteSession :: "'s exec \<Rightarrow> session_cache \<Rightarrow> string \<Rightarrow> 's \<Rightarrow> redis_error option \<times> 's" where
  "DeleteSession exec sc sessionID s = rm_Delete exec [sc_prefix sc @ sessionID] s"

definition RefreshSession :: "'s exec \<Rightarrow> session_cache \<Rightarrow> string \<Rightarrow> 's \<Rightarrow> redis_error option \<times> 's" where
  "RefreshSession exec sc sessionID s = rm_Expire exec (sc_prefix sc @ sessionID) (sc_expiry sc) s"

record user_cache =
  uc_prefix :: string
  uc_expiry :: duration

definition NewUserCache :: user_cache where
  "NewUserCache = \<lparr>uc_prefix = ''user:'', uc_expiry = 24 * 3600 * second\<rparr>"

definition user_key :: "user_cache \<Rightarrow> u64 \<Rightarrow> string" where
  "user_key uc userID = uc_prefix uc @ show_u64 userID"

definition online_key :: "u64 \<Rightarrow> string" where
  "online_key userID = ''online:'' @ show_u64 userID"

definition SetUserInfo :: "'s exec \<Rightarrow> user_cache \<Rightarrow> u64 \<Rightarrow> set_value \<Rightarrow> 's \<Rightarrow> redis_error option \<times> 's" where
  "SetUserInfo exec uc userID info s = rm_Set exec (user_key uc userID) info (uc_expiry uc) s"

definition GetUserInfo ::
  "'s exec \<Rightarrow> (string \<Rightarrow> 'a option) \<Rightarrow> user_cache \<Rightarrow> u64 \<Rightarrow> 's \<Rightarrow> (redis_error + 'a) \<times> 's" where
  "GetUserInfo exec unmarshal uc userID s = rm_GetObject exec unmarshal (user_key uc userID) s"

definition DeleteUserInfo :: "'s exec \<Rightarrow> user_cache \<Rightarrow> u64 \<Rightarrow> 's \<Rightarrow> redis_error option \<times> 's" where
  "DeleteUserInfo exec uc userID s = rm_Delete exec [user_key uc userID] s"

definition SetUserOnline :: "'s exec \<Rightarrow> u64 \<Rightarrow> string \<Rightarrow> 's \<Rightarrow> redis_error option \<times> 's" where
  "SetUserOnline exec userID nodeID s = rm_Set exec (online_key userID) (VString nodeID) (30 * 60 * second) s"

definition GetUserOnline :: "'s exec \<Rightarrow> u64 \<Rightarrow> 's \<Rightarrow> (redis_error + string) \<times> 's" where
  "GetUserOnline exec userID s = rm_GetString exec (online_key userID) s"

definition SetUserOffline :: "'s exec \<Rightarrow> u64 \<Rightarrow> 's \<Rightarrow> redis_error option \<times> 's" where
  "SetUserOffline exec userID s = rm_Delete exec [online_key userID] s"

section \<open>What Redis documents\<close>

definition is_err :: "reply \<Rightarrow> bool" where
  "is_err r \<longleftrightarrow> (\<exists>e. r = RErr e)"

text \<open>
  \<open>live\<close> holds the string keys that have not expired; expiry is a step of its own. A
  command that fails may have been applied.
\<close>

locale redis =
  fixes exec :: "'s exec"
    and live :: "'s \<Rightarrow> string \<rightharpoonup> string"
    and expire :: "string \<Rightarrow> 's \<Rightarrow> 's"
  assumes set: "exec (SetC k v d) s = (r, s') \<Longrightarrow>
      (live s' = (live s)(k \<mapsto> v) \<and> r \<noteq> RNil) \<or> (is_err r \<and> live s' = live s)"
    and setnx: "exec (SetNXC k v d) s = (r, s') \<Longrightarrow>
      (live s k = None \<and> live s' = (live s)(k \<mapsto> v) \<and> (r = RBool True \<or> is_err r)) \<or>
      (live s k \<noteq> None \<and> live s' = live s \<and> r = RBool False) \<or> (is_err r \<and> live s' = live s)"
    and get: "exec (GetC k) s = (r, s') \<Longrightarrow> live s' = live s \<and>
      ((\<exists>v. r = RStr v \<and> live s k = Some v) \<or> (r = RNil \<and> live s k = None) \<or> is_err r)"
    and del: "exec (DelC ks) s = (r, s') \<Longrightarrow>
      (live s' = (\<lambda>k. if k \<in> set ks then None else live s k) \<and> r \<noteq> RNil) \<or> (is_err r \<and> live s' = live s)"
    and expireC: "0 < d \<Longrightarrow> exec (ExpireC k d) s = (r, s') \<Longrightarrow> live s' = live s"
    and expire: "live (expire k s) = (live s)(k := None)"

section \<open>The session store contract\<close>

text \<open>What the login service relies on: a map from session ids to users.\<close>

locale session_store =
  fixes set_session :: "string \<Rightarrow> u64 \<Rightarrow> 's \<Rightarrow> redis_error option \<times> 's"
    and get_session :: "string \<Rightarrow> 's \<Rightarrow> (redis_error + u64) \<times> 's"
    and delete_session :: "string \<Rightarrow> 's \<Rightarrow> redis_error option \<times> 's"
    and refresh_session :: "string \<Rightarrow> 's \<Rightarrow> redis_error option \<times> 's"
    and sessions :: "'s \<Rightarrow> string \<rightharpoonup> u64"
  assumes set_law: "set_session i u s = (e, s') \<Longrightarrow>
      sessions s' = (sessions s)(i \<mapsto> u) \<or> e \<noteq> None \<and> sessions s' = sessions s"
    and get_law: "get_session i s = (r, s') \<Longrightarrow> sessions s' = sessions s \<and>
      (\<forall>u. r = Inr u \<longrightarrow> sessions s i = Some u) \<and>
      (\<forall>u. sessions s i = Some u \<longrightarrow> r = Inr u \<or> (\<exists>m. r = Inl (RedisErr m)))"
    and delete_law: "delete_session i s = (e, s') \<Longrightarrow>
      sessions s' = (sessions s)(i := None) \<or> e \<noteq> None \<and> sessions s' = sessions s"
    and refresh_law: "refresh_session i s = (e, s') \<Longrightarrow> sessions s' = sessions s"
begin

lemma set_then_get:
  assumes "set_session i u s = (None, s1)" and "get_session i s1 = (r, s2)"
  shows "r = Inr u \<or> (\<exists>m. r = Inl (RedisErr m))"
  using set_law [OF assms(1)] get_law [OF assms(2)] by auto

end

lemma json_space_digit: "is_digit c \<Longrightarrow> \<not> json_space c"
  by (auto simp: is_digit_def json_space_def)

lemma json_trim_digits: "list_all is_digit s \<Longrightarrow> json_trim s = s"
proof -
  have d: "list_all is_digit t \<Longrightarrow> dropWhile json_space t = t" for t
    by (cases t) (auto simp: json_space_digit)
  assume "list_all is_digit s"
  then show ?thesis using d [of s] d [of "rev s"] by (simp add: json_trim_def list_all_iff)
qed

lemma json_u64_show [simp]: "json_u64 (show_u64 u) = Some u"
proof -
  let ?s = "show_nat (unat u)"
  have d: "list_all is_digit ?s" by (rule show_nat_digits)
  have lead: "\<not> (hd ?s = digit 0 \<and> length ?s > 1)"
  proof (cases "unat u = 0")
    case True
    then show ?thesis by (simp add: show_nat.simps)
  next
    case False
    then show ?thesis using hd_show_nat [of "unat u"] by simp
  qed
  have "?s \<noteq> ''null''"
  proof
    assume "?s = ''null''"
    then have "is_digit (CHR ''n'')" using d by simp
    then show False by (simp add: is_digit_def)
  qed
  moreover have "unat u < 2 ^ LENGTH(64)" by (rule unsigned_less)
  ultimately show ?thesis using d lead
    by (simp add: json_u64_def show_u64_def json_trim_digits Let_def)
qed

text \<open>The sessions that a Redis state holds.\<close>

definition redis_sessions :: "('s \<Rightarrow> string \<rightharpoonup> string) \<Rightarrow> 's \<Rightarrow> string \<rightharpoonup> u64" where
  "redis_sessions live s i =
     (case live s (''session:'' @ i) of None \<Rightarrow> None | Some v \<Rightarrow> json_u64 v)"

sublocale redis \<subseteq> sess: session_store "SetSession exec NewSessionCache" "GetSession exec NewSessionCache"
  "DeleteSession exec NewSessionCache" "RefreshSession exec NewSessionCache" "redis_sessions live"
proof unfold_locales
  fix i u e and s s' :: 's
  assume "SetSession exec NewSessionCache i u s = (e, s')"
  then obtain r where r: "exec (SetC (''session:'' @ i) (show_u64 u) (2 * 3600 * second)) s = (r, s')" "e = reply_err r"
    by (auto simp: SetSession_def rm_Set_def NewSessionCache_def apfst_def map_prod_def split: prod.splits)
  show "redis_sessions live s' = (redis_sessions live s)(i \<mapsto> u) \<or> e \<noteq> None \<and> redis_sessions live s' = redis_sessions live s"
    using set [OF r(1)] r(2) by (auto simp: redis_sessions_def fun_eq_iff is_err_def)
next
  fix i r and s s' :: 's
  assume g: "GetSession exec NewSessionCache i s = (r, s')"
  obtain x s1 where x: "exec (GetC (''session:'' @ i)) s = (x, s1)" by fastforce
  show "redis_sessions live s' = redis_sessions live s \<and>
      (\<forall>u. r = Inr u \<longrightarrow> redis_sessions live s i = Some u) \<and>
      (\<forall>u. redis_sessions live s i = Some u \<longrightarrow> r = Inr u \<or> (\<exists>m. r = Inl (RedisErr m)))"
    using get [OF x] g x
    by (auto simp: GetSession_def rm_GetString_def NewSessionCache_def redis_sessions_def is_err_def fun_eq_iff
        split: option.splits)
next
  fix i e and s s' :: 's
  assume "DeleteSession exec NewSessionCache i s = (e, s')"
  then obtain r where r: "exec (DelC [''session:'' @ i]) s = (r, s')" "e = reply_err r"
    by (auto simp: DeleteSession_def rm_Delete_def NewSessionCache_def apfst_def map_prod_def split: prod.splits)
  show "redis_sessions live s' = (redis_sessions live s)(i := None) \<or> e \<noteq> None \<and> redis_sessions live s' = redis_sessions live s"
    using del [OF r(1)] r(2) by (auto simp: redis_sessions_def fun_eq_iff is_err_def)
next
  fix i e and s s' :: 's
  assume "RefreshSession exec NewSessionCache i s = (e, s')"
  then obtain r where r: "exec (ExpireC (''session:'' @ i) (2 * 3600 * second)) s = (r, s')"
    by (auto simp: RefreshSession_def rm_Expire_def NewSessionCache_def apfst_def map_prod_def split: prod.splits)
  have "live s' = live s" by (rule expireC [OF _ r]) simp
  then show "redis_sessions live s' = redis_sessions live s" by (simp add: redis_sessions_def fun_eq_iff)
qed

section \<open>A server kept in memory\<close>

fun mem_exec :: "rcmd \<Rightarrow> (string \<times> string) list \<Rightarrow> reply \<times> (string \<times> string) list" where
  "mem_exec PingC s = (RStatus, s)"
| "mem_exec (SetC k v d) s = (RStatus, AList.update k v s)"
| "mem_exec (SetNXC k v d) s =
     (if map_of s k = None then (RBool True, AList.update k v s) else (RBool False, s))"
| "mem_exec (GetC k) s = (case map_of s k of None \<Rightarrow> RNil | Some v \<Rightarrow> RStr v, s)"
| "mem_exec (DelC ks) s = (RInt (int (length (filter (\<lambda>k. map_of s k \<noteq> None) ks))),
     filter (\<lambda>kv. \<not> List.member ks (fst kv)) s)"
| "mem_exec (ExistsC k) s = (RInt (if map_of s k = None then 0 else 1), s)"
| "mem_exec (ExpireC k d) s = (RBool (map_of s k \<noteq> None), s)"
| "mem_exec _ s = (RErr ''unsupported'', s)"

lemma map_of_filter_notin:
  "map_of (filter (\<lambda>kv. fst kv \<notin> set ks) s) = (\<lambda>k. if k \<in> set ks then None else map_of s k)"
proof
  fix k
  show "map_of (filter (\<lambda>kv. fst kv \<notin> set ks) s) k = (if k \<in> set ks then None else map_of s k)"
    by (induction s) auto
qed

interpretation mem_redis: redis mem_exec map_of AList.delete
  by unfold_locales
    (auto simp: update_conv' delete_conv' map_of_filter_notin is_err_def split: option.splits if_splits)

section \<open>Properties\<close>

context redis
begin

lemmas session_contract = sess.session_store_axioms

lemma session_roundtrip_law:
  assumes "SetSession exec NewSessionCache i u s = (None, s1)"
    and "GetSession exec NewSessionCache j s1 = (r, s2)"
  shows "redis_sessions live s2 = (redis_sessions live s)(i \<mapsto> u) \<and>
    (case if j = i then Some u else redis_sessions live s j of
       Some v \<Rightarrow> r = Inr v \<or> (\<exists>m. r = Inl (RedisErr m))
     | None \<Rightarrow> \<not> (\<exists>v. r = Inr v))"
  using sess.set_law [OF assms(1)] sess.get_law [OF assms(2)] by (auto split: option.split)

text \<open>When Redis takes the command, the session is read, set or gone.\<close>

lemma GetSession_answered:
  assumes "GetSession exec NewSessionCache i s = (r, s')" and "redis_sessions live s i = Some v"
    and "\<not> is_err (fst (exec (GetC (''session:'' @ i)) s))"
  shows "r = Inr v"
proof -
  obtain x s1 where x: "exec (GetC (''session:'' @ i)) s = (x, s1)" by fastforce
  then show ?thesis using get [OF x] assms
    by (auto simp: GetSession_def rm_GetString_def NewSessionCache_def redis_sessions_def split: option.splits)
qed

lemma SetSession_taken:
  assumes "SetSession exec NewSessionCache i u s = (e, s')" and "\<And>k v d s. \<not> is_err (fst (exec (SetC k v d) s))"
  shows "redis_sessions live s' = (redis_sessions live s)(i \<mapsto> u)"
proof -
  obtain r where r: "exec (SetC (''session:'' @ i) (show_u64 u) (2 * 3600 * second)) s = (r, s')"
    using assms(1) by (auto simp: SetSession_def rm_Set_def NewSessionCache_def apfst_def map_prod_def split: prod.splits)
  then have "\<not> is_err r" using assms(2) by (metis fst_conv)
  then show ?thesis using set [OF r] by (auto simp: redis_sessions_def fun_eq_iff)
qed

lemma DeleteSession_taken:
  assumes "DeleteSession exec NewSessionCache i s = (e, s')" and "\<And>ks s. \<not> is_err (fst (exec (DelC ks) s))"
  shows "redis_sessions live s' = (redis_sessions live s)(i := None)"
proof -
  obtain r where r: "exec (DelC [''session:'' @ i]) s = (r, s')"
    using assms(1) by (auto simp: DeleteSession_def rm_Delete_def NewSessionCache_def apfst_def map_prod_def split: prod.splits)
  then have "\<not> is_err r" using assms(2) by (metis fst_conv)
  then show ?thesis using del [OF r] by (auto simp: redis_sessions_def fun_eq_iff)
qed

lemma Lock_law:
  assumes "rm_Lock exec key d s = (res, s')"
  shows "(res = Inr True \<longrightarrow> live s (lock_key key) = None \<and> live s' = (live s)(lock_key key \<mapsto> ''1'')) \<and>
    (res = Inr False \<longrightarrow> live s (lock_key key) \<noteq> None \<and> live s' = live s)"
  using assms setnx [of "lock_key key" "''1''" d s]
  by (fastforce simp: rm_Lock_def is_err_def apfst_def map_prod_def split: prod.splits)

lemma Unlock_law:
  assumes "rm_Unlock exec key s = (None, s')"
  shows "live s' = (live s)(lock_key key := None)"
  using assms del [of "[lock_key key]" s]
  by (fastforce simp: rm_Unlock_def is_err_def fun_eq_iff apfst_def map_prod_def split: prod.splits)

end

text \<open>
  C16. On any Redis that does what it documents, after a successful SetSession of a token the
  stored sessions are the old ones with exactly this token mapped to the user. GetSession then
  returns this user (every uint64 survives its JSON form), and for another token the user
  stored before, unless Redis answers the GET itself with an error, which it then returns; for
  a token without a stored user it returns no user.
\<close>

theorem session_roundtrip:
  assumes "redis exec live expire"
    and "SetSession exec NewSessionCache i u s = (None, s1)"
    and "GetSession exec NewSessionCache j s1 = (r, s2)"
  shows "redis_sessions live s2 = (redis_sessions live s)(i \<mapsto> u) \<and>
    (case if j = i then Some u else redis_sessions live s j of
       Some v \<Rightarrow> r = Inr v \<or> (\<exists>m. r = Inl (RedisErr m)) \<and> is_err (fst (exec (GetC (''session:'' @ j)) s1))
     | None \<Rightarrow> \<not> (\<exists>v. r = Inr v))"
proof -
  note law = redis.session_roundtrip_law [OF assms]
  have "redis_sessions live s1 = (redis_sessions live s)(i \<mapsto> u)"
    using session_store.set_law [OF redis.session_contract [OF assms(1)] assms(2)] by simp
  then have "r = Inr v" if "(if j = i then Some u else redis_sessions live s j) = Some v"
      "\<not> is_err (fst (exec (GetC (''session:'' @ j)) s1))" for v
    using that by (intro redis.GetSession_answered [OF assms(1,3)]) (auto split: if_splits)
  then show ?thesis using law by (auto split: option.splits if_splits)
qed

theorem session_roundtrip_witness:
  "let (e, s1) = SetSession mem_exec NewSessionCache ''t'' 18446744073709551615 [];
     (r, s2) = GetSession mem_exec NewSessionCache ''t'' s1
   in e = None \<and> r = Inr 18446744073709551615"
proof -
  let ?u = "18446744073709551615 :: u64"
  obtain e s1 where s: "SetSession mem_exec NewSessionCache ''t'' ?u [] = (e, s1)" by fastforce
  obtain r s2 where g: "GetSession mem_exec NewSessionCache ''t'' s1 = (r, s2)" by fastforce
  have e: "e = None" using s by (auto simp: SetSession_def rm_Set_def)
  have "\<not> is_err (fst (mem_exec (GetC (''session:'' @ ''t'')) s1))" by (simp add: is_err_def split: option.splits)
  then have "r = Inr ?u" using session_roundtrip [OF mem_redis.redis_axioms s [unfolded e] g] by auto
  then show ?thesis using s g e by simp
qed

text \<open>
  The distributed lock excludes while it lives and is not owned: a second Lock fails; after the
  first holder's key expired another caller gets the lock; and an Unlock, which deletes the key
  whoever holds it, lets a third caller in while the second still believes he holds it.
\<close>

theorem lock_lost_after_expiry:
  assumes "redis exec live expire"
    and "rm_Lock exec key d s = (Inr True, s1)"
    and "rm_Lock exec key d' s1 = (Inr b, s2)"
    and "rm_Lock exec key d' (expire (lock_key key) s2) = (Inr b', s3)"
    and "rm_Unlock exec key s3 = (None, s4)"
    and "rm_Lock exec key d'' s4 = (Inr b'', s5)"
  shows "\<not> b \<and> b' \<and> b''"
proof -
  have s1: "live s1 (lock_key key) = Some ''1''" using redis.Lock_law [OF assms(1,2)] by simp
  have b: "\<not> b \<and> live s2 = live s1" using redis.Lock_law [OF assms(1,3)] s1 by (cases b) auto
  have "live (expire (lock_key key) s2) (lock_key key) = None" using redis.expire [OF assms(1)] by simp
  then have b': b' using redis.Lock_law [OF assms(1,4)] by (cases b') auto
  have "live s4 (lock_key key) = None" using redis.Unlock_law [OF assms(1,5)] by simp
  then have b'' using redis.Lock_law [OF assms(1,6)] by (cases b'') auto
  with b b' show ?thesis by simp
qed

theorem lock_lost_after_expiry_witness:
  "let (r1, s1) = rm_Lock mem_exec ''k'' 1 []; (r2, s2) = rm_Lock mem_exec ''k'' 1 s1;
     (r3, s3) = rm_Lock mem_exec ''k'' 1 (AList.delete (lock_key ''k'') s2);
     (e, s4) = rm_Unlock mem_exec ''k'' s3; (r4, s5) = rm_Lock mem_exec ''k'' 1 s4
   in (r1, r2, r3, e, r4) = (Inr True, Inr False, Inr True, None, Inr True)"
proof -
  let ?s = "[(lock_key ''k'', ''1'')]"
  have l: "rm_Lock mem_exec ''k'' 1 [] = (Inr True, ?s)" by (simp add: rm_Lock_def)
  have l2: "rm_Lock mem_exec ''k'' 1 ?s = (Inr False, ?s)" by (simp add: rm_Lock_def)
  have x: "AList.delete (lock_key ''k'') ?s = []" by (simp add: AList.delete_eq)
  have u: "rm_Unlock mem_exec ''k'' ?s = (None, [])" by (simp add: rm_Unlock_def)
  have "\<not> False \<and> True \<and> True"
    by (rule lock_lost_after_expiry [OF mem_redis.redis_axioms l l2 _ u l]) (simp add: x l)
  then show ?thesis using l l2 x u by simp
qed

end
