(* ===== verification/Login.thy ===== *)
theory Login
  imports Repos RedisCache Md5
begin

text \<open>
  The login service, \<open>internal/server/login_server.go\<close>: login, logout, token validation and
  refresh, on the user repository, the user cache and the session cache. The handlers act on a
  database state and a Redis state; \<open>marshal_user\<close> is \<open>json.Marshal\<close> on a user.
\<close>

section \<open>Passwords and tokens\<close>

definition hashPassword :: "string \<Rightarrow> string" where
  "hashPassword password = md5_hex (password @ ''co_game_salt'')"

definition verifyPassword :: "string \<Rightarrow> string \<Rightarrow> bool" where
  "verifyPassword plainPassword hashedPassword \<longleftrightarrow> hashPassword plainPassword = hashedPassword"

definition generateToken :: "u64 \<Rightarrow> time \<Rightarrow> string" where
  "generateToken userID now =
     md5_hex (show_u64 userID @ ''_'' @ show_int (unix now) @ ''_'' @ ''co_token_salt'')"

section \<open>Messages\<close>

record login_request =
  lq_Username :: string
  lq_Password :: string
  lq_Platform :: string
  lq_Version :: string

record login_response =
  lr_UserId :: u64
  lr_Token :: string
  lr_Nickname :: string
  lr_Level :: int
  lr_Exp :: int
  lr_Gold :: int
  lr_Diamond :: int

datatype login_error = InvalidCredentials | UserBanned

record ('d, 's) login_env =
  le_db :: "'d mongo"
  le_exec :: "'s exec"
  le_marshal_user :: "user \<Rightarrow> string option"

section \<open>Handlers\<close>

text \<open>The results of \<open>UpdateFields\<close> (only logged), \<open>SetUserInfo\<close> and \<open>SetSession\<close> are ignored.\<close>

definition Login ::
  "('d, 's) login_env \<Rightarrow> (nat \<Rightarrow> time) \<Rightarrow> login_request \<Rightarrow> 'd \<Rightarrow> 's \<Rightarrow>
   (login_error + login_response) \<times> 'd \<times> 's" where
  "Login env now req d s =
     (case repo_GetByUsername (le_db env) (lq_Username req) d of
        (Inl _, d1) \<Rightarrow> (Inl InvalidCredentials, d1, s)
      | (Inr user, d1) \<Rightarrow>
          if \<not> verifyPassword (lq_Password req) (u_Password user) then (Inl InvalidCredentials, d1, s)
          else if u_Status user \<noteq> 0 then (Inl UserBanned, d1, s)
          else (let token = generateToken (u_UserID user) (now 0);
                    (_, d2) = repo_UpdateFields (le_db env) (now 2) (u_UserID user)
                       [(''last_login_at'', FTime (now 1)), (''last_login_ip'', FStr ''0.0.0.0'')] d1;
                    (_, s1) = SetUserInfo (le_exec env) NewUserCache (u_UserID user)
                       (VJson (le_marshal_user env user)) s;
                    (_, s2) = SetSession (le_exec env) NewSessionCache token (u_UserID user) s1
                in (Inr \<lparr>lr_UserId = u_UserID user, lr_Token = token, lr_Nickname = u_Nickname user,
                      lr_Level = u_Level user, lr_Exp = u_Experience user, lr_Gold = u_Gold user,
                      lr_Diamond = u_Diamond user\<rparr>, d2, s2)))"

definition Logout ::
  "('d, 's) login_env \<Rightarrow> msg_header option \<Rightarrow> 's \<Rightarrow> base_response outcome \<times> 's" where
  "Logout env header s =
     (case header of
        None \<Rightarrow> (Panic NilDereference, s)
      | Some h \<Rightarrow>
          if mh_UserId h = 0 then (Ret (respond header (- 1) ''invalid user id''), s)
          else (let s1 = (if mh_SessionId h \<noteq> ''''
                          then snd (DeleteSession (le_exec env) NewSessionCache (mh_SessionId h) s) else s);
                    (_, s2) = SetUserOffline (le_exec env) (mh_UserId h) s1
                in (Ret (respond header 0 ''logout success''), s2)))"

definition user_id_json :: "u64 \<Rightarrow> bytes" where
  "user_id_json userID = bytes_of (''{'' @ [CHR 0x22] @ ''user_id'' @ [CHR 0x22] @ '':'' @ show_u64 userID @ ''}'')"

definition token_json :: "string \<Rightarrow> bytes" where
  "token_json token =
     bytes_of (''{'' @ [CHR 0x22] @ ''token'' @ [CHR 0x22] @ '':'' @ [CHR 0x22] @ token @ [CHR 0x22] @ ''}'')"

definition ValidateToken ::
  "('d, 's) login_env \<Rightarrow> base_request \<Rightarrow> 's \<Rightarrow> base_response outcome \<times> 's" where
  "ValidateToken env req s =
     (case rq_Header req of
        None \<Rightarrow> (Panic NilDereference, s)
      | Some h \<Rightarrow>
          if mh_SessionId h = '''' then (Ret (respond (Some h) (- 1) ''missing session id''), s)
          else (case GetSession (le_exec env) NewSessionCache (mh_SessionId h) s of
            (Inl _, s1) \<Rightarrow> (Ret (respond (Some h) (- 2) ''invalid session''), s1)
          | (Inr userID, s1) \<Rightarrow>
              (let (_, s2) = RefreshSession (le_exec env) NewSessionCache (mh_SessionId h) s1
               in (Ret \<lparr>rs_Header = Some h, rs_Code = 0, rs_Msg = ''token valid'',
                        rs_Data = user_id_json userID\<rparr>, s2))))"

definition RefreshToken ::
  "('d, 's) login_env \<Rightarrow> time \<Rightarrow> base_request \<Rightarrow> 's \<Rightarrow> base_response outcome \<times> 's" where
  "RefreshToken env now req s =
     (case rq_Header req of
        None \<Rightarrow> (Panic NilDereference, s)
      | Some h \<Rightarrow>
          if mh_UserId h = 0 then (Ret (respond (Some h) (- 1) ''invalid user id''), s)
          else (let newToken = generateToken (mh_UserId h) now;
                    s1 = (if mh_SessionId h \<noteq> ''''
                          then snd (DeleteSession (le_exec env) NewSessionCache (mh_SessionId h) s) else s);
                    (_, s2) = SetSession (le_exec env) NewSessionCache newToken (mh_UserId h) s1
                in (Ret \<lparr>rs_Header = Some h, rs_Code = 0, rs_Msg = ''token refreshed'',
                         rs_Data = token_json newToken\<rparr>, s2)))"

section \<open>Lemmas\<close>

text \<open>\<open>examples/gateway/main.go\<close> prints the hash of a password; its comment says which.\<close>

definition demo_hash_output :: string where
  "demo_hash_output = hashPassword ''123456789''"

lemma hashPassword_demo: "demo_hash_output = ''8ccd4fe51cfc4dc51f51b43625998ee5''"
  by (simp add: demo_hash_output_def hashPassword_def md5_salted)

lemma verify_hash [simp]: "verifyPassword p (hashPassword p)"
  by (simp add: verifyPassword_def)

context mongo_driver
begin

lemma get_by_name_law:
  "repo_GetByUsername db n d = (res, d') \<Longrightarrow> rooms d' = rooms d \<and> users d' = users d \<and>
     (\<forall>u. res = Inr u \<longrightarrow> u_Username u = n \<and> users d (u_UserID u) = Some u)"
  using users_find_name [of n d]
  by (fastforce simp: repo_GetByUsername_def find_user_def Let_def
      split: prod.splits sum.splits db_error.splits)

lemma update_fields_law:
  assumes "repo_UpdateFields db now i fs d = (e, d')"
    and "list_all known_field fs"
  shows "rooms d' = rooms d \<and> (users d' = users d \<or>
    (\<exists>u. users d i = Some u \<and> users d' = (users d)(i \<mapsto> fold set_user_field
       ((''updated_at'', FTime now) # filter (\<lambda>kv. fst kv \<noteq> ''updated_at'') fs) u)))"
proof -
  let ?fs = "(''updated_at'', FTime now) # filter (\<lambda>kv. fst kv \<noteq> ''updated_at'') fs"
  obtain x where x: "users_UpdateOne db (UserIdIs i) [SetFields ?fs] d = (x, d')"
    using assms(1) by (auto simp: repo_UpdateFields_def db_result_def Let_def split: prod.splits option.splits)
  have "list_all known_field ?fs" using assms(2) by (simp add: list_all_iff)
  then show ?thesis using users_update [OF x] by (auto split: option.splits)
qed

end

context redis
begin

lemma set_user_info_sessions:
  assumes "SetUserInfo exec NewUserCache i v s = (e, s')"
  shows "redis_sessions live s' = redis_sessions live s"
proof -
  have key: "''user:'' @ t \<noteq> ''session:'' @ j" for t j :: string by simp
  show ?thesis
  proof (cases "(case v of VString x \<Rightarrow> Some x | VBytes x \<Rightarrow> Some x | VJson j \<Rightarrow> j)")
    case None
    then show ?thesis using assms by (simp add: SetUserInfo_def rm_Set_def)
  next
    case (Some x)
    then obtain r where "exec (SetC (''user:'' @ show_u64 i) x (24 * 3600 * second)) s = (r, s')"
      using assms by (auto simp: SetUserInfo_def rm_Set_def user_key_def NewUserCache_def apfst_def map_prod_def
          split: prod.splits)
    from set [OF this] show ?thesis by (auto simp: redis_sessions_def fun_eq_iff)
  qed
qed

lemma set_offline_sessions:
  assumes "SetUserOffline exec i s = (e, s')"
  shows "redis_sessions live s' = redis_sessions live s"
proof -
  obtain r where "exec (DelC [online_key i]) s = (r, s')"
    using assms by (auto simp: SetUserOffline_def rm_Delete_def apfst_def map_prod_def split: prod.splits)
  from del [OF this] show ?thesis by (auto simp: redis_sessions_def fun_eq_iff online_key_def)
qed

lemma ValidateToken_law:
  assumes "ValidateToken env req s = (Ret resp, s')" and "le_exec env = exec" and "rs_Code resp = 0"
  shows "\<exists>h u. rq_Header req = Some h \<and> redis_sessions live s (mh_SessionId h) = Some u \<and>
    rs_Data resp = user_id_json u \<and> redis_sessions live s' = redis_sessions live s"
proof -
  obtain h where h: "rq_Header req = Some h" "mh_SessionId h \<noteq> ''''"
    using assms by (auto simp: ValidateToken_def split: option.splits if_splits)
  obtain r s1 where g: "GetSession exec NewSessionCache (mh_SessionId h) s = (r, s1)" by fastforce
  obtain u where u: "r = Inr u" using assms h g
    by (cases r) (auto simp: ValidateToken_def)
  obtain e s2 where ref: "RefreshSession exec NewSessionCache (mh_SessionId h) s1 = (e, s2)" by fastforce
  have "resp = \<lparr>rs_Header = Some h, rs_Code = 0, rs_Msg = ''token valid'', rs_Data = user_id_json u\<rparr> \<and> s' = s2"
    using assms h g u ref by (simp add: ValidateToken_def)
  moreover have "redis_sessions live s1 = redis_sessions live s" "redis_sessions live s (mh_SessionId h) = Some u"
    using sess.get_law [OF g] u by blast+
  ultimately show ?thesis using h sess.refresh_law [OF ref] by simp
qed

end

section \<open>Properties\<close>

lemma generateToken_ne: "generateToken u t \<noteq> ''''"
proof -
  have "length (generateToken u t) = 32" by (simp add: generateToken_def)
  then show ?thesis by auto
qed

lemma Login_success:
  assumes "mongo_driver (le_db env) rooms users" and "redis (le_exec env) live expire"
    and "Login env now req d s = (Inr resp, d', s')"
  shows "\<exists>u. users d (lr_UserId resp) = Some u \<and> u_Username u = lq_Username req \<and>
      u_Password u = hashPassword (lq_Password req) \<and> u_Status u = 0 \<and>
      lr_Token resp = generateToken (lr_UserId resp) (now 0) \<and>
      rooms d' = rooms d \<and>
      (redis_sessions live s' = (redis_sessions live s)(lr_Token resp \<mapsto> lr_UserId resp) \<or>
       redis_sessions live s' = redis_sessions live s)"
proof -
  obtain res d1 where g: "repo_GetByUsername (le_db env) (lq_Username req) d = (res, d1)" by fastforce
  obtain u where u: "res = Inr u" using assms(3) g by (cases res) (auto simp: Login_def)
  have chk: "verifyPassword (lq_Password req) (u_Password u)" "u_Status u = 0"
    using assms(3) g u by (auto simp: Login_def split: if_splits)
  let ?tok = "generateToken (u_UserID u) (now 0)"
  obtain e2 d2 where up: "repo_UpdateFields (le_db env) (now 2) (u_UserID u)
     [(''last_login_at'', FTime (now 1)), (''last_login_ip'', FStr ''0.0.0.0'')] d1 = (e2, d2)" by fastforce
  obtain e3 s1 where inf: "SetUserInfo (le_exec env) NewUserCache (u_UserID u) (VJson (le_marshal_user env u)) s = (e3, s1)"
    by fastforce
  obtain e4 s2 where se: "SetSession (le_exec env) NewSessionCache ?tok (u_UserID u) s1 = (e4, s2)" by fastforce
  have r: "lr_UserId resp = u_UserID u" "lr_Token resp = ?tok" "d' = d2" "s' = s2"
    using assms(3) g u chk up inf se by (auto simp: Login_def)
  have law: "rooms d1 = rooms d" "u_Username u = lq_Username req" "users d (u_UserID u) = Some u"
    using mongo_driver.get_by_name_law [OF assms(1) g] u by simp_all
  have "rooms d2 = rooms d1" using mongo_driver.update_fields_law [OF assms(1) up] by simp
  moreover have "redis_sessions live s1 = redis_sessions live s"
    by (rule redis.set_user_info_sessions [OF assms(2) inf])
  moreover have "redis_sessions live s2 = (redis_sessions live s1)(?tok \<mapsto> u_UserID u) \<or>
    redis_sessions live s2 = redis_sessions live s1"
    using session_store.set_law [OF redis.session_contract [OF assms(2)] se] by blast
  ultimately show ?thesis using r law chk by (auto simp: verifyPassword_def)
qed

text \<open>
  C3. A Login that succeeds found a user of the given name in the database whose stored
  password is the salted MD5 of the given one and who is not banned; it answers with this
  user's id and the token of the id and the second, and the sessions are the old ones with at
  most the token mapped to this user added. A Login that fails changes neither Redis nor any
  user or room.
\<close>

theorem Login_correct:
  assumes "mongo_driver (le_db env) rooms users" and "redis (le_exec env) live expire"
    and "Login env now req d s = (res, d', s')"
  shows "(\<forall>resp. res = Inr resp \<longrightarrow>
      (\<exists>u. users d (lr_UserId resp) = Some u \<and> u_Username u = lq_Username req \<and>
         u_Password u = hashPassword (lq_Password req) \<and> u_Status u = 0 \<and>
         lr_Token resp = generateToken (lr_UserId resp) (now 0) \<and> rooms d' = rooms d \<and>
         (redis_sessions live s' = (redis_sessions live s)(lr_Token resp \<mapsto> lr_UserId resp) \<or>
          redis_sessions live s' = redis_sessions live s))) \<and>
    (\<forall>e. res = Inl e \<longrightarrow> s' = s \<and> users d' = users d \<and> rooms d' = rooms d)"
proof (cases res)
  case (Inl e)
  obtain r d1 where g: "repo_GetByUsername (le_db env) (lq_Username req) d = (r, d1)" by fastforce
  then have "s' = s \<and> d' = d1" using assms(3) Inl
    by (auto simp: Login_def Let_def split: sum.splits if_splits prod.splits)
  then show ?thesis using Inl mongo_driver.get_by_name_law [OF assms(1) g] by simp
next
  case (Inr resp)
  then show ?thesis using Login_success [OF assms(1,2)] assms(3) by simp
qed

definition demo_login_request :: login_request where
  "demo_login_request = \<lparr>lq_Username = ''ann'', lq_Password = ''pw'', lq_Platform = ''web'', lq_Version = ''1''\<rparr>"

definition demo_env :: "(mem_db, (string \<times> string) list) login_env" where
  "demo_env = \<lparr>le_db = mem_mongo, le_exec = mem_exec, le_marshal_user = (\<lambda>u. Some ''u'')\<rparr>"

definition demo_account :: user where
  "demo_account = \<lparr>u_ID = ''1'', u_UserID = 7, u_Username = ''ann'', u_Password = hashPassword ''pw'',
     u_Nickname = ''Ann'', u_Email = '''', u_Phone = '''', u_Level = 1, u_Experience = 0, u_Gold = 0,
     u_Diamond = 0, u_Avatar = '''', u_Status = 0, u_LastLoginIP = '''', u_LastLoginAt = 0,
     u_CreatedAt = 0, u_UpdatedAt = 0\<rparr>"

definition demo_users :: mem_db where
  "demo_users = \<lparr>mem_rooms = [], mem_users = [demo_account]\<rparr>"

lemma demo_login:
  "\<exists>d'. Login demo_env (\<lambda>i. 0) demo_login_request demo_users [] =
     (Inr \<lparr>lr_UserId = 7, lr_Token = generateToken 7 0, lr_Nickname = ''Ann'', lr_Level = 1, lr_Exp = 0,
        lr_Gold = 0, lr_Diamond = 0\<rparr>, d',
      AList.update (''session:'' @ generateToken 7 0) (show_u64 7) [(user_key NewUserCache 7, ''u'')])"
  by (simp add: Login_def demo_login_request_def demo_env_def demo_users_def demo_account_def repo_GetByUsername_def find_user_def
      mem_mongo_def verifyPassword_def SetUserInfo_def SetSession_def rm_Set_def NewSessionCache_def
      repo_UpdateFields_def db_result_def Let_def split: prod.splits)

theorem Login_correct_witness:
  "let (res, d', s') = Login demo_env (\<lambda>i. 0) demo_login_request demo_users []
   in \<exists>resp. res = Inr resp \<and> lr_UserId resp = 7 \<and> redis_sessions map_of s' (lr_Token resp) = Some 7"
proof -
  let ?q = demo_login_request and ?tok = "generateToken 7 0"
  let ?s = "AList.update (''session:'' @ ?tok) (show_u64 7) [(user_key NewUserCache 7, ''u'')]"
  let ?r = "\<lparr>lr_UserId = 7, lr_Token = ?tok, lr_Nickname = ''Ann'', lr_Level = 1, lr_Exp = 0, lr_Gold = 0, lr_Diamond = 0\<rparr>"
  obtain d' where l: "Login demo_env (\<lambda>i. 0) ?q demo_users [] = (Inr ?r, d', ?s)" using demo_login by blast
  have env: "mongo_driver (le_db demo_env) mem_room_view mem_user_view" "redis (le_exec demo_env) map_of AList.delete"
    using mem.mongo_driver_axioms mem_redis.redis_axioms by (simp_all add: demo_env_def)
  have "\<forall>resp. (Inr ?r :: login_error + login_response) = Inr resp \<longrightarrow>
    redis_sessions map_of ?s = (redis_sessions map_of [])(lr_Token resp \<mapsto> lr_UserId resp) \<or>
    redis_sessions map_of ?s = redis_sessions map_of []"
    using Login_correct [OF env l] by blast
  moreover have "redis_sessions map_of ?s ?tok = Some 7" by (simp add: redis_sessions_def update_conv)
  ultimately show ?thesis using l by simp
qed

text \<open>
  C17. The token of a successful login, if it was not in use, identifies its user: a later
  ValidateToken with it answers either "token valid" with exactly the id of the user who logged
  in, or "invalid session", never another user.
\<close>

theorem login_token_identifies_user:
  assumes "mongo_driver (le_db env) rooms users" and "redis (le_exec env) live expire"
    and "Login env now req d s = (Inr resp, d', s1)"
    and "redis_sessions live s (lr_Token resp) = None"
    and "rq_Header req' = Some h" and "mh_SessionId h = lr_Token resp"
    and "ValidateToken env req' s1 = (Ret v, s2)"
  shows "rs_Code v = 0 \<and> rs_Data v = user_id_json (lr_UserId resp) \<or> rs_Code v = - 2"
proof -
  have sess: "\<forall>u. redis_sessions live s1 (lr_Token resp) = Some u \<longrightarrow> u = lr_UserId resp"
    using Login_success [OF assms(1-3)] assms(4) by auto
  have ne: "mh_SessionId h \<noteq> ''''"
    using Login_success [OF assms(1-3)] assms(6) by (metis generateToken_ne)
  show ?thesis
  proof (cases "rs_Code v = 0")
    case True
    then show ?thesis using redis.ValidateToken_law [OF assms(2,7) refl True] assms(5,6) sess by auto
  next
    case False
    then show ?thesis using assms(5,7) ne
      by (auto simp: ValidateToken_def Let_def split: sum.splits prod.splits)
  qed
qed

definition token_request :: "string \<Rightarrow> u64 \<Rightarrow> base_request" where
  "token_request tok u = \<lparr>rq_Header = Some \<lparr>mh_MsgId = 0, mh_Seq = 0, mh_UserId = u, mh_Timestamp = 0,
     mh_SessionId = tok\<rparr>, rq_Data = []\<rparr>"

theorem login_token_identifies_user_witness:
  "let (res, d', s1) = Login demo_env (\<lambda>i. 0) demo_login_request demo_users [];
     (v, s2) = ValidateToken demo_env (token_request (generateToken 7 0) 0) s1
   in \<exists>r. v = Ret r \<and> rs_Code r = 0 \<and> rs_Data r = user_id_json 7"
proof -
  let ?q = demo_login_request and ?tok = "generateToken 7 0"
  let ?s = "AList.update (''session:'' @ ?tok) (show_u64 7) [(user_key NewUserCache 7, ''u'')]"
  let ?r = "\<lparr>lr_UserId = 7, lr_Token = ?tok, lr_Nickname = ''Ann'', lr_Level = 1, lr_Exp = 0, lr_Gold = 0, lr_Diamond = 0\<rparr>"
  obtain d' where l: "Login demo_env (\<lambda>i. 0) ?q demo_users [] = (Inr ?r, d', ?s)" using demo_login by blast
  obtain v s2 where v: "ValidateToken demo_env (token_request ?tok 0) ?s = (v, s2)" by fastforce
  have ne: "?tok \<noteq> ''''" by (rule generateToken_ne)
  have "\<exists>r. v = Ret r \<and> rs_Code r = 0"
    using v ne by (auto simp: ValidateToken_def token_request_def GetSession_def rm_GetString_def NewSessionCache_def
        demo_env_def update_conv Let_def split: prod.splits)
  then obtain r where r: "v = Ret r" "rs_Code r = 0" by blast
  have env: "mongo_driver (le_db demo_env) mem_room_view mem_user_view" "redis (le_exec demo_env) map_of AList.delete"
    using mem.mongo_driver_axioms mem_redis.redis_axioms by (simp_all add: demo_env_def)
  have "rs_Code r = 0 \<and> rs_Data r = user_id_json (lr_UserId ?r) \<or> rs_Code r = - 2"
    by (rule login_token_identifies_user
        [OF env l _ _ _ v [unfolded r(1)], where h = "the (rq_Header (token_request ?tok 0))"])
      (simp_all add: redis_sessions_def token_request_def)
  then show ?thesis using l v r by simp
qed

text \<open>
  C33. RefreshToken asks for no proof of a session: for any non-zero user id in the header,
  whatever sessions exist (none, as in the witness, included), it answers success with the new
  token of that user. When Redis takes the SET and DEL commands the sessions are then exactly
  the old ones without the one the header names, if it names one, and with the new token mapped
  to this user; when it does not, either of the two changes may be missing, and nothing else
  changes.
\<close>

theorem RefreshToken_unauthenticated:
  assumes "redis (le_exec env) live expire" and "rq_Header req = Some h" and "mh_UserId h \<noteq> 0"
    and "RefreshToken env now req s = (res, s1)"
  shows "(\<exists>r. res = Ret r \<and> rs_Code r = 0 \<and> rs_Data r = token_json (generateToken (mh_UserId h) now)) \<and>
    (\<exists>m. (m = redis_sessions live s \<or> m = (redis_sessions live s)(mh_SessionId h := None)) \<and>
      (redis_sessions live s1 = m(generateToken (mh_UserId h) now \<mapsto> mh_UserId h) \<or> redis_sessions live s1 = m)) \<and>
    ((\<forall>c s. \<not> is_err (fst (le_exec env c s)) \<or> (\<forall>k v d ks. c \<noteq> SetC k v d \<and> c \<noteq> DelC ks)) \<longrightarrow>
     redis_sessions live s1 =
       (if mh_SessionId h = '''' then redis_sessions live s else (redis_sessions live s)(mh_SessionId h := None))
         (generateToken (mh_UserId h) now \<mapsto> mh_UserId h))"
proof -
  let ?tok = "generateToken (mh_UserId h) now"
  obtain e0 sd where del: "DeleteSession (le_exec env) NewSessionCache (mh_SessionId h) s = (e0, sd)" by fastforce
  define s0 where "s0 = (if mh_SessionId h \<noteq> '''' then sd else s)"
  obtain e s2 where set: "SetSession (le_exec env) NewSessionCache ?tok (mh_UserId h) s0 = (e, s2)" by fastforce
  have res: "res = Ret \<lparr>rs_Header = Some h, rs_Code = 0, rs_Msg = ''token refreshed'', rs_Data = token_json ?tok\<rparr>"
    "s1 = s2"
    using assms(2-4) del set by (auto simp: RefreshToken_def s0_def Let_def split: if_splits)
  note store = redis.session_contract [OF assms(1)]
  have "redis_sessions live s0 = redis_sessions live s \<or>
    redis_sessions live s0 = (redis_sessions live s)(mh_SessionId h := None)"
    using session_store.delete_law [OF store del] by (auto simp: s0_def)
  moreover have "redis_sessions live s2 = (redis_sessions live s0)(?tok \<mapsto> mh_UserId h) \<or>
    redis_sessions live s2 = redis_sessions live s0"
    using session_store.set_law [OF store set] by blast
  moreover have "redis_sessions live s2 =
      (if mh_SessionId h = '''' then redis_sessions live s else (redis_sessions live s)(mh_SessionId h := None))(?tok \<mapsto> mh_UserId h)"
    if ok: "\<forall>c s. \<not> is_err (fst (le_exec env c s)) \<or> (\<forall>k v d ks. c \<noteq> SetC k v d \<and> c \<noteq> DelC ks)"
  proof -
    have "redis_sessions live s2 = (redis_sessions live s0)(?tok \<mapsto> mh_UserId h)"
      by (rule redis.SetSession_taken [OF assms(1) set]) (use ok in blast)
    moreover have "redis_sessions live sd = (redis_sessions live s)(mh_SessionId h := None)"
      by (rule redis.DeleteSession_taken [OF assms(1) del]) (use ok in blast)
    ultimately show ?thesis by (simp add: s0_def)
  qed
  ultimately show ?thesis unfolding res by auto
qed

theorem RefreshToken_unauthenticated_witness:
  "let (res, s1) = RefreshToken demo_env 0 (token_request ''forged'' 9) []
   in (\<exists>r. res = Ret r \<and> rs_Code r = 0 \<and> rs_Data r = token_json (generateToken 9 0)) \<and>
      redis_sessions map_of s1 (generateToken 9 0) = Some 9"
proof -
  obtain res s1 where r: "RefreshToken demo_env 0 (token_request ''forged'' 9) [] = (res, s1)" by fastforce
  have env: "redis (le_exec demo_env) map_of AList.delete"
    using mem_redis.redis_axioms by (simp add: demo_env_def)
  have ok: "\<not> is_err (fst (le_exec demo_env c s)) \<or> (\<forall>k v d ks. c \<noteq> SetC k v d \<and> c \<noteq> DelC ks)" for c s
    by (cases c) (simp_all add: demo_env_def is_err_def)
  obtain h where h: "rq_Header (token_request ''forged'' 9) = Some h" "mh_UserId h = 9" by (simp add: token_request_def)
  then have nz: "mh_UserId h \<noteq> 0" by simp
  have "\<exists>r. res = Ret r \<and> rs_Code r = 0 \<and> rs_Data r = token_json (generateToken 9 0)"
      "redis_sessions map_of s1 = (if mh_SessionId h = '''' then redis_sessions map_of [] else
         (redis_sessions map_of [])(mh_SessionId h := None))(generateToken 9 0 \<mapsto> 9)"
    using RefreshToken_unauthenticated [OF env h(1) nz r, unfolded h(2)] ok by blast+
  then show ?thesis using r by simp
qed

end
