(* ===== verification/Gateway.thy ===== *)
theory Gateway
  imports Network Discovery Login
begin

text \<open>
  The gateway, \<open>internal/server/gateway_server.go\<close>: the handler of client messages on top of
  the TCP server, service discovery, the login service and the user cache, and its RPC methods.
\<close>

section \<open>State and environment\<close>

text \<open>
  \<open>gv_login\<close> is the RPC to the login service, on its state and the Redis it shares with the
  gateway; \<open>None\<close> is any error, the 3 s deadline included. \<open>gv_get_service\<close> is
  \<open>ServiceDiscovery.GetService\<close>. Protobuf is four parameters, and \<open>gv_clientIP\<close> is what
  \<open>SplitHostPort\<close> makes of a socket's remote address. The TCP server and the message handler
  share one limiter.
\<close>

record ('b, 'd, 'l, 's) gateway_env =
  gv_unmarshal_request :: "bytes \<Rightarrow> base_request option"
  gv_unmarshal_login :: "bytes \<Rightarrow> login_request option"
  gv_marshal_response :: "base_response \<Rightarrow> bytes option"
  gv_marshal_login :: "login_response \<Rightarrow> bytes option"
  gv_clientIP :: "nat \<Rightarrow> string"
  gv_bucket :: "'b bucket_lib"
  gv_get_service :: "string \<Rightarrow> 'd \<Rightarrow> service_info option outcome \<times> 'd"
  gv_login :: "login_request \<Rightarrow> 'l \<Rightarrow> 's \<Rightarrow> login_response option \<times> 'l \<times> 's"
  gv_exec :: "'s exec"
  gv_nodeID :: string

record ('b, 'd, 'l, 's) gateway =
  gw_tcp :: "'b tcp_server"
  gw_disc :: 'd
  gw_login :: 'l
  gw_redis :: 's

datatype gateway_error = MessageTooShort | UnmarshalFailed | MarshalFailed | WriteFailed net_error

abbreviation gw_conn :: "('b, 'd, 'l, 's) gateway \<Rightarrow> nat \<Rightarrow> connection" where
  "gw_conn gw a \<equiv> ts_heap (gw_tcp gw) ! a"

definition set_conn :: "nat \<Rightarrow> connection \<Rightarrow> ('b, 'd, 'l, 's) gateway \<Rightarrow> ('b, 'd, 'l, 's) gateway" where
  "set_conn a c gw = gw\<lparr>gw_tcp := (gw_tcp gw)\<lparr>ts_heap := (ts_heap (gw_tcp gw))[a := c]\<rparr>\<rparr>"

section \<open>Handlers\<close>

text \<open>
  \<open>now\<close> gives the clock readings of one message: 0 to 2 the limiter, 3 the heartbeat, 4 the
  write; \<open>fails\<close> whether the socket's write fails.
\<close>

definition gw_sendResponse ::
  "('b, 'd, 'l, 's) gateway_env \<Rightarrow> (nat \<Rightarrow> time) \<Rightarrow> bool \<Rightarrow> nat \<Rightarrow> base_request \<Rightarrow> int \<Rightarrow> string \<Rightarrow>
   login_response option \<Rightarrow> ('b, 'd, 'l, 's) gateway \<Rightarrow>
   (gateway_error option \<times> ('b, 'd, 'l, 's) gateway) outcome" where
  "gw_sendResponse env now fails a req code msg data gw =
     (case (case data of None \<Rightarrow> Some [] | Some d \<Rightarrow> gv_marshal_login env d) of
        None \<Rightarrow> Ret (Some MarshalFailed, gw)
      | Some bs \<Rightarrow>
          (case gv_marshal_response env \<lparr>rs_Header = rq_Header req, rs_Code = code, rs_Msg = msg, rs_Data = bs\<rparr> of
             None \<Rightarrow> Ret (Some MarshalFailed, gw)
           | Some responseBytes \<Rightarrow>
               obind (write_to (now 4) fails (frame responseBytes) a (gw_tcp gw))
                 (\<lambda>(err, tcp). Ret (map_option WriteFailed err, gw\<lparr>gw_tcp := tcp\<rparr>))))"

definition gw_sendError ::
  "('b, 'd, 'l, 's) gateway_env \<Rightarrow> (nat \<Rightarrow> time) \<Rightarrow> bool \<Rightarrow> nat \<Rightarrow> base_request \<Rightarrow> int \<Rightarrow> string \<Rightarrow>
   ('b, 'd, 'l, 's) gateway \<Rightarrow> (gateway_error option \<times> ('b, 'd, 'l, 's) gateway) outcome" where
  "gw_sendError env now fails a req code msg gw = gw_sendResponse env now fails a req code msg None gw"

definition get_service ::
  "('b, 'd, 'l, 's) gateway_env \<Rightarrow> string \<Rightarrow> ('b, 'd, 'l, 's) gateway \<Rightarrow>
   (service_info option \<times> ('b, 'd, 'l, 's) gateway) outcome" where
  "get_service env t gw =
     (let (r, d) = gv_get_service env t (gw_disc gw) in obind r (\<lambda>si. Ret (si, gw\<lparr>gw_disc := d\<rparr>)))"

text \<open>The error of \<open>SetUserOnline\<close> is ignored.\<close>

definition handleLogin ::
  "('b, 'd, 'l, 's) gateway_env \<Rightarrow> (nat \<Rightarrow> time) \<Rightarrow> bool \<Rightarrow> nat \<Rightarrow> base_request \<Rightarrow>
   ('b, 'd, 'l, 's) gateway \<Rightarrow> (gateway_error option \<times> ('b, 'd, 'l, 's) gateway) outcome" where
  "handleLogin env now fails a req gw =
     (case gv_unmarshal_login env (rq_Data req) of
        None \<Rightarrow> gw_sendError env now fails a req (- 1) ''invalid login request'' gw
      | Some loginReq \<Rightarrow>
          obind (get_service env ''login'' gw) (\<lambda>(loginService, gw1).
            case loginService of
              None \<Rightarrow> gw_sendError env now fails a req (- 1) ''login service not available'' gw1
            | Some _ \<Rightarrow>
                (case gv_login env loginReq (gw_login gw1) (gw_redis gw1) of
                   (None, l, s) \<Rightarrow>
                     gw_sendError env now fails a req (- 1) ''login failed'' (gw1\<lparr>gw_login := l, gw_redis := s\<rparr>)
                 | (Some loginResp, l, s) \<Rightarrow>
                     (let gw2 = set_conn a ((gw_conn gw1 a)\<lparr>cn_UserID := lr_UserId loginResp\<rparr>) gw1;
                          (_, s1) = SetUserOnline (gv_exec env) (lr_UserId loginResp) (gv_nodeID env) s
                      in gw_sendResponse env now fails a req 0 ''login success'' (Some loginResp)
                           (gw2\<lparr>gw_login := l, gw_redis := s1\<rparr>)))))"

definition handleHeartbeat ::
  "('b, 'd, 'l, 's) gateway_env \<Rightarrow> (nat \<Rightarrow> time) \<Rightarrow> bool \<Rightarrow> nat \<Rightarrow> base_request \<Rightarrow>
   ('b, 'd, 'l, 's) gateway \<Rightarrow> (gateway_error option \<times> ('b, 'd, 'l, 's) gateway) outcome" where
  "handleHeartbeat env now fails a req gw =
     gw_sendResponse env now fails a req 0 ''pong'' None
       (set_conn a ((gw_conn gw a)\<lparr>cn_LastActivity := now 3\<rparr>) gw)"

definition handleLogout ::
  "('b, 'd, 'l, 's) gateway_env \<Rightarrow> nat \<Rightarrow> ('b, 'd, 'l, 's) gateway \<Rightarrow>
   (gateway_error option \<times> ('b, 'd, 'l, 's) gateway) outcome" where
  "handleLogout env a gw =
     (let s = (if cn_UserID (gw_conn gw a) \<noteq> 0
               then snd (SetUserOffline (gv_exec env) (cn_UserID (gw_conn gw a)) (gw_redis gw)) else gw_redis gw)
      in obind (conn_Close (gw_conn gw a) (ts_socks (gw_tcp gw))) (\<lambda>(_, socks).
           Ret (None, gw\<lparr>gw_redis := s, gw_tcp := (gw_tcp gw)\<lparr>ts_socks := socks\<rparr>\<rparr>)))"

definition targetService :: "u32 \<Rightarrow> string option" where
  "targetService msgID =
     (if msgID \<ge> 2000 \<and> msgID < 3000 then Some ''lobby''
      else if msgID \<ge> 3000 \<and> msgID < 4000 then Some ''game''
      else if msgID \<ge> 4000 \<and> msgID < 5000 then Some ''friend''
      else if msgID \<ge> 5000 \<and> msgID < 6000 then Some ''chat''
      else if msgID \<ge> 6000 \<and> msgID < 7000 then Some ''mail''
      else None)"

definition forwardMessage ::
  "('b, 'd, 'l, 's) gateway_env \<Rightarrow> (nat \<Rightarrow> time) \<Rightarrow> bool \<Rightarrow> nat \<Rightarrow> u32 \<Rightarrow> base_request \<Rightarrow>
   ('b, 'd, 'l, 's) gateway \<Rightarrow> (gateway_error option \<times> ('b, 'd, 'l, 's) gateway) outcome" where
  "forwardMessage env now fails a msgID req gw =
     (case targetService msgID of
        None \<Rightarrow> gw_sendError env now fails a req (- 1) ''unknown message type'' gw
      | Some t \<Rightarrow>
          obind (get_service env t gw) (\<lambda>(service, gw1).
            case service of
              None \<Rightarrow> gw_sendError env now fails a req (- 2) (t @ '' service not available'') gw1
            | Some _ \<Rightarrow> gw_sendResponse env now fails a req 0 ''success'' None gw1))"

definition msg_limit_key :: "('b, 'd, 'l, 's) gateway_env \<Rightarrow> connection \<Rightarrow> string outcome" where
  "msg_limit_key env c =
     (if cn_UserID c > 0 then Ret (''msg:user:'' @ show_u64 (cn_UserID c))
      else (case cn_Conn c of None \<Rightarrow> Panic NilDereference | Some s \<Rightarrow> Ret (''msg:ip:'' @ gv_clientIP env s)))"

definition routeMessage ::
  "('b, 'd, 'l, 's) gateway_env \<Rightarrow> (nat \<Rightarrow> time) \<Rightarrow> bool \<Rightarrow> nat \<Rightarrow> u32 \<Rightarrow> base_request \<Rightarrow>
   ('b, 'd, 'l, 's) gateway \<Rightarrow> (gateway_error option \<times> ('b, 'd, 'l, 's) gateway) outcome" where
  "routeMessage env now fails a msgID req gw =
     obind (msg_limit_key env (gw_conn gw a)) (\<lambda>limitKey.
       let (ok, lm) = CheckLimit (gv_bucket env) now limitKey 10 50 (ts_limiter (gw_tcp gw));
           gw1 = gw\<lparr>gw_tcp := (gw_tcp gw)\<lparr>ts_limiter := lm\<rparr>\<rparr>
       in if \<not> ok then gw_sendError env now fails a req (- 1) ''exceeds max messages per second'' gw1
          else if msgID = 1001 then handleLogin env now fails a req gw1
          else if msgID = 1002 then handleHeartbeat env now fails a req gw1
          else if msgID = 1003 then handleLogout env a gw1
          else forwardMessage env now fails a msgID req gw1)"

definition HandleMessage ::
  "('b, 'd, 'l, 's) gateway_env \<Rightarrow> (nat \<Rightarrow> time) \<Rightarrow> bool \<Rightarrow> nat \<Rightarrow> bytes \<Rightarrow>
   ('b, 'd, 'l, 's) gateway \<Rightarrow> (gateway_error option \<times> ('b, 'd, 'l, 's) gateway) outcome" where
  "HandleMessage env now fails a data gw =
     (if length data < 4 then Ret (Some MessageTooShort, gw)
      else (case gv_unmarshal_request env (drop 4 data) of
              None \<Rightarrow> Ret (Some UnmarshalFailed, gw)
            | Some request \<Rightarrow> routeMessage env now fails a (be_decode data) request gw))"

lemmas gateway_defs = handleLogin_def handleHeartbeat_def handleLogout_def forwardMessage_def gw_sendError_def

section \<open>RPC methods\<close>

definition rpc_GetConnectionCount :: "base_request \<Rightarrow> ('b, 'd, 'l, 's) gateway \<Rightarrow> base_response" where
  "rpc_GetConnectionCount req gw =
     respond (rq_Header req) 0 (''connection count: '' @ show_int (GetConnectionCount (gw_tcp gw)))"

definition rpc_SendToUser :: "base_request \<Rightarrow> base_response" where
  "rpc_SendToUser req = respond (rq_Header req) 0 ''message sent successfully--todo''"

definition rpc_BroadcastMessage ::
  "time \<Rightarrow> (nat \<Rightarrow> bool) \<Rightarrow> base_request \<Rightarrow> ('b, 'd, 'l, 's) gateway \<Rightarrow>
   (base_response \<times> ('b, 'd, 'l, 's) gateway) outcome" where
  "rpc_BroadcastMessage now fails req gw =
     obind (Broadcast now fails (rq_Data req) (gw_tcp gw)) (\<lambda>tcp.
       Ret (respond (rq_Header req) 0 ''message broadcasted'', gw\<lparr>gw_tcp := tcp\<rparr>))"

definition rpc_KickUser :: "base_request \<Rightarrow> base_response" where
  "rpc_KickUser req = respond (rq_Header req) 0 ''user kicked--todo''"

section \<open>What a reply and a lookup change\<close>

text \<open>The user bound to each object, and the limiter, are not touched by writes.\<close>

lemma nth_update_cong: "f (xs ! i) = f y \<Longrightarrow> f (xs[i := y] ! j) = f (xs ! j)"
  by (cases "i < length xs") (auto simp: nth_list_update list_update_beyond not_less)

lemma write_to_user:
  assumes "write_to now fails data a sv = Ret (e, sv')"
  shows "cn_UserID (ts_heap sv' ! b) = cn_UserID (ts_heap sv ! b) \<and> ts_limiter sv' = ts_limiter sv"
proof -
  obtain c socks where w: "conn_Write now fails data (ts_heap sv ! a) (ts_socks sv) = Ret (e, c, socks)"
    and sv': "sv' = sv\<lparr>ts_heap := (ts_heap sv)[a := c], ts_socks := socks\<rparr>"
    using assms by (auto simp: write_to_def split: outcome.splits)
  have "cn_UserID (ts_heap sv ! a) = cn_UserID c"
    using w by (auto simp: conn_Write_def Let_def split: if_splits option.splits)
  then show ?thesis by (simp add: sv' nth_update_cong)
qed

definition same_users :: "('b, 'd, 'l, 's) gateway \<Rightarrow> ('b, 'd, 'l, 's) gateway \<Rightarrow> bool" where
  "same_users gw gw' \<longleftrightarrow> (\<forall>b. cn_UserID (gw_conn gw' b) = cn_UserID (gw_conn gw b))"

lemma gw_sendResponse_frame:
  assumes "gw_sendResponse env now fails a req code msg data gw = Ret (e, gw')"
  shows "same_users gw gw' \<and> gw_disc gw' = gw_disc gw \<and> gw_login gw' = gw_login gw \<and> gw_redis gw' = gw_redis gw"
  using assms
  by (auto simp: gw_sendResponse_def same_users_def dest: write_to_user split: option.splits)

lemma gw_sendError_frame:
  assumes "gw_sendError env now fails a req code msg gw = Ret (e, gw')"
  shows "same_users gw gw' \<and> gw_disc gw' = gw_disc gw \<and> gw_login gw' = gw_login gw \<and> gw_redis gw' = gw_redis gw"
  using gw_sendResponse_frame assms unfolding gw_sendError_def .

lemma get_service_frame:
  assumes "get_service env t gw = Ret (si, gw')"
  shows "gw' = gw\<lparr>gw_disc := gw_disc gw'\<rparr>"
  using assms by (auto simp: get_service_def split: prod.splits)

lemma get_service_found:
  assumes "get_service env t gw = Ret (svc, gw1)"
  shows "gw_tcp gw1 = gw_tcp gw \<and> gw_login gw1 = gw_login gw \<and> gw_redis gw1 = gw_redis gw \<and>
    fst (gv_get_service env t (gw_disc gw)) = Ret svc"
  using assms by (auto simp: get_service_def split: prod.splits)

text \<open>
  A login ends in an error reply, or it binds the user and answers with the login's response; the
  request, the discovery and the login service decide which.
\<close>

definition login_granted :: "('b, 'd, 'l, 's) gateway_env \<Rightarrow> base_request \<Rightarrow> ('b, 'd, 'l, 's) gateway \<Rightarrow> bool" where
  "login_granted env req gw \<longleftrightarrow> (\<exists>si. fst (gv_get_service env ''login'' (gw_disc gw)) = Ret (Some si)) \<and>
     (\<exists>lq. gv_unmarshal_login env (rq_Data req) = Some lq \<and> fst (gv_login env lq (gw_login gw) (gw_redis gw)) \<noteq> None)"

lemma handleLogin_cases:
  assumes h: "handleLogin env now fails a req gw = Ret (e, gw')"
  obtains (refused) msg gw1 where "gw_sendError env now fails a req (- 1) msg gw1 = Ret (e, gw')" and "gw_tcp gw1 = gw_tcp gw"
    and "\<not> login_granted env req gw"
  | (granted) lq lresp l s' gw2 where "gv_unmarshal_login env (rq_Data req) = Some lq"
    and "gv_login env lq (gw_login gw) (gw_redis gw) = (Some lresp, l, s')"
    and "gw_sendResponse env now fails a req 0 ''login success'' (Some lresp) gw2 = Ret (e, gw')"
    and "gw_tcp gw2 = gw_tcp (set_conn a ((gw_conn gw a)\<lparr>cn_UserID := lr_UserId lresp\<rparr>) gw)" and "login_granted env req gw"
proof (cases "gv_unmarshal_login env (rq_Data req)")
  case None
  then show ?thesis using refused [of _ gw] h by (simp add: handleLogin_def login_granted_def)
next
  case (Some lq)
  obtain svc gw1 where g: "get_service env ''login'' gw = Ret (svc, gw1)"
    using h Some by (auto simp: handleLogin_def)
  note same = get_service_found [OF g]
  note h1 = h [unfolded handleLogin_def Some option.case g obind.simps prod.case]
  show ?thesis
  proof (cases svc)
    case None
    then show ?thesis using refused [of _ gw1] h1 same by (simp add: login_granted_def)
  next
    case svc: (Some x)
    obtain r l s' where r: "gv_login env lq (gw_login gw) (gw_redis gw) = (r, l, s')" by (metis prod_cases3)
    have r1: "gv_login env lq (gw_login gw1) (gw_redis gw1) = (r, l, s')" using r same by simp
    note h2 = h1 [unfolded svc option.case r1 prod.case]
    show ?thesis
    proof (cases r)
      case None
      then show ?thesis using refused [of _ "gw1\<lparr>gw_login := l, gw_redis := s'\<rparr>"] h2 same Some r
        by (simp add: login_granted_def)
    next
      case resp: (Some lresp)
      obtain e1 s1 where o: "SetUserOnline (gv_exec env) (lr_UserId lresp) (gv_nodeID env) s' = (e1, s1)" by fastforce
      note h3 = h2 [unfolded resp option.case o Let_def prod.case]
      show ?thesis by (rule granted [OF Some _ h3]) (simp_all add: r resp set_conn_def same Some svc login_granted_def)
    qed
  qed
qed

text \<open>Only a granted login changes the user of a connection, and only of its own.\<close>

lemma handleLogin_binding:
  assumes h: "handleLogin env now fails a req gw = Ret (e, gw')"
    and b: "cn_UserID (gw_conn gw' b) \<noteq> cn_UserID (gw_conn gw b)"
  shows "b = a \<and> (\<exists>lq resp l s. gv_unmarshal_login env (rq_Data req) = Some lq \<and>
    gv_login env lq (gw_login gw) (gw_redis gw) = (Some resp, l, s) \<and> cn_UserID (gw_conn gw' a) = lr_UserId resp)"
  using h
proof (cases rule: handleLogin_cases)
  case (refused msg gw1)
  then show ?thesis using gw_sendError_frame [OF refused(1)] b by (simp add: same_users_def)
next
  case (granted lq lresp l s' gw2)
  have u: "cn_UserID (gw_conn gw' c) = cn_UserID ((ts_heap (gw_tcp gw))[a := (gw_conn gw a)\<lparr>cn_UserID := lr_UserId lresp\<rparr>] ! c)" for c
    using gw_sendResponse_frame [OF granted(3)] granted(4) by (simp add: same_users_def set_conn_def)
  have "a < length (ts_heap (gw_tcp gw))"
    using b u [of b] by (cases "a < length (ts_heap (gw_tcp gw))") (auto simp: list_update_beyond not_less)
  moreover have "b = a" using b u [of b] by (cases "b = a") auto
  ultimately show ?thesis using u [of a] granted(1,2) by auto
qed

lemma handleLogin_binds:
  assumes h: "handleLogin env now fails a req gw = Ret (e, gw')"
    and lq: "gv_unmarshal_login env (rq_Data req) = Some lq"
    and found: "fst (gv_get_service env ''login'' (gw_disc gw)) = Ret (Some si)"
    and r: "gv_login env lq (gw_login gw) (gw_redis gw) = (Some resp, l, s)"
    and len: "a < length (ts_heap (gw_tcp gw))"
  shows "cn_UserID (gw_conn gw' a) = lr_UserId resp"
proof -
  obtain d where "gv_get_service env ''login'' (gw_disc gw) = (Ret (Some si), d)"
    using found by (metis prod.collapse)
  then have g: "get_service env ''login'' gw = Ret (Some si, gw\<lparr>gw_disc := d\<rparr>)" by (simp add: get_service_def)
  obtain e1 s1 where "SetUserOnline (gv_exec env) (lr_UserId resp) (gv_nodeID env) s = (e1, s1)" by fastforce
  then have "gw_sendResponse env now fails a req 0 ''login success'' (Some resp)
      ((set_conn a ((gw_conn gw a)\<lparr>cn_UserID := lr_UserId resp\<rparr>) (gw\<lparr>gw_disc := d\<rparr>))\<lparr>gw_login := l, gw_redis := s1\<rparr>) =
      Ret (e, gw')"
    using h lq r g by (simp add: handleLogin_def)
  from gw_sendResponse_frame [OF this] show ?thesis using len by (simp add: same_users_def set_conn_def)
qed

lemma routeMessage_binding:
  assumes "routeMessage env now fails a msgID req gw = Ret (e, gw')"
    and b: "cn_UserID (gw_conn gw' b) \<noteq> cn_UserID (gw_conn gw b)"
  shows "b = a \<and> msgID = 1001 \<and> (\<exists>lq resp l s. gv_unmarshal_login env (rq_Data req) = Some lq \<and>
    gv_login env lq (gw_login gw) (gw_redis gw) = (Some resp, l, s) \<and> cn_UserID (gw_conn gw' a) = lr_UserId resp)"
proof -
  obtain k where k: "msg_limit_key env (gw_conn gw a) = Ret k"
    using assms(1) by (auto simp: routeMessage_def)
  obtain ok lm where c: "CheckLimit (gv_bucket env) now k 10 50 (ts_limiter (gw_tcp gw)) = (ok, lm)" by fastforce
  let ?gw = "gw\<lparr>gw_tcp := (gw_tcp gw)\<lparr>ts_limiter := lm\<rparr>\<rparr>"
  have same: "\<not> same_users ?gw gw'" using b by (auto simp: same_users_def)
  have r: "(if \<not> ok then gw_sendError env now fails a req (- 1) ''exceeds max messages per second'' ?gw
          else if msgID = 1001 then handleLogin env now fails a req ?gw
          else if msgID = 1002 then handleHeartbeat env now fails a req ?gw
          else if msgID = 1003 then handleLogout env a ?gw
          else forwardMessage env now fails a msgID req ?gw) = Ret (e, gw')"
    using assms(1) unfolding routeMessage_def k obind.simps c Let_def prod.case .
  have ok: ok using r same gw_sendError_frame by (metis (full_types))
  have "same_users ?gw gw'" if "handleHeartbeat env now fails a req ?gw = Ret (e, gw')"
    using gw_sendResponse_frame [OF that [unfolded handleHeartbeat_def]]
    by (auto simp: same_users_def set_conn_def nth_update_cong)
  moreover have "same_users ?gw gw'" if "handleLogout env a ?gw = Ret (e, gw')"
    using that by (auto simp: handleLogout_def same_users_def)
  moreover have "same_users ?gw gw'" if f: "forwardMessage env now fails a msgID req ?gw = Ret (e, gw')"
  proof (cases "targetService msgID")
    case None
    then show ?thesis using f gw_sendError_frame by (fastforce simp: forwardMessage_def)
  next
    case (Some t)
    then obtain svc gw1 where g: "get_service env t ?gw = Ret (svc, gw1)"
      using f by (auto simp: forwardMessage_def)
    have gw1: "gw_tcp gw1 = gw_tcp ?gw" using get_service_frame [OF g] by (metis gateway.select_convs(1) gateway.surjective gateway.update_convs(2))
    have "same_users gw1 gw'" using f g Some gw_sendError_frame gw_sendResponse_frame
      by (fastforce simp: forwardMessage_def split: option.splits)
    then show ?thesis by (simp add: same_users_def gw1)
  qed
  ultimately have m: "msgID = 1001" "handleLogin env now fails a req ?gw = Ret (e, gw')"
    using r ok same by (auto split: if_splits)
  from handleLogin_binding [OF m(2), of b] b show ?thesis using m(1) by simp
qed

section \<open>Replies\<close>

definition deliver :: "nat \<Rightarrow> bytes \<Rightarrow> sockets \<Rightarrow> sockets" where
  "deliver s bs socks = socks(s := (socks s)\<lparr>sk_out := sk_out (socks s) @ [bs]\<rparr>)"

definition total_codec :: "('b, 'd, 'l, 's) gateway_env \<Rightarrow> bool" where
  "total_codec env \<longleftrightarrow> (\<forall>r. gv_marshal_response env r \<noteq> None) \<and> (\<forall>r. gv_marshal_login env r \<noteq> None)"

definition connected :: "nat \<Rightarrow> nat \<Rightarrow> ('b, 'd, 'l, 's) gateway \<Rightarrow> bool" where
  "connected a s gw \<longleftrightarrow> a < length (ts_heap (gw_tcp gw)) \<and> cn_Conn (gw_conn gw a) = Some s \<and>
     \<not> cn_closed (gw_conn gw a) \<and> sk_open (ts_socks (gw_tcp gw) s)"

definition replied ::
  "('b, 'd, 'l, 's) gateway_env \<Rightarrow> nat \<Rightarrow> base_request \<Rightarrow> int \<Rightarrow> ('b, 'd, 'l, 's) gateway \<Rightarrow>
   ('b, 'd, 'l, 's) gateway \<Rightarrow> bool" where
  "replied env s req code gw gw' \<longleftrightarrow>
     (\<exists>resp bs. rs_Header resp = rq_Header req \<and> rs_Code resp = code \<and> gv_marshal_response env resp = Some bs \<and>
        ts_socks (gw_tcp gw') = deliver s (frame bs) (ts_socks (gw_tcp gw)))"

text \<open>A response that was sent without an error was encoded and delivered.\<close>

lemma gw_sendResponse_sent:
  assumes "connected a s gw" and "gw_sendResponse env now fails a req code msg data gw = Ret (None, gw')"
  obtains lb bs where "(case data of None \<Rightarrow> Some [] | Some d \<Rightarrow> gv_marshal_login env d) = Some lb"
    and "gv_marshal_response env \<lparr>rs_Header = rq_Header req, rs_Code = code, rs_Msg = msg, rs_Data = lb\<rparr> = Some bs"
    and "ts_socks (gw_tcp gw') = deliver s (frame bs) (ts_socks (gw_tcp gw))"
proof -
  obtain lb where lb: "(case data of None \<Rightarrow> Some [] | Some d \<Rightarrow> gv_marshal_login env d) = Some lb"
    using assms(2) by (auto simp: gw_sendResponse_def split: option.splits)
  obtain bs where bs: "gv_marshal_response env \<lparr>rs_Header = rq_Header req, rs_Code = code, rs_Msg = msg, rs_Data = lb\<rparr> = Some bs"
    using assms(2) by (auto simp: gw_sendResponse_def lb split: option.splits)
  have "ts_socks (gw_tcp gw') = deliver s (frame bs) (ts_socks (gw_tcp gw))"
    using assms by (auto simp: gw_sendResponse_def lb bs write_to_def conn_Write_def connected_def deliver_def Let_def
        split: if_splits)
  then show ?thesis using that lb bs by blast
qed

lemma gw_sendResponse_total:
  assumes "total_codec env" and "connected a s gw" and "gw_sendResponse env now False a req code msg data gw = Ret (e, gw')"
  shows "e = None"
proof -
  obtain lb where lb: "(case data of None \<Rightarrow> Some [] | Some d \<Rightarrow> gv_marshal_login env d) = Some lb"
    using assms(1) by (cases data) (auto simp: total_codec_def)
  obtain bs where "gv_marshal_response env \<lparr>rs_Header = rq_Header req, rs_Code = code, rs_Msg = msg, rs_Data = lb\<rparr> = Some bs"
    using assms(1) by (auto simp: total_codec_def)
  then show ?thesis
    using assms(2,3) by (auto simp: gw_sendResponse_def lb write_to_def conn_Write_def connected_def Let_def)
qed

lemma gw_sendResponse_reply:
  assumes "total_codec env" and "connected a s gw" and "gw_sendResponse env now False a req code msg data gw = Ret (e, gw')"
  shows "e = None \<and> replied env s req code gw gw'"
proof -
  have e: "e = None" by (rule gw_sendResponse_total [OF assms])
  obtain lb bs where "gv_marshal_response env \<lparr>rs_Header = rq_Header req, rs_Code = code, rs_Msg = msg, rs_Data = lb\<rparr> = Some bs"
    "ts_socks (gw_tcp gw') = deliver s (frame bs) (ts_socks (gw_tcp gw))"
    by (rule gw_sendResponse_sent [OF assms(2) assms(3) [unfolded e]])
  then show ?thesis using e unfolding replied_def by (metis base_response.select_convs(1,2))
qed

text \<open>The code of the reply to each message but a logout.\<close>

definition reply_code ::
  "('b, 'd, 'l, 's) gateway_env \<Rightarrow> bool \<Rightarrow> u32 \<Rightarrow> base_request \<Rightarrow> ('b, 'd, 'l, 's) gateway \<Rightarrow> int" where
  "reply_code env allowed msgID req gw =
     (let found = (\<lambda>t. \<exists>si. fst (gv_get_service env t (gw_disc gw)) = Ret (Some si)) in
      if \<not> allowed then - 1
      else if msgID = 1001
      then (case gv_unmarshal_login env (rq_Data req) of
              None \<Rightarrow> - 1
            | Some lq \<Rightarrow> if found ''login'' \<and> fst (gv_login env lq (gw_login gw) (gw_redis gw)) \<noteq> None then 0 else - 1)
      else if msgID = 1002 then 0
      else (case targetService msgID of None \<Rightarrow> - 1 | Some t \<Rightarrow> if found t then 0 else - 2))"

lemma connected_cong:
  assumes "connected a s gw" and "cn_Conn (gw_conn gw' a) = cn_Conn (gw_conn gw a)"
    and "cn_closed (gw_conn gw' a) = cn_closed (gw_conn gw a)" and "ts_socks (gw_tcp gw') = ts_socks (gw_tcp gw)"
    and "length (ts_heap (gw_tcp gw')) = length (ts_heap (gw_tcp gw))"
  shows "connected a s gw'"
  using assms by (simp add: connected_def)

lemma reply_via:
  assumes "total_codec env" and "connected a s gw"
    and "gw_sendResponse env now False a req code msg data gw1 = Ret (e, gw')"
    and "cn_Conn (gw_conn gw1 a) = cn_Conn (gw_conn gw a)"
    and "cn_closed (gw_conn gw1 a) = cn_closed (gw_conn gw a)" and "ts_socks (gw_tcp gw1) = ts_socks (gw_tcp gw)"
    and "length (ts_heap (gw_tcp gw1)) = length (ts_heap (gw_tcp gw))"
  shows "e = None \<and> replied env s req code gw gw'"
  using gw_sendResponse_reply [OF assms(1) connected_cong [OF assms(2,4-7)] assms(3)] assms(6)
  by (simp add: replied_def)

lemma reply_via_tcp:
  assumes "total_codec env" and "connected a s gw"
    and "gw_sendResponse env now False a req code msg data gw1 = Ret (e, gw')"
    and "gw_tcp gw1 = gw_tcp gw"
  shows "e = None \<and> replied env s req code gw gw'"
  by (rule reply_via [OF assms(1-3)]) (simp_all add: assms(4))

lemma handleLogin_reply:
  assumes "total_codec env" and "connected a s gw" and h: "handleLogin env now False a req gw = Ret (e, gw')"
  shows "e = None \<and> replied env s req (reply_code env True 1001 req gw) gw gw'"
proof (cases "gv_unmarshal_login env (rq_Data req)")
  case None
  then have c: "reply_code env True 1001 req gw = - 1" by (simp add: reply_code_def)
  show ?thesis unfolding c
    by (rule reply_via_tcp [OF assms(1,2) h [unfolded handleLogin_def None option.case gw_sendError_def]]) simp
next
  case (Some lq)
  obtain svc gw1 where g: "get_service env ''login'' gw = Ret (svc, gw1)"
    using h Some by (auto simp: handleLogin_def)
  note same = get_service_found [OF g]
  note h1 = h [unfolded handleLogin_def Some option.case g obind.simps prod.case gw_sendError_def]
  show ?thesis
  proof (cases svc)
    case None
    then have c: "reply_code env True 1001 req gw = - 1" using Some same by (simp add: reply_code_def)
    show ?thesis unfolding c by (rule reply_via_tcp [OF assms(1,2) h1 [unfolded None option.case]]) (simp add: same)
  next
    case svc: (Some x)
    obtain r l s' where r: "gv_login env lq (gw_login gw) (gw_redis gw) = (r, l, s')" by (metis prod_cases3)
    have r1: "gv_login env lq (gw_login gw1) (gw_redis gw1) = (r, l, s')" using r same by simp
    note h2 = h1 [unfolded svc option.case r1 prod.case]
    show ?thesis
    proof (cases r)
      case None
      then have c: "reply_code env True 1001 req gw = - 1" using Some same svc r by (simp add: reply_code_def)
      show ?thesis unfolding c by (rule reply_via_tcp [OF assms(1,2) h2 [unfolded None option.case]]) (simp add: same)
    next
      case (Some resp)
      then have c: "reply_code env True 1001 req gw = 0"
        using \<open>gv_unmarshal_login env (rq_Data req) = Some lq\<close> same svc r by (simp add: reply_code_def)
      obtain e1 s1 where o: "SetUserOnline (gv_exec env) (lr_UserId resp) (gv_nodeID env) s' = (e1, s1)" by fastforce
      note h3 = h2 [unfolded Some option.case o Let_def prod.case]
      have "a < length (ts_heap (gw_tcp gw))" using assms(2) by (simp add: connected_def)
      then show ?thesis unfolding c
        by (intro reply_via [OF assms(1,2) h3]) (simp_all add: same set_conn_def)
    qed
  qed
qed

lemma forward_reply:
  assumes "total_codec env" and "connected a s gw" and h: "forwardMessage env now False a msgID req gw = Ret (e, gw')"
    and "msgID \<noteq> 1001" and "msgID \<noteq> 1002"
  shows "e = None \<and> replied env s req (reply_code env True msgID req gw) gw gw'"
proof (cases "targetService msgID")
  case None
  then have c: "reply_code env True msgID req gw = - 1" using assms(4,5) by (simp add: reply_code_def)
  show ?thesis unfolding c
    by (rule reply_via_tcp [OF assms(1,2) h [unfolded forwardMessage_def None option.case gw_sendError_def]]) simp
next
  case (Some t)
  obtain svc gw1 where g: "get_service env t gw = Ret (svc, gw1)"
    using h Some by (auto simp: forwardMessage_def)
  note same = get_service_found [OF g]
  note h1 = h [unfolded forwardMessage_def Some option.case g obind.simps prod.case gw_sendError_def]
  show ?thesis
  proof (cases svc)
    case None
    then have c: "reply_code env True msgID req gw = - 2" using Some same assms(4,5) by (simp add: reply_code_def)
    show ?thesis unfolding c by (rule reply_via_tcp [OF assms(1,2) h1 [unfolded None option.case]]) (simp add: same)
  next
    case svc: (Some x)
    then have c: "reply_code env True msgID req gw = 0" using Some same assms(4,5) by (simp add: reply_code_def)
    show ?thesis unfolding c by (rule reply_via_tcp [OF assms(1,2) h1 [unfolded svc option.case]]) (simp add: same)
  qed
qed

section \<open>Properties\<close>

lemma HandleMessage_route:
  assumes "HandleMessage env now fails a data gw = Ret (e, gw')" and "4 \<le> length data"
    and "gv_unmarshal_request env (drop 4 data) = Some req"
  shows "routeMessage env now fails a (be_decode data) req gw = Ret (e, gw')"
  using assms by (simp add: HandleMessage_def)

lemma routeMessage_cases:
  assumes "routeMessage env now fails a msgID req gw = Ret (e, gw')"
  obtains k ok lm gw1 where "msg_limit_key env (gw_conn gw a) = Ret k"
    and "CheckLimit (gv_bucket env) now k 10 50 (ts_limiter (gw_tcp gw)) = (ok, lm)"
    and "gw1 = gw\<lparr>gw_tcp := (gw_tcp gw)\<lparr>ts_limiter := lm\<rparr>\<rparr>"
    and "(if \<not> ok then gw_sendError env now fails a req (- 1) ''exceeds max messages per second'' gw1
          else if msgID = 1001 then handleLogin env now fails a req gw1
          else if msgID = 1002 then handleHeartbeat env now fails a req gw1
          else if msgID = 1003 then handleLogout env a gw1
          else forwardMessage env now fails a msgID req gw1) = Ret (e, gw')"
proof -
  obtain k where k: "msg_limit_key env (gw_conn gw a) = Ret k"
    using assms by (auto simp: routeMessage_def)
  obtain ok lm where c: "CheckLimit (gv_bucket env) now k 10 50 (ts_limiter (gw_tcp gw)) = (ok, lm)" by fastforce
  show ?thesis by (rule that [OF k c refl assms [unfolded routeMessage_def k obind.simps c Let_def prod.case]])
qed

text \<open>The RPC client on the login service itself.\<close>

definition login_rpc ::
  "('l, 's) login_env \<Rightarrow> (nat \<Rightarrow> time) \<Rightarrow> login_request \<Rightarrow> 'l \<Rightarrow> 's \<Rightarrow> login_response option \<times> 'l \<times> 's" where
  "login_rpc lenv now req d s =
     (case Login lenv now req d s of (Inr resp, d', s') \<Rightarrow> (Some resp, d', s') | (Inl _, d', s') \<Rightarrow> (None, d', s'))"

text \<open>A gateway with one connection, one account and a toy codec, for the witnesses.\<close>

definition code_byte :: "base_response \<Rightarrow> u8" where
  "code_byte r = word_of_int (rs_Code r)"

definition demo_gw_env :: "(exact_bucket, unit, mem_db, (string \<times> string) list) gateway_env" where
  "demo_gw_env = \<lparr>gv_unmarshal_request = (\<lambda>bs. if bs = [1] then Some \<lparr>rq_Header = None, rq_Data = [2]\<rparr> else None),
     gv_unmarshal_login = (\<lambda>bs. if bs = [2] then Some demo_login_request else None),
     gv_marshal_response = (\<lambda>r. Some [code_byte r]), gv_marshal_login = (\<lambda>_. Some [4]),
     gv_clientIP = (\<lambda>_. ''10.0.0.1''), gv_bucket = exact_lib,
     gv_get_service = (\<lambda>t d. (Ret (Some (demo_service t ''online'' 0)), d)),
     gv_login = login_rpc demo_env (\<lambda>_. 0), gv_exec = mem_exec, gv_nodeID = ''gw1''\<rparr>"

definition demo_gw :: "(exact_bucket, unit, mem_db, (string \<times> string) list) gateway" where
  "demo_gw = \<lparr>gw_tcp = demo_one, gw_disc = (), gw_login = demo_users, gw_redis = []\<rparr>"

lemmas demo_gw_simps = demo_gw_def demo_gw_env_def demo_one_state fresh_conn_def quiet_socks_def

lemma demo_codec: "total_codec demo_gw_env"
  by (simp add: total_codec_def demo_gw_env_def)

lemma demo_connected: "connected 0 7 demo_gw"
  by (simp add: connected_def demo_gw_simps)

lemma demo_request: "gv_unmarshal_request demo_gw_env (drop 4 (be_encode w @ [1])) = Some \<lparr>rq_Header = None, rq_Data = [2]\<rparr>"
  by (simp add: demo_gw_env_def)

text \<open>A message on a connected socket is always handled, as long as discovery answers.\<close>

definition services_answer :: "('b, 'd, 'l, 's) gateway_env \<Rightarrow> bool" where
  "services_answer env \<longleftrightarrow> (\<forall>t d. \<exists>si. fst (gv_get_service env t d) = Ret si)"

lemma gw_sendResponse_returns:
  assumes "cn_Conn (gw_conn gw a) \<noteq> None"
  shows "\<exists>e gw'. gw_sendResponse env now fails a req code msg data gw = Ret (e, gw')"
proof -
  have "\<exists>e tcp. write_to (now 4) fails bs a (gw_tcp gw) = Ret (e, tcp)" for bs
    using assms by (auto simp: write_to_def conn_Write_def Let_def)
  then have "\<exists>e gw'. obind (write_to (now 4) fails bs a (gw_tcp gw))
      (\<lambda>(err, tcp). Ret (map_option WriteFailed err, gw\<lparr>gw_tcp := tcp\<rparr>)) = Ret (e, gw')" for bs
    by (metis obind.simps(1) case_prod_conv)
  then show ?thesis by (simp add: gw_sendResponse_def split: option.split del: obind_Ret)
qed

lemma get_service_returns:
  assumes "services_answer env"
  obtains si gw' where "get_service env t gw = Ret (si, gw')" and "gw_tcp gw' = gw_tcp gw"
proof -
  obtain r d where rd: "gv_get_service env t (gw_disc gw) = (r, d)" by fastforce
  then obtain si where "r = Ret si" using assms unfolding services_answer_def by (metis fst_conv)
  then have "get_service env t gw = Ret (si, gw\<lparr>gw_disc := d\<rparr>)" by (simp add: get_service_def rd)
  then show ?thesis by (rule that) simp
qed

lemma handleLogin_returns:
  assumes "cn_Conn (gw_conn gw a) \<noteq> None" and "services_answer env"
  shows "\<exists>e gw'. handleLogin env now fails a req gw = Ret (e, gw')"
proof (cases "gv_unmarshal_login env (rq_Data req)")
  case None
  then show ?thesis using gw_sendResponse_returns [OF assms(1)] by (simp add: handleLogin_def gw_sendError_def)
next
  case (Some lq)
  obtain si gw1 where g: "get_service env ''login'' gw = Ret (si, gw1)" "gw_tcp gw1 = gw_tcp gw"
    by (rule get_service_returns [OF assms(2)])
  have sent: "\<exists>e gw'. gw_sendResponse env now fails a req code msg data gw2 = Ret (e, gw')"
    if "gw_tcp gw2 = gw_tcp gw \<or> gw_tcp gw2 = gw_tcp (set_conn a ((gw_conn gw a)\<lparr>cn_UserID := u\<rparr>) gw)"
    for code msg data gw2 u
  proof (rule gw_sendResponse_returns)
    have "cn_Conn (gw_conn (set_conn a ((gw_conn gw a)\<lparr>cn_UserID := u\<rparr>) gw) a) = cn_Conn (gw_conn gw a)"
      by (simp add: set_conn_def nth_update_cong)
    then show "cn_Conn (gw_conn gw2 a) \<noteq> None" using that assms(1) by auto
  qed
  show ?thesis
  proof (cases si)
    case None
    then show ?thesis using sent [of gw1] Some g unfolding handleLogin_def gw_sendError_def by simp
  next
    case svc: (Some x)
    obtain r l s where r: "gv_login env lq (gw_login gw1) (gw_redis gw1) = (r, l, s)" by (metis prod_cases3)
    show ?thesis
    proof (cases r)
      case None
      then show ?thesis using sent [of "gw1\<lparr>gw_login := l, gw_redis := s\<rparr>"] Some g r svc
        unfolding handleLogin_def gw_sendError_def by simp
    next
      case resp: (Some resp)
      obtain e1 s1 where "SetUserOnline (gv_exec env) (lr_UserId resp) (gv_nodeID env) s = (e1, s1)" by fastforce
      then have "handleLogin env now fails a req gw = gw_sendResponse env now fails a req 0 ''login success'' (Some resp)
          ((set_conn a ((gw_conn gw1 a)\<lparr>cn_UserID := lr_UserId resp\<rparr>) gw1)\<lparr>gw_login := l, gw_redis := s1\<rparr>)"
        using Some g r svc resp by (simp add: handleLogin_def)
      then show ?thesis
        using sent [of "(set_conn a ((gw_conn gw1 a)\<lparr>cn_UserID := lr_UserId resp\<rparr>) gw1)\<lparr>gw_login := l, gw_redis := s1\<rparr>" "lr_UserId resp"] g(2)
        by (simp add: set_conn_def)
    qed
  qed
qed

lemma forwardMessage_returns:
  assumes "cn_Conn (gw_conn gw a) \<noteq> None" and "services_answer env"
  shows "\<exists>e gw'. forwardMessage env now fails a msgID req gw = Ret (e, gw')"
proof (cases "targetService msgID")
  case None
  then show ?thesis using gw_sendResponse_returns [OF assms(1)] by (simp add: forwardMessage_def gw_sendError_def)
next
  case (Some t)
  obtain si gw1 where g: "get_service env t gw = Ret (si, gw1)" "gw_tcp gw1 = gw_tcp gw"
    by (rule get_service_returns [OF assms(2)])
  have "cn_Conn (gw_conn gw1 a) \<noteq> None" using assms(1) g(2) by simp
  from gw_sendResponse_returns [OF this] show ?thesis
    using Some g unfolding forwardMessage_def gw_sendError_def by (cases si) simp_all
qed

lemma HandleMessage_returns:
  assumes "connected a s gw" and "services_answer env"
  shows "\<exists>e gw'. HandleMessage env now fails a data gw = Ret (e, gw')"
proof -
  have c: "cn_Conn (gw_conn gw a) \<noteq> None" using assms(1) by (simp add: connected_def)
  have "\<exists>e gw'. routeMessage env now fails a msgID req gw = Ret (e, gw')" for msgID req
  proof -
    obtain k where k: "msg_limit_key env (gw_conn gw a) = Ret k"
      using c by (cases "cn_UserID (gw_conn gw a) > 0") (auto simp: msg_limit_key_def)
    obtain ok lm where l: "CheckLimit (gv_bucket env) now k 10 50 (ts_limiter (gw_tcp gw)) = (ok, lm)" by fastforce
    let ?gw = "gw\<lparr>gw_tcp := (gw_tcp gw)\<lparr>ts_limiter := lm\<rparr>\<rparr>"
    have c1: "cn_Conn (gw_conn ?gw a) \<noteq> None" using c by simp
    have "cn_Conn (gw_conn (set_conn a ((gw_conn ?gw a)\<lparr>cn_LastActivity := now 3\<rparr>) ?gw) a) = cn_Conn (gw_conn ?gw a)"
      by (simp add: set_conn_def nth_update_cong)
    then have "\<exists>e gw'. handleHeartbeat env now fails a req ?gw = Ret (e, gw')"
      unfolding handleHeartbeat_def using c1 by (intro gw_sendResponse_returns) simp
    moreover have "\<exists>e gw'. handleLogout env a ?gw = Ret (e, gw')"
      using c by (auto simp: handleLogout_def conn_Close_def)
    ultimately show ?thesis
      using handleLogin_returns [OF c1 assms(2)] forwardMessage_returns [OF c1 assms(2)] gw_sendResponse_returns [OF c1]
      unfolding routeMessage_def k obind.simps l Let_def prod.case gw_sendError_def by simp
  qed
  then show ?thesis by (simp add: HandleMessage_def split: option.split)
qed

text \<open>
  C5. Every message but a logout that a live connection sends (a 4-byte id and a decodable
  request) gets exactly one reply, framed, on its own socket and on no other, and the handler
  returns no error. Its code is determined: -1 when the rate limit of the user, or of the IP
  before login, is exhausted, when the id belongs to no service, when the login data does not
  decode, no login node is found or the login RPC fails; -2 when the service of the id has no
  node; else 0. The codec encodes, the socket takes the write, and discovery returns.
\<close>

theorem gateway_one_reply:
  assumes "total_codec env" and "connected a s gw" and "4 \<le> length data"
    and "gv_unmarshal_request env (drop 4 data) = Some req" and "be_decode data \<noteq> 1003"
    and "services_answer env"
  shows "\<exists>gw' k ok lm. HandleMessage env now False a data gw = Ret (None, gw') \<and>
    msg_limit_key env (gw_conn gw a) = Ret k \<and>
    CheckLimit (gv_bucket env) now k 10 50 (ts_limiter (gw_tcp gw)) = (ok, lm) \<and>
    replied env s req (reply_code env ok (be_decode data) req gw) gw gw'"
proof -
  obtain e gw' where handled: "HandleMessage env now False a data gw = Ret (e, gw')"
    using HandleMessage_returns [OF assms(2,6)] by blast
  obtain k ok lm gw1 where k: "msg_limit_key env (gw_conn gw a) = Ret k"
    and c: "CheckLimit (gv_bucket env) now k 10 50 (ts_limiter (gw_tcp gw)) = (ok, lm)"
    and gw1: "gw1 = gw\<lparr>gw_tcp := (gw_tcp gw)\<lparr>ts_limiter := lm\<rparr>\<rparr>"
    and r: "(if \<not> ok then gw_sendError env now False a req (- 1) ''exceeds max messages per second'' gw1
          else if be_decode data = 1001 then handleLogin env now False a req gw1
          else if be_decode data = 1002 then handleHeartbeat env now False a req gw1
          else if be_decode data = 1003 then handleLogout env a gw1
          else forwardMessage env now False a (be_decode data) req gw1) = Ret (e, gw')"
    by (rule routeMessage_cases [OF HandleMessage_route [OF handled assms(3,4)]])
  have conn: "connected a s gw1" using assms(2) by (simp add: gw1 connected_def)
  have code: "reply_code env ok (be_decode data) req gw1 = reply_code env ok (be_decode data) req gw"
    by (simp add: gw1 reply_code_def split: option.split)
  have "e = None \<and> replied env s req (reply_code env ok (be_decode data) req gw1) gw1 gw'"
  proof (cases ok)
    case False
    then have "reply_code env ok (be_decode data) req gw1 = - 1" by (simp add: reply_code_def)
    then show ?thesis using gw_sendResponse_reply [OF assms(1) conn] r False by (simp add: gw_sendError_def)
  next
    case True
    consider "be_decode data = 1001" | "be_decode data = 1002"
      | "be_decode data \<noteq> 1001" "be_decode data \<noteq> 1002" by blast
    then show ?thesis
    proof cases
      case 1
      then show ?thesis using handleLogin_reply [OF assms(1) conn] r True by simp
    next
      case 2
      then have p: "reply_code env ok (be_decode data) req gw1 = 0" using True by (simp add: reply_code_def)
      have h: "handleHeartbeat env now False a req gw1 = Ret (e, gw')" using r True 2 by simp
      have "a < length (ts_heap (gw_tcp gw1))" using conn by (simp add: connected_def)
      then show ?thesis unfolding p
        by (intro reply_via [OF assms(1) conn h [unfolded handleHeartbeat_def]]) (simp_all add: set_conn_def)
    next
      case 3
      then show ?thesis using forward_reply [OF assms(1) conn _ 3] r True assms(5) by simp
    qed
  qed
  then have "e = None \<and> replied env s req (reply_code env ok (be_decode data) req gw) gw gw'"
    unfolding code by (simp add: gw1 replied_def)
  then show ?thesis using k c handled by blast
qed

theorem gateway_one_reply_witness:
  "\<exists>gw. HandleMessage demo_gw_env (\<lambda>_. 0) False 0 (be_encode 1002 @ [1]) demo_gw = Ret (None, gw) \<and>
    (\<exists>resp. rs_Code resp = 0 \<and> sk_out (ts_socks (gw_tcp gw) 7) = [frame [code_byte resp]])"
proof -
  have "CheckLimit exact_lib (\<lambda>_. 0) ''msg:ip:10.0.0.1'' 10 50 NewRateLimitManager = (ok, lm) \<Longrightarrow> ok" for ok lm
    by (auto simp: CheckLimit_def NewRateLimitManager_def exact_lib_def eb_level_def)
  moreover have "services_answer demo_gw_env" by (simp add: services_answer_def demo_gw_env_def)
  ultimately show ?thesis
    using gateway_one_reply [OF demo_codec demo_connected _ demo_request, of 1002 "\<lambda>_. 0"]
    by (fastforce simp: replied_def reply_code_def demo_gw_simps msg_limit_key_def deliver_def)
qed

text \<open>
  A client that never logged in may send any game message (ids 2000 to 6999): within its IP's
  limit and with a node of the service known it is answered with success, nothing is forwarded
  to any node, and neither the login state, Redis nor any connection's user changes.
\<close>

theorem forward_without_login:
  assumes "total_codec env" and "connected a s gw" and "4 \<le> length data"
    and "gv_unmarshal_request env (drop 4 data) = Some req" and "targetService (be_decode data) = Some t"
    and "cn_UserID (gw_conn gw a) = 0" and "fst (gv_get_service env t (gw_disc gw)) = Ret (Some si)"
    and "fst (CheckLimit (gv_bucket env) now (''msg:ip:'' @ gv_clientIP env s) 10 50 (ts_limiter (gw_tcp gw)))"
    and "HandleMessage env now False a data gw = Ret (e, gw')"
  shows "e = None \<and> replied env s req 0 gw gw' \<and> gw_login gw' = gw_login gw \<and> gw_redis gw' = gw_redis gw \<and> same_users gw gw'"
proof -
  have ids: "be_decode data \<noteq> 1001" "be_decode data \<noteq> 1002" "be_decode data \<noteq> 1003"
    using assms(5) by (auto simp: targetService_def)
  obtain k ok lm gw1 where k: "msg_limit_key env (gw_conn gw a) = Ret k"
    and c: "CheckLimit (gv_bucket env) now k 10 50 (ts_limiter (gw_tcp gw)) = (ok, lm)"
    and gw1: "gw1 = gw\<lparr>gw_tcp := (gw_tcp gw)\<lparr>ts_limiter := lm\<rparr>\<rparr>"
    and r: "(if \<not> ok then gw_sendError env now False a req (- 1) ''exceeds max messages per second'' gw1
          else if be_decode data = 1001 then handleLogin env now False a req gw1
          else if be_decode data = 1002 then handleHeartbeat env now False a req gw1
          else if be_decode data = 1003 then handleLogout env a gw1
          else forwardMessage env now False a (be_decode data) req gw1) = Ret (e, gw')"
    by (rule routeMessage_cases [OF HandleMessage_route [OF assms(9,3,4)]])
  have "k = ''msg:ip:'' @ gv_clientIP env s" using k assms(2,6) by (simp add: msg_limit_key_def connected_def)
  then have ok using assms(8) c by simp
  then have f: "forwardMessage env now False a (be_decode data) req gw1 = Ret (e, gw')" using r ids by simp
  obtain svc gw2 where g: "get_service env t gw1 = Ret (svc, gw2)" using f assms(5) by (auto simp: forwardMessage_def)
  note same = get_service_found [OF g]
  have "svc = Some si" using same assms(7) by (simp add: gw1)
  then have s: "gw_sendResponse env now False a req 0 ''success'' None gw2 = Ret (e, gw')"
    using f assms(5) g by (simp add: forwardMessage_def)
  have conn: "connected a s gw1" using assms(2) by (simp add: gw1 connected_def)
  have "e = None \<and> replied env s req 0 gw1 gw'" using reply_via_tcp [OF assms(1) conn s] same by blast
  then show ?thesis using gw_sendResponse_frame [OF s] same by (simp add: gw1 replied_def same_users_def)
qed

lemma demo_allowed: "fst (CheckLimit exact_lib (\<lambda>_. 0) k 10 50 NewRateLimitManager)"
  by (simp add: CheckLimit_def NewRateLimitManager_def exact_lib_def eb_level_def)

theorem forward_without_login_witness:
  "\<exists>gw. HandleMessage demo_gw_env (\<lambda>_. 0) False 0 (be_encode 2000 @ [1]) demo_gw = Ret (None, gw) \<and>
    sk_out (ts_socks (gw_tcp gw) 7) = [frame [0]] \<and> gw_redis gw = []"
proof -
  have "services_answer demo_gw_env" by (simp add: services_answer_def demo_gw_env_def)
  then obtain e gw where h: "HandleMessage demo_gw_env (\<lambda>_. 0) False 0 (be_encode 2000 @ [1]) demo_gw = Ret (e, gw)"
    using HandleMessage_returns [OF demo_connected] by blast
  have "e = None \<and> replied demo_gw_env 7 \<lparr>rq_Header = None, rq_Data = [2]\<rparr> 0 demo_gw gw \<and> gw_redis gw = gw_redis demo_gw"
    using forward_without_login [OF demo_codec demo_connected _ demo_request _ _ _ _ h, where t = "''lobby''"
        and si = "demo_service ''lobby'' ''online'' 0"]
    by (simp add: targetService_def demo_gw_simps demo_allowed)
  then show ?thesis using h by (auto simp: replied_def deliver_def demo_gw_simps code_byte_def)
qed

text \<open>
  C8. Composition of gateway and login service: whatever a client sends, the only connection
  whose user id may change is its own, and it becomes the id of a stored, not banned user whose
  name and salted password hash are those of the login request of this message.
\<close>

theorem gateway_login_authenticates:
  assumes "mongo_driver (le_db lenv) rooms users" and "redis (le_exec lenv) live expire"
    and "gv_login env = login_rpc lenv lnow"
    and "HandleMessage env now fails a data gw = Ret (e, gw')"
    and "cn_UserID (gw_conn gw' b) \<noteq> cn_UserID (gw_conn gw b)"
  shows "b = a \<and> be_decode data = 1001 \<and> (\<exists>req lq u. gv_unmarshal_request env (drop 4 data) = Some req \<and>
    gv_unmarshal_login env (rq_Data req) = Some lq \<and> users (gw_login gw) (cn_UserID (gw_conn gw' a)) = Some u \<and>
    u_Username u = lq_Username lq \<and> u_Password u = hashPassword (lq_Password lq) \<and> u_Status u = 0)"
proof -
  obtain req where req: "4 \<le> length data" "gv_unmarshal_request env (drop 4 data) = Some req"
    using assms(4,5) by (auto simp: HandleMessage_def split: if_splits option.splits)
  from routeMessage_binding [OF HandleMessage_route [OF assms(4) req] assms(5)]
  obtain lq resp l s where b: "b = a" "be_decode data = 1001" "gv_unmarshal_login env (rq_Data req) = Some lq"
    and log: "gv_login env lq (gw_login gw) (gw_redis gw) = (Some resp, l, s)" "cn_UserID (gw_conn gw' a) = lr_UserId resp"
    by blast
  have "Login lenv lnow lq (gw_login gw) (gw_redis gw) = (Inr resp, l, s)"
    using log(1) by (auto simp: assms(3) login_rpc_def split: prod.splits sum.splits)
  from Login_success [OF assms(1,2) this] show ?thesis using b log(2) req(2) by auto
qed

theorem gateway_login_authenticates_witness:
  "\<exists>e gw u. HandleMessage demo_gw_env (\<lambda>_. 0) False 0 (be_encode 1001 @ [1]) demo_gw = Ret (e, gw) \<and>
    cn_UserID (gw_conn gw 0) = 7 \<and> mem_user_view demo_users 7 = Some u \<and> u_Password u = hashPassword ''pw''"
proof -
  let ?d = "be_encode 1001 @ [1]" and ?req = "\<lparr>rq_Header = None, rq_Data = [2]\<rparr>"
  have "services_answer demo_gw_env" by (simp add: services_answer_def demo_gw_env_def)
  then obtain e gw where h: "HandleMessage demo_gw_env (\<lambda>_. 0) False 0 ?d demo_gw = Ret (e, gw)"
    using HandleMessage_returns [OF demo_connected] by blast
  have r: "routeMessage demo_gw_env (\<lambda>_. 0) False 0 (be_decode ?d) ?req demo_gw = Ret (e, gw)"
    by (rule HandleMessage_route [OF h _ demo_request]) simp
  obtain k ok lm gw1 where k: "msg_limit_key demo_gw_env (gw_conn demo_gw 0) = Ret k"
    and c: "CheckLimit (gv_bucket demo_gw_env) (\<lambda>_. 0) k 10 50 (ts_limiter (gw_tcp demo_gw)) = (ok, lm)"
    and gw1: "gw1 = demo_gw\<lparr>gw_tcp := (gw_tcp demo_gw)\<lparr>ts_limiter := lm\<rparr>\<rparr>"
    and br: "(if \<not> ok then gw_sendError demo_gw_env (\<lambda>_. 0) False 0 ?req (- 1) ''exceeds max messages per second'' gw1
      else if be_decode ?d = 1001 then handleLogin demo_gw_env (\<lambda>_. 0) False 0 ?req gw1
      else if be_decode ?d = 1002 then handleHeartbeat demo_gw_env (\<lambda>_. 0) False 0 ?req gw1
      else if be_decode ?d = 1003 then handleLogout demo_gw_env 0 gw1
      else forwardMessage demo_gw_env (\<lambda>_. 0) False 0 (be_decode ?d) ?req gw1) = Ret (e, gw)"
    by (rule routeMessage_cases [OF r])
  have ok using c by (auto simp: demo_gw_simps CheckLimit_def NewRateLimitManager_def exact_lib_def eb_level_def)
  then have l: "handleLogin demo_gw_env (\<lambda>_. 0) False 0 ?req gw1 = Ret (e, gw)" using br by simp
  obtain d' where dl: "Login demo_env (\<lambda>i. 0) demo_login_request demo_users [] =
     (Inr \<lparr>lr_UserId = 7, lr_Token = generateToken 7 0, lr_Nickname = ''Ann'', lr_Level = 1, lr_Exp = 0,
        lr_Gold = 0, lr_Diamond = 0\<rparr>, d',
      AList.update (''session:'' @ generateToken 7 0) (show_u64 7) [(user_key NewUserCache 7, ''u'')])"
    using demo_login by blast
  have u: "cn_UserID (gw_conn gw 0) = 7"
    using handleLogin_binds [OF l] dl by (simp add: demo_gw_env_def login_rpc_def gw1 demo_gw_def demo_one_state)
  have law: "mongo_driver (le_db demo_env) mem_room_view mem_user_view" "redis (le_exec demo_env) map_of AList.delete"
    using mem.mongo_driver_axioms mem_redis.redis_axioms by (simp_all add: demo_env_def)
  have "cn_UserID (gw_conn gw 0) \<noteq> cn_UserID (gw_conn demo_gw 0)" using u by (simp add: demo_gw_simps)
  moreover have "gv_login demo_gw_env = login_rpc demo_env (\<lambda>_. 0)" by (simp add: demo_gw_env_def)
  ultimately obtain a where "mem_user_view (gw_login demo_gw) 7 = Some a" "u_Password a = hashPassword ''pw''"
    using gateway_login_authenticates [OF law _ h] u by (fastforce simp: demo_gw_env_def demo_login_request_def)
  moreover have "gw_login demo_gw = demo_users" by (simp add: demo_gw_def)
  ultimately show ?thesis using h u by auto
qed

end
