(* ===== verification/Client.thy ===== *)
theory Client
  imports Gateway
begin

text \<open>
  The demo client, \<open>examples/login/main.go\<close>: the other end of the gateway's protocol. The
  segments that will arrive on its socket are part of its state, and its writes are collected one by
  one. The server reads the client's segments with \<open>serve\<close>.
\<close>

section \<open>The connection\<close>

record game_client =
  gc_conn :: bool
  gc_connected :: bool
  gc_in :: "bytes list"
  gc_out :: "bytes list"
  gc_userID :: u64
  gc_token :: string

datatype client_error = ConnectFailed | CloseFailed | NotConnected | WriteError | ReadError | BadLength u32
  | MarshalError | UnmarshalError | Rejected string

definition NewGameClient :: game_client where
  "NewGameClient = \<lparr>gc_conn = False, gc_connected = False, gc_in = [], gc_out = [], gc_userID = 0, gc_token = ''''\<rparr>"

text \<open>\<open>dialled\<close>: whether the dial succeeds, and what the server will send.\<close>

definition Connect :: "bytes list option \<Rightarrow> game_client \<Rightarrow> client_error option \<times> game_client" where
  "Connect dialled gc =
     (case dialled of
        None \<Rightarrow> (Some ConnectFailed, gc)
      | Some segs \<Rightarrow> (None, gc\<lparr>gc_conn := True, gc_connected := True, gc_in := segs, gc_out := []\<rparr>))"

definition Disconnect :: "bool \<Rightarrow> game_client \<Rightarrow> client_error option \<times> game_client" where
  "Disconnect closes gc =
     (if gc_conn gc then (if closes then None else Some CloseFailed, gc\<lparr>gc_connected := False\<rparr>) else (None, gc))"

text \<open>\<open>ok\<close> tells of each of the two writes whether it succeeds.\<close>

definition sendMessage :: "(nat \<Rightarrow> bool) \<Rightarrow> u32 \<Rightarrow> bytes \<Rightarrow> game_client \<Rightarrow> client_error option \<times> game_client" where
  "sendMessage ok msgID data gc =
     (if \<not> gc_connected gc then (Some NotConnected, gc)
      else (let message = be_encode msgID @ data;
                lengthBytes = be_encode (word_of_nat (length message))
            in if \<not> ok 0 then (Some WriteError, gc)
               else (let gc1 = gc\<lparr>gc_out := gc_out gc @ [lengthBytes]\<rparr> in
                     if \<not> ok 1 then (Some WriteError, gc1)
                     else (None, gc1\<lparr>gc_out := gc_out gc1 @ [message]\<rparr>))))"

definition receiveMessage :: "game_client \<Rightarrow> (client_error + bytes) \<times> game_client" where
  "receiveMessage gc =
     (if \<not> gc_connected gc then (Inl NotConnected, gc)
      else (case sock_read 4 (gc_in gc) of
              None \<Rightarrow> (Inl ReadError, gc)
            | Some (c, segs1) \<Rightarrow>
                (let gc1 = gc\<lparr>gc_in := segs1\<rparr>; msgLen = be_decode (fill 4 c) in
                 if msgLen = 0 \<or> msgLen > 1024 * 1024 then (Inl (BadLength msgLen), gc1)
                 else (case sock_read (unat msgLen) segs1 of
                         None \<Rightarrow> (Inl ReadError, gc1)
                       | Some (b, segs2) \<Rightarrow> (Inr (fill (unat msgLen) b), gc1\<lparr>gc_in := segs2\<rparr>)))))"

section \<open>Requests\<close>

record client_codec =
  cl_marshal_login :: "login_request \<Rightarrow> bytes option"
  cl_marshal_request :: "base_request \<Rightarrow> bytes option"
  cl_unmarshal_response :: "bytes \<Rightarrow> base_response option"
  cl_unmarshal_login :: "bytes \<Rightarrow> login_response option"

definition login_header :: "time \<Rightarrow> msg_header" where
  "login_header now = \<lparr>mh_MsgId = 1001, mh_Seq = 1, mh_UserId = 0, mh_Timestamp = word_of_int (unix now), mh_SessionId = ''''\<rparr>"

definition login_request_of :: "string \<Rightarrow> string \<Rightarrow> login_request" where
  "login_request_of username password =
     \<lparr>lq_Username = username, lq_Password = password, lq_Platform = ''test'', lq_Version = ''1.0.0''\<rparr>"

text \<open>The two encodings of a login request.\<close>

definition login_bytes :: "client_codec \<Rightarrow> time \<Rightarrow> string \<Rightarrow> string \<Rightarrow> bytes option" where
  "login_bytes cl now username password =
     (case cl_marshal_login cl (login_request_of username password) of
        None \<Rightarrow> None
      | Some reqData \<Rightarrow> cl_marshal_request cl \<lparr>rq_Header = Some (login_header now), rq_Data = reqData\<rparr>)"

text \<open>The answer: the last log line slices the token, which panics if it is too short.\<close>

definition login_answer ::
  "client_codec \<Rightarrow> bytes \<Rightarrow> game_client \<Rightarrow> (client_error option \<times> game_client) outcome" where
  "login_answer cl responseData gc =
     (case cl_unmarshal_response cl responseData of
        None \<Rightarrow> Ret (Some UnmarshalError, gc)
      | Some baseResp \<Rightarrow>
          if rs_Code baseResp \<noteq> 0 then Ret (Some (Rejected (rs_Msg baseResp)), gc)
          else (case cl_unmarshal_login cl (rs_Data baseResp) of
                  None \<Rightarrow> Ret (Some UnmarshalError, gc)
                | Some loginResp \<Rightarrow>
                    (let gc1 = gc\<lparr>gc_userID := lr_UserId loginResp, gc_token := lr_Token loginResp\<rparr> in
                     if length (gc_token gc1) < 10 then Panic SliceOutOfRange else Ret (None, gc1))))"

definition client_Login ::
  "client_codec \<Rightarrow> time \<Rightarrow> (nat \<Rightarrow> bool) \<Rightarrow> string \<Rightarrow> string \<Rightarrow> game_client \<Rightarrow>
   (client_error option \<times> game_client) outcome" where
  "client_Login cl now ok username password gc =
     (case login_bytes cl now username password of
        None \<Rightarrow> Ret (Some MarshalError, gc)
      | Some baseReqData \<Rightarrow>
          (case sendMessage ok 1001 baseReqData gc of
             (Some e, gc1) \<Rightarrow> Ret (Some e, gc1)
           | (None, gc1) \<Rightarrow>
               (case receiveMessage gc1 of
                  (Inl e, gc2) \<Rightarrow> Ret (Some e, gc2)
                | (Inr responseData, gc2) \<Rightarrow> login_answer cl responseData gc2)))"

definition session_request :: "u32 \<Rightarrow> u32 \<Rightarrow> time \<Rightarrow> game_client \<Rightarrow> base_request" where
  "session_request msgID seqno now gc =
     \<lparr>rq_Header = Some \<lparr>mh_MsgId = msgID, mh_Seq = seqno, mh_UserId = gc_userID gc,
        mh_Timestamp = word_of_int (unix now), mh_SessionId = gc_token gc\<rparr>, rq_Data = []\<rparr>"

definition SendHeartbeat ::
  "client_codec \<Rightarrow> time \<Rightarrow> (nat \<Rightarrow> bool) \<Rightarrow> game_client \<Rightarrow> client_error option \<times> game_client" where
  "SendHeartbeat cl now ok gc =
     (case cl_marshal_request cl (session_request 1002 2 now gc) of
        None \<Rightarrow> (Some MarshalError, gc)
      | Some reqData \<Rightarrow>
          (case sendMessage ok 1002 reqData gc of
             (Some e, gc1) \<Rightarrow> (Some e, gc1)
           | (None, gc1) \<Rightarrow>
               (case receiveMessage gc1 of
                  (Inl e, gc2) \<Rightarrow> (Some e, gc2)
                | (Inr responseData, gc2) \<Rightarrow>
                    (case cl_unmarshal_response cl responseData of
                       None \<Rightarrow> (Some UnmarshalError, gc2)
                     | Some baseResp \<Rightarrow>
                         (if rs_Code baseResp \<noteq> 0 then Some (Rejected (rs_Msg baseResp)) else None, gc2)))))"

definition client_Logout ::
  "client_codec \<Rightarrow> time \<Rightarrow> (nat \<Rightarrow> bool) \<Rightarrow> game_client \<Rightarrow> client_error option \<times> game_client" where
  "client_Logout cl now ok gc =
     (case cl_marshal_request cl (session_request 1003 3 now gc) of
        None \<Rightarrow> (Some MarshalError, gc)
      | Some reqData \<Rightarrow> sendMessage ok 1003 reqData gc)"

section \<open>Both ends\<close>

text \<open>
  The demo: login, three heartbeats whose errors are only logged, logout. A failed connection or login
  ends the process. \<open>now\<close> and \<open>ok\<close> are the clock and the fate of the writes of each
  call.
\<close>

definition runClient ::
  "client_codec \<Rightarrow> (nat \<Rightarrow> time) \<Rightarrow> (nat \<Rightarrow> nat \<Rightarrow> bool) \<Rightarrow> bytes list option \<Rightarrow>
   (client_error option \<times> game_client) outcome" where
  "runClient cl now ok dialled =
     (case Connect dialled NewGameClient of
        (Some e, gc) \<Rightarrow> Ret (Some e, gc)
      | (None, gc) \<Rightarrow>
          obind (client_Login cl (now 0) (ok 0) ''testuser'' ''123456789'' gc) (\<lambda>(e, gc1).
            if e \<noteq> None then Ret (e, gc1)
            else (let gc2 = fold (\<lambda>i g. snd (SendHeartbeat cl (now i) (ok i) g)) [1, 2, 3] gc1;
                      gc3 = snd (client_Logout cl (now 4) (ok 4) gc2)
                  in Ret (None, snd (Disconnect (ok 5 0) gc3)))))"

text \<open>What one end marshals the other end reads back.\<close>

definition codecs_agree :: "client_codec \<Rightarrow> ('b, 'd, 'l, 's) gateway_env \<Rightarrow> bool" where
  "codecs_agree cl env \<longleftrightarrow>
     (\<forall>r bs. cl_marshal_request cl r = Some bs \<longrightarrow> gv_unmarshal_request env bs = Some r) \<and>
     (\<forall>r bs. cl_marshal_login cl r = Some bs \<longrightarrow> gv_unmarshal_login env bs = Some r) \<and>
     (\<forall>r bs. gv_marshal_response env r = Some bs \<longrightarrow> cl_unmarshal_response cl bs = Some r) \<and>
     (\<forall>r bs. gv_marshal_login env r = Some bs \<longrightarrow> cl_unmarshal_login cl bs = Some r)"

lemma sendMessage_ok:
  assumes "gc_connected gc" and "\<And>i. ok i"
  shows "sendMessage ok msgID data gc = (None, gc\<lparr>gc_out := gc_out gc @ pieces [be_encode msgID @ data]\<rparr>)"
  using assms by (simp add: sendMessage_def pieces_def Let_def)

text \<open>The server's loop takes one message out of the two segments of a request.\<close>

lemma serve_request:
  assumes "valid_message m"
  shows "serve collect (pieces [m]) [] = ([m], ReadFailed)"
proof -
  let ?g = "map (\<lambda>p. [p]) (pieces [m])"
  have "serve collect (map concat ?g) [] = (fold (\<lambda>m h. fst (collect m h)) [m] [], ReadFailed)"
    by (rule serve_aligned) (use assms in \<open>auto simp: pieces_def collect_def\<close>)
  then show ?thesis by (simp add: collect_def o_def)
qed

lemma receive_frame:
  assumes "gc_connected gc" and "gc_in gc = frame bs # segs" and "valid_message bs"
  shows "receiveMessage gc = (Inr bs, gc\<lparr>gc_in := segs\<rparr>)"
proof -
  let ?w = "word_of_nat (length bs) :: u32"
  have w: "?w \<noteq> 0" "\<not> ?w > 1024 * 1024" "unat ?w = length bs" using valid_length_word [OF assms(3)] by simp_all
  have ne: "bs \<noteq> []" using assms(3) by (auto simp: valid_message_def)
  have r1: "sock_read 4 (gc_in gc) = Some (be_encode ?w, bs # segs)" using ne by (simp add: assms(2) frame_def)
  have r2: "sock_read (length bs) (bs # segs) = Some (bs, segs)" by simp
  show ?thesis using assms(1) w r1 r2 by (simp add: receiveMessage_def Let_def)
qed

text \<open>
  What the handler of a login message did: one reply, and the binding that goes with it. The limiter,
  the discovery and the login service decide which.
\<close>

definition limiter_allows :: "('b, 'd, 'l, 's) gateway_env \<Rightarrow> (nat \<Rightarrow> time) \<Rightarrow> nat \<Rightarrow> ('b, 'd, 'l, 's) gateway \<Rightarrow> bool" where
  "limiter_allows env now a gw \<longleftrightarrow>
     (case msg_limit_key env (gw_conn gw a) of
        Ret k \<Rightarrow> fst (CheckLimit (gv_bucket env) now k 10 50 (ts_limiter (gw_tcp gw))) | _ \<Rightarrow> False)"

lemma login_message_answered:
  assumes "connected a s gw" and "gv_unmarshal_request env data = Some req"
    and "HandleMessage env now fails a (be_encode 1001 @ data) gw = Ret (None, gw')"
  obtains (refused) resp bs where "gv_marshal_response env resp = Some bs" and "rs_Code resp = - 1"
    and "ts_socks (gw_tcp gw') = deliver s (frame bs) (ts_socks (gw_tcp gw))"
    and "cn_UserID (gw_conn gw' a) = cn_UserID (gw_conn gw a)"
    and "\<not> (limiter_allows env now a gw \<and> login_granted env req gw)"
  | (granted) resp bs lq lresp l s' where "gv_marshal_response env resp = Some bs" and "rs_Code resp = 0"
    and "gv_marshal_login env lresp = Some (rs_Data resp)"
    and "ts_socks (gw_tcp gw') = deliver s (frame bs) (ts_socks (gw_tcp gw))"
    and "gv_unmarshal_login env (rq_Data req) = Some lq"
    and "gv_login env lq (gw_login gw) (gw_redis gw) = (Some lresp, l, s')"
    and "cn_UserID (gw_conn gw' a) = lr_UserId lresp" and "limiter_allows env now a gw" and "login_granted env req gw"
proof -
  have route: "routeMessage env now fails a 1001 req gw = Ret (None, gw')"
    using HandleMessage_route [OF assms(3)] assms(2) by simp
  obtain k ok lm gw1 where k: "msg_limit_key env (gw_conn gw a) = Ret k"
    and c: "CheckLimit (gv_bucket env) now k 10 50 (ts_limiter (gw_tcp gw)) = (ok, lm)"
    and gw1: "gw1 = gw\<lparr>gw_tcp := (gw_tcp gw)\<lparr>ts_limiter := lm\<rparr>\<rparr>"
    and r: "(if \<not> ok then gw_sendError env now fails a req (- 1) ''exceeds max messages per second'' gw1
          else handleLogin env now fails a req gw1) = Ret (None, gw')"
    using routeMessage_cases [OF route] by (metis (no_types))
  have conn: "connected a s gw1" using assms(1) by (simp add: gw1 connected_def)
  have allows: "limiter_allows env now a gw = ok" by (simp add: limiter_allows_def k c)
  have grants: "login_granted env req gw1 = login_granted env req gw" by (simp add: login_granted_def gw1)
  have error: thesis if er: "gw_sendError env now fails a req (- 1) msg gw2 = Ret (None, gw')" "gw_tcp gw2 = gw_tcp gw1"
    "\<not> (limiter_allows env now a gw \<and> login_granted env req gw)" for msg gw2
  proof -
    have c: "connected a s gw2" using conn er(2) by (simp add: connected_def)
    obtain bs where "gv_marshal_response env \<lparr>rs_Header = rq_Header req, rs_Code = - 1, rs_Msg = msg, rs_Data = []\<rparr> = Some bs"
      "ts_socks (gw_tcp gw') = deliver s (frame bs) (ts_socks (gw_tcp gw2))"
      by (rule gw_sendResponse_sent [OF c er(1) [unfolded gw_sendError_def]]) simp
    then show thesis
      using refused gw_sendError_frame [OF er(1)] er(2,3) by (simp add: gw1 same_users_def)
  qed
  show thesis
  proof (cases ok)
    case False
    then show thesis using error [OF _ refl] r allows by simp
  next
    case True
    then have h: "handleLogin env now fails a req gw1 = Ret (None, gw')" using r by simp
    then show thesis
    proof (cases rule: handleLogin_cases)
      case err: (refused msg gw2)
      then show thesis using error grants by blast
    next
      case g: (granted lq lresp l s' gw2)
      have c: "connected a s gw2" using conn g(4) by (simp add: connected_def set_conn_def)
      obtain lb bs where b: "gv_marshal_login env lresp = Some lb"
        "gv_marshal_response env \<lparr>rs_Header = rq_Header req, rs_Code = 0, rs_Msg = ''login success'', rs_Data = lb\<rparr> = Some bs"
        "ts_socks (gw_tcp gw') = deliver s (frame bs) (ts_socks (gw_tcp gw2))"
        by (rule gw_sendResponse_sent [OF c g(3)]) simp
      have "a < length (ts_heap (gw_tcp gw))" using assms(1) by (simp add: connected_def)
      then have "cn_UserID (gw_conn gw' a) = lr_UserId lresp"
        using gw_sendResponse_frame [OF g(3)] g(4) by (simp add: same_users_def set_conn_def gw1)
      then show thesis using granted [OF b(2)] b(1,3) g(1,2,4,5) True allows grants by (simp add: gw1 set_conn_def)
    qed
  qed
qed

text \<open>The login service grants exactly the stored, unbanned account with the hash of the password.\<close>

lemma login_rpc_grants:
  "fst (login_rpc lenv now req d s) \<noteq> None \<longleftrightarrow>
     (\<exists>u. fst (repo_GetByUsername (le_db lenv) (lq_Username req) d) = Inr u \<and>
          u_Password u = hashPassword (lq_Password req) \<and> u_Status u = 0)"
  by (auto simp: login_rpc_def Login_def verifyPassword_def Let_def split: sum.splits prod.splits)

lemma client_Login_answer:
  assumes "login_bytes cl t user pw = Some data" and "gc_connected gc" and "gc_out gc = []" and "gc_in gc = [frame bs]"
    and "valid_message bs"
  shows "client_Login cl t (\<lambda>_. True) user pw gc =
    login_answer cl bs (gc\<lparr>gc_out := pieces [be_encode 1001 @ data], gc_in := []\<rparr>)"
proof -
  let ?gc = "gc\<lparr>gc_out := pieces [be_encode 1001 @ data]\<rparr>"
  have "receiveMessage ?gc = (Inr bs, ?gc\<lparr>gc_in := []\<rparr>)"
    by (rule receive_frame) (use assms in simp_all)
  then show ?thesis using assms(1-3) by (simp add: client_Login_def sendMessage_ok)
qed

text \<open>
  C4. Composition of client, framing, gateway and login service. Both ends use the same message
  encoding, the client's two writes succeed, the gateway's handler returns no error, and its
  reply arrives in one segment, valid as a message. What the client of the demo writes for a
  login the server's read loop takes in as exactly this message. The client ends logged in if
  and only if the gateway's limiter admits the message, discovery finds a login node, and the
  database answers for the name a user whose stored password is the salted hash of the given
  one and who is not banned; it then has the user id that its connection now has, that of the
  stored user, and its token. Otherwise it reports the rejection, and neither its user id and
  token nor the user of the connection change.
\<close>

theorem login_end_to_end:
  assumes "codecs_agree cl env" and "connected a s gw" and "\<And>bs. gc_in gc = [frame bs] \<Longrightarrow> valid_message bs"
    and "mongo_driver (le_db lenv) rooms users" and "redis (le_exec lenv) live expire" and "gv_login env = login_rpc lenv lnow"
    and "HandleMessage env now fails a (be_encode 1001 @ data) gw = Ret (None, gw')" and "gc_connected gc" and "gc_out gc = []"
    and "login_bytes cl t user pw = Some data" and "valid_message (be_encode 1001 @ data)"
    and "sk_out (ts_socks (gw_tcp gw') s) = sk_out (ts_socks (gw_tcp gw) s) @ gc_in gc"
  shows "\<exists>r gc'. client_Login cl t (\<lambda>_. True) user pw gc = Ret (r, gc') \<and>
    serve collect (gc_out gc') [] = ([be_encode 1001 @ data], ReadFailed) \<and>
    (r = None \<longleftrightarrow> limiter_allows env now a gw \<and> (\<exists>si. fst (gv_get_service env ''login'' (gw_disc gw)) = Ret (Some si)) \<and>
       (\<exists>u. fst (repo_GetByUsername (le_db lenv) user (gw_login gw)) = Inr u \<and> u_Password u = hashPassword pw \<and> u_Status u = 0)) \<and>
    (if r = None
     then gc_userID gc' = cn_UserID (gw_conn gw' a) \<and> gc_token gc' = generateToken (gc_userID gc') (lnow 0) \<and>
       (\<exists>u. users (gw_login gw) (gc_userID gc') = Some u \<and> u_Username u = user \<and> u_Password u = hashPassword pw \<and> u_Status u = 0)
     else (\<exists>msg. r = Some (Rejected msg)) \<and> gc_userID gc' = gc_userID gc \<and> gc_token gc' = gc_token gc \<and>
       cn_UserID (gw_conn gw' a) = cn_UserID (gw_conn gw a))"
proof -
  obtain reqData where rd: "cl_marshal_login cl (login_request_of user pw) = Some reqData"
    and rq: "cl_marshal_request cl \<lparr>rq_Header = Some (login_header t), rq_Data = reqData\<rparr> = Some data"
    using assms(10) by (auto simp: login_bytes_def split: option.splits)
  have un: "gv_unmarshal_request env data = Some \<lparr>rq_Header = Some (login_header t), rq_Data = reqData\<rparr>"
    "gv_unmarshal_login env reqData = Some (login_request_of user pw)"
    using assms(1) rd rq unfolding codecs_agree_def by blast+
  have reads: "gv_marshal_response env r = Some bs \<Longrightarrow> cl_unmarshal_response cl bs = Some r"
    "gv_marshal_login env l = Some bs \<Longrightarrow> cl_unmarshal_login cl bs = Some l" for r l bs
    using assms(1) unfolding codecs_agree_def by blast+
  have sent: "serve collect (pieces [be_encode 1001 @ data]) [] = ([be_encode 1001 @ data], ReadFailed)"
    by (rule serve_request [OF assms(11)])
  have grants: "login_granted env \<lparr>rq_Header = Some (login_header t), rq_Data = reqData\<rparr> gw \<longleftrightarrow>
      (\<exists>si. fst (gv_get_service env ''login'' (gw_disc gw)) = Ret (Some si)) \<and>
      (\<exists>u. fst (repo_GetByUsername (le_db lenv) user (gw_login gw)) = Inr u \<and> u_Password u = hashPassword pw \<and> u_Status u = 0)"
    using login_rpc_grants [of lenv lnow "login_request_of user pw" "gw_login gw" "gw_redis gw"]
    by (simp add: login_granted_def un(2) assms(6)) (simp add: login_request_of_def)
  let ?gc = "gc\<lparr>gc_out := pieces [be_encode 1001 @ data], gc_in := []\<rparr>"
  have login: "client_Login cl t (\<lambda>_. True) user pw gc = login_answer cl bs ?gc"
    if "gv_marshal_response env resp = Some bs" "ts_socks (gw_tcp gw') = deliver s (frame bs) (ts_socks (gw_tcp gw))" for resp bs
    by (rule client_Login_answer [OF assms(10,8,9)]) (use assms(12) that assms(3) in \<open>simp_all add: deliver_def\<close>)
  from assms(2) un(1) assms(7) show ?thesis
  proof (cases rule: login_message_answered)
    case (refused resp bs)
    have "client_Login cl t (\<lambda>_. True) user pw gc = Ret (Some (Rejected (rs_Msg resp)), ?gc)"
      using login [OF refused(1,3)] reads(1) [OF refused(1)] refused(2) by (simp add: login_answer_def)
    then show ?thesis using sent refused(4,5) grants by (intro exI [of _ "Some (Rejected (rs_Msg resp))"] exI [of _ ?gc]) simp
  next
    case (granted resp bs lq lresp l s')
    let ?gc' = "?gc\<lparr>gc_userID := lr_UserId lresp, gc_token := lr_Token lresp\<rparr>"
    have lq: "lq = login_request_of user pw" using granted(5) un(2) by simp
    have "Login lenv lnow lq (gw_login gw) (gw_redis gw) = (Inr lresp, l, s')"
      using granted(6) by (auto simp: assms(6) login_rpc_def split: prod.splits sum.splits)
    from Login_success [OF assms(4,5) this] obtain u where u: "users (gw_login gw) (lr_UserId lresp) = Some u"
      "u_Username u = user" "u_Password u = hashPassword pw" "u_Status u = 0"
      "lr_Token lresp = generateToken (lr_UserId lresp) (lnow 0)"
      unfolding lq login_request_of_def by auto
    have "\<not> length (lr_Token lresp) < 10" by (simp add: u(5) generateToken_def)
    then have "client_Login cl t (\<lambda>_. True) user pw gc = Ret (None, ?gc')"
      using login [OF granted(1,4)] reads(1) [OF granted(1)] reads(2) [OF granted(3)] granted(2)
      by (simp add: login_answer_def Let_def)
    then show ?thesis using sent u granted(7-9) grants by (intro exI [of _ None] exI [of _ ?gc']) simp
  qed
qed

text \<open>One account, the client of the demo and codecs that know exactly their messages.\<close>

definition ann_response :: login_response where
  "ann_response = \<lparr>lr_UserId = 7, lr_Token = generateToken 7 0, lr_Nickname = ''Ann'', lr_Level = 1, lr_Exp = 0,
     lr_Gold = 0, lr_Diamond = 0\<rparr>"

definition ann_request :: base_request where
  "ann_request = \<lparr>rq_Header = Some (login_header 0), rq_Data = [2]\<rparr>"

definition ann_answer :: base_response where
  "ann_answer = \<lparr>rs_Header = Some (login_header 0), rs_Code = 0, rs_Msg = ''login success'', rs_Data = [4]\<rparr>"

definition ann_codec :: client_codec where
  "ann_codec = \<lparr>cl_marshal_login = (\<lambda>r. if r = login_request_of ''ann'' ''pw'' then Some [2] else None),
     cl_marshal_request = (\<lambda>r. if r = ann_request then Some [1] else None),
     cl_unmarshal_response = (\<lambda>bs. if bs = [5] then Some ann_answer else None),
     cl_unmarshal_login = (\<lambda>bs. if bs = [4] then Some ann_response else None)\<rparr>"

definition ann_env :: "(exact_bucket, unit, mem_db, (string \<times> string) list) gateway_env" where
  "ann_env = demo_gw_env\<lparr>gv_unmarshal_request := (\<lambda>bs. if bs = [1] then Some ann_request else None),
     gv_unmarshal_login := (\<lambda>bs. if bs = [2] then Some (login_request_of ''ann'' ''pw'') else None),
     gv_marshal_response := (\<lambda>r. if r = ann_answer then Some [5] else None),
     gv_marshal_login := (\<lambda>r. if r = ann_response then Some [4] else None)\<rparr>"

definition ann_client :: game_client where
  "ann_client = NewGameClient\<lparr>gc_conn := True, gc_connected := True, gc_in := [frame [5]]\<rparr>"

lemma ann_codecs: "codecs_agree ann_codec ann_env"
  by (simp add: codecs_agree_def ann_codec_def ann_env_def)

lemma ann_login:
  "\<exists>d' s'. Login demo_env (\<lambda>i. 0) (login_request_of ''ann'' ''pw'') demo_users [] = (Inr ann_response, d', s')"
  by (simp add: Login_def login_request_of_def ann_response_def demo_env_def demo_users_def demo_account_def
      repo_GetByUsername_def find_user_def mem_mongo_def verifyPassword_def SetUserInfo_def SetSession_def rm_Set_def
      NewSessionCache_def repo_UpdateFields_def db_result_def Let_def split: prod.splits)

lemma ann_handled:
  obtains gw' where "HandleMessage ann_env (\<lambda>_. 0) False 0 (be_encode 1001 @ [1]) demo_gw = Ret (None, gw')"
    and "sk_out (ts_socks (gw_tcp gw') 7) = [frame [5]]"
proof -
  obtain d' s' where l: "Login demo_env (\<lambda>i. 0) (login_request_of ''ann'' ''pw'') demo_users [] = (Inr ann_response, d', s')"
    using ann_login by blast
  obtain e1 s1 where o: "SetUserOnline mem_exec 7 ''gw1'' s' = (e1, s1)" by fastforce
  obtain ok lm where c: "CheckLimit exact_lib (\<lambda>_. 0) ''msg:ip:10.0.0.1'' 10 50 (ts_limiter (gw_tcp demo_gw)) = (ok, lm)" by fastforce
  then have ok by (auto simp: demo_gw_simps CheckLimit_def NewRateLimitManager_def exact_lib_def eb_level_def)
  have env: "gv_unmarshal_request ann_env [1] = Some ann_request" "gv_bucket ann_env = exact_lib"
    "gv_unmarshal_login ann_env [2] = Some (login_request_of ''ann'' ''pw'')" "gv_marshal_login ann_env ann_response = Some [4]"
    "gv_marshal_response ann_env ann_answer = Some [5]" "gv_exec ann_env = mem_exec" "gv_nodeID ann_env = ''gw1''"
    "gv_login ann_env = login_rpc demo_env (\<lambda>_. 0)" "gv_clientIP ann_env 7 = ''10.0.0.1''"
    "\<And>t d. gv_get_service ann_env t d = (Ret (Some (demo_service t ''online'' 0)), d)"
    by (simp_all add: ann_env_def demo_gw_env_def)
  have k: "msg_limit_key ann_env (gw_conn demo_gw 0) = Ret ''msg:ip:10.0.0.1''"
    by (simp add: msg_limit_key_def env demo_gw_def demo_one_state fresh_conn_def)
  let ?gw = "demo_gw\<lparr>gw_tcp := (gw_tcp demo_gw)\<lparr>ts_limiter := lm\<rparr>\<rparr>"
  let ?gw2 = "(set_conn 0 ((gw_conn ?gw 0)\<lparr>cn_UserID := lr_UserId ann_response\<rparr>) ?gw)\<lparr>gw_login := d', gw_redis := s1\<rparr>"
  have u: "lr_UserId ann_response = 7" by (simp add: ann_response_def)
  have d: "drop 4 (be_encode 1001 @ [1]) = [1]" by simp
  have "HandleMessage ann_env (\<lambda>_. 0) False 0 (be_encode 1001 @ [1]) demo_gw = handleLogin ann_env (\<lambda>_. 0) False 0 ann_request ?gw"
    using \<open>ok\<close> by (simp add: HandleMessage_def d env routeMessage_def k c)
  also have "\<dots> = gw_sendResponse ann_env (\<lambda>_. 0) False 0 ann_request 0 ''login success'' (Some ann_response) ?gw2"
    by (simp add: handleLogin_def env get_service_def ann_request_def login_rpc_def l u o demo_gw_def)
  finally have h: "HandleMessage ann_env (\<lambda>_. 0) False 0 (be_encode 1001 @ [1]) demo_gw =
      gw_sendResponse ann_env (\<lambda>_. 0) False 0 ann_request 0 ''login success'' (Some ann_response) ?gw2" .
  have a: "\<lparr>rs_Header = rq_Header ann_request, rs_Code = 0, rs_Msg = ''login success'', rs_Data = [4]\<rparr> = ann_answer"
    by (simp add: ann_request_def ann_answer_def)
  have "\<exists>gw'. gw_sendResponse ann_env (\<lambda>_. 0) False 0 ann_request 0 ''login success'' (Some ann_response) ?gw2 = Ret (None, gw') \<and>
      sk_out (ts_socks (gw_tcp gw') 7) = [frame [5]]"
    by (simp add: gw_sendResponse_def env a write_to_def conn_Write_def set_conn_def demo_gw_def demo_one_state
        fresh_conn_def quiet_socks_def)
  then show thesis using that h by auto
qed

theorem login_end_to_end_witness:
  "\<exists>gw' gc'. HandleMessage ann_env (\<lambda>_. 0) False 0 (be_encode 1001 @ [1]) demo_gw = Ret (None, gw') \<and>
     sk_out (ts_socks (gw_tcp gw') 7) = gc_in ann_client \<and>
     client_Login ann_codec 0 (\<lambda>_. True) ''ann'' ''pw'' ann_client = Ret (None, gc') \<and>
     gc_userID gc' = 7 \<and> cn_UserID (gw_conn gw' 0) = 7 \<and> serve collect (gc_out gc') [] = ([be_encode 1001 @ [1]], ReadFailed)"
proof -
  obtain gw' where h: "HandleMessage ann_env (\<lambda>_. 0) False 0 (be_encode 1001 @ [1]) demo_gw = Ret (None, gw')"
    and out: "sk_out (ts_socks (gw_tcp gw') 7) = [frame [5]]"
    by (rule ann_handled)
  have law: "mongo_driver (le_db demo_env) mem_room_view mem_user_view" "redis (le_exec demo_env) map_of AList.delete"
    using mem.mongo_driver_axioms mem_redis.redis_axioms by (simp_all add: demo_env_def)
  have lb: "login_bytes ann_codec 0 ''ann'' ''pw'' = Some [1]"
    by (simp add: login_bytes_def ann_codec_def ann_request_def)
  have gc: "gc_connected ann_client" "gc_out ann_client = []" "gc_in ann_client = [frame [5]]"
    by (simp_all add: ann_client_def NewGameClient_def)
  have valid: "valid_message bs" if "gc_in ann_client = [frame bs]" for bs
    using that gc(3) by (auto simp: frame_def valid_message_def be_encode_def)
  have rpc: "gv_login ann_env = login_rpc demo_env (\<lambda>_. 0)" by (simp add: ann_env_def demo_gw_env_def)
  have io: "sk_out (ts_socks (gw_tcp gw') 7) = sk_out (ts_socks (gw_tcp demo_gw) 7) @ gc_in ann_client"
    using out gc(3) by (simp add: demo_gw_def demo_one_state quiet_socks_def)
  have vm: "valid_message (be_encode 1001 @ [1])" by (simp add: valid_message_def)
  from login_end_to_end [OF ann_codecs demo_connected valid law rpc h gc(1,2) lb vm io]
  obtain r gc' where r: "client_Login ann_codec 0 (\<lambda>_. True) ''ann'' ''pw'' ann_client = Ret (r, gc')"
    and s: "serve collect (gc_out gc') [] = ([be_encode 1001 @ [1]], ReadFailed)"
    and id: "r = None \<Longrightarrow> gc_userID gc' = cn_UserID (gw_conn gw' 0)" by auto
  have "client_Login ann_codec 0 (\<lambda>_. True) ''ann'' ''pw'' ann_client =
      login_answer ann_codec [5] (ann_client\<lparr>gc_out := pieces [be_encode 1001 @ [1]], gc_in := []\<rparr>)"
    by (rule client_Login_answer [OF lb gc]) (simp add: valid_message_def)
  then have "r = None \<and> gc_userID gc' = 7"
    using r by (simp add: login_answer_def ann_codec_def ann_answer_def ann_response_def generateToken_def Let_def) auto
  then show ?thesis using h out gc(3) r s id by auto
qed

end
