(* ===== verification/Actor.thy ===== *)
theory Actor
  imports Prelude
begin

text \<open>
  The actors of \<open>internal/actor\<close>: the mailbox actor \<open>BaseActor\<close> with its goroutine as a
  step relation, the actor system, and the actors the servers spawn. What an actor does with a
  message is a record of functions on its own state.
\<close>

section \<open>Actors\<close>

record actor_message =
  am_type :: string
  am_data :: bytes

datatype actor_error = AlreadyRunning string | NotRunning string | MailboxFull string
  | AlreadyExists string | ActorNotFound string | HandlerError string

record 's actor_ops =
  op_OnReceive :: "actor_message \<Rightarrow> 's \<Rightarrow> actor_error option \<times> 's"
  op_OnStart :: "'s \<Rightarrow> actor_error option \<times> 's"
  op_OnStop :: "'s \<Rightarrow> actor_error option \<times> 's"

text \<open>
  \<open>ba_cancelled\<close> is the state of the context and \<open>ba_loops\<close> the number of \<open>run\<close>
  goroutines the wait group counts. \<open>ba_handled\<close> records the messages \<open>OnReceive\<close> got.
\<close>

record 's base_actor =
  ba_id :: string
  ba_actorType :: string
  ba_mailbox :: "actor_message list"
  ba_capacity :: int
  ba_cancelled :: bool
  ba_running :: bool
  ba_loops :: nat
  ba_state :: 's
  ba_handled :: "actor_message list"

definition NewBaseActor :: "string \<Rightarrow> string \<Rightarrow> int \<Rightarrow> 's \<Rightarrow> 's base_actor outcome" where
  "NewBaseActor i t mailboxSize s =
     (if mailboxSize < 0 then Panic NegativeChannelSize
      else Ret \<lparr>ba_id = i, ba_actorType = t, ba_mailbox = [], ba_capacity = mailboxSize, ba_cancelled = False,
                ba_running = False, ba_loops = 0, ba_state = s, ba_handled = []\<rparr>)"

definition GetID :: "'s base_actor \<Rightarrow> string" where
  "GetID a = ba_id a"

definition GetType :: "'s base_actor \<Rightarrow> string" where
  "GetType a = ba_actorType a"

definition GetMailboxSize :: "'s base_actor \<Rightarrow> int" where
  "GetMailboxSize a = int (length (ba_mailbox a))"

definition actor_Start :: "'s actor_ops \<Rightarrow> 's base_actor \<Rightarrow> actor_error option \<times> 's base_actor" where
  "actor_Start ops a =
     (if ba_running a then (Some (AlreadyRunning (ba_id a)), a)
      else (let (e, s) = op_OnStart ops (ba_state a)
            in (e, a\<lparr>ba_running := True, ba_loops := Suc (ba_loops a), ba_state := s\<rparr>)))"

text \<open>
  A round of a \<open>run\<close> goroutine: with both cases of the \<open>select\<close> ready either is taken; the
  handler's error is only logged.
\<close>

datatype run_choice = TakeMessage | TakeDone

fun run_round :: "'s actor_ops \<Rightarrow> run_choice \<Rightarrow> 's base_actor \<Rightarrow> 's base_actor option" where
  "run_round ops TakeMessage a =
     (case ba_mailbox a of
        [] \<Rightarrow> None
      | m # ms \<Rightarrow>
          if ba_loops a = 0 then None
          else Some (a\<lparr>ba_mailbox := ms, ba_state := snd (op_OnReceive ops m (ba_state a)),
                       ba_handled := ba_handled a @ [m]\<rparr>))"
| "run_round ops TakeDone a =
     (if ba_loops a = 0 \<or> \<not> ba_cancelled a then None else Some (a\<lparr>ba_loops := ba_loops a - 1\<rparr>))"

text \<open>
  \<open>Tell\<close> fails when the mailbox stays full for 5 s; a message taken during the wait is a
  round before the call. With \<open>handed\<close> the goroutine stands at its select and the channel is empty:
  the send meets the receive, and no place in the buffer is needed.
\<close>

definition actor_Tell ::
  "'s actor_ops \<Rightarrow> bool \<Rightarrow> actor_message \<Rightarrow> 's base_actor \<Rightarrow> actor_error option \<times> 's base_actor" where
  "actor_Tell ops handed m a =
     (if \<not> ba_running a then (Some (NotRunning (ba_id a)), a)
      else if handed \<and> ba_mailbox a = [] \<and> ba_loops a > 0
      then (None, a\<lparr>ba_state := snd (op_OnReceive ops m (ba_state a)), ba_handled := ba_handled a @ [m]\<rparr>)
      else if int (length (ba_mailbox a)) < ba_capacity a then (None, a\<lparr>ba_mailbox := ba_mailbox a @ [m]\<rparr>)
      else (Some (MailboxFull (ba_id a)), a))"

text \<open>
  \<open>Stop\<close> before and after its wait: cancel, then \<open>OnStop\<close> once no goroutine is left. The
  lock keeps \<open>Start\<close>, \<open>Stop\<close> and \<open>Tell\<close> out in between.
\<close>

definition stop_begin :: "'s base_actor \<Rightarrow> 's base_actor" where
  "stop_begin a = a\<lparr>ba_running := False, ba_cancelled := True\<rparr>"

fun run_rounds :: "'s actor_ops \<Rightarrow> run_choice list \<Rightarrow> 's base_actor \<Rightarrow> 's base_actor option" where
  "run_rounds ops [] a = Some a"
| "run_rounds ops (c # cs) a = (case run_round ops c a of None \<Rightarrow> None | Some a' \<Rightarrow> run_rounds ops cs a')"

text \<open>\<open>cs\<close>: what the goroutine does while \<open>Stop\<close> waits; blocked as long as it goes on.\<close>

definition actor_Stop ::
  "'s actor_ops \<Rightarrow> run_choice list \<Rightarrow> 's base_actor \<Rightarrow> (actor_error option \<times> 's base_actor) outcome" where
  "actor_Stop ops cs a =
     (if \<not> ba_running a then Ret (None, a)
      else (case run_rounds ops cs (stop_begin a) of
              None \<Rightarrow> Blocked
            | Some a1 \<Rightarrow>
                if ba_loops a1 > 0 then Blocked
                else (let (e, s) = op_OnStop ops (ba_state a1) in Ret (e, a1\<lparr>ba_state := s\<rparr>))))"

section \<open>The actor system\<close>

text \<open>The map of actors, in the order it is iterated.\<close>

record 'a actor_system =
  as_name :: string
  as_actors :: "(string \<times> 'a) list"
  as_cancelled :: bool

definition NewActorSystem :: "string \<Rightarrow> 'a actor_system" where
  "NewActorSystem name = \<lparr>as_name = name, as_actors = [], as_cancelled = False\<rparr>"

definition GetActor :: "string \<Rightarrow> 'a actor_system \<Rightarrow> 'a option" where
  "GetActor i sys = map_of (as_actors sys) i"

definition put_actor :: "string \<Rightarrow> 'a \<Rightarrow> 'a actor_system \<Rightarrow> 'a actor_system" where
  "put_actor i a sys = sys\<lparr>as_actors := map (\<lambda>e. if fst e = i then (i, a) else e) (as_actors sys)\<rparr>"

text \<open>The spawned actors embed a \<open>BaseActor\<close>; the system calls only their hooks.\<close>

definition SpawnActor ::
  "'s actor_ops \<Rightarrow> 's base_actor \<Rightarrow> ('s base_actor) actor_system \<Rightarrow>
   actor_error option \<times> ('s base_actor) actor_system" where
  "SpawnActor ops a sys =
     (if GetActor (ba_id a) sys \<noteq> None then (Some (AlreadyExists (ba_id a)), sys)
      else (case op_OnStart ops (ba_state a) of
              (Some e, s) \<Rightarrow> (Some e, sys)
            | (None, s) \<Rightarrow> (None, sys\<lparr>as_actors := as_actors sys @ [(ba_id a, a\<lparr>ba_state := s\<rparr>)]\<rparr>)))"

text \<open>The message is handled in the goroutine of the caller.\<close>

definition sys_Tell ::
  "(string \<Rightarrow> 's actor_ops) \<Rightarrow> string \<Rightarrow> actor_message \<Rightarrow> ('s base_actor) actor_system \<Rightarrow>
   actor_error option \<times> ('s base_actor) actor_system" where
  "sys_Tell ops i m sys =
     (case GetActor i sys of
        None \<Rightarrow> (Some (ActorNotFound i), sys)
      | Some a \<Rightarrow>
          (let (e, s) = op_OnReceive (ops i) m (ba_state a)
           in (e, put_actor i (a\<lparr>ba_state := s, ba_handled := ba_handled a @ [m]\<rparr>) sys)))"

definition Shutdown ::
  "(string \<Rightarrow> 's actor_ops) \<Rightarrow> ('s base_actor) actor_system \<Rightarrow>
   's base_actor list \<times> ('s base_actor) actor_system" where
  "Shutdown ops sys =
     (map (\<lambda>(i, a). a\<lparr>ba_state := snd (op_OnStop (ops i) (ba_state a))\<rparr>) (as_actors sys),
      sys\<lparr>as_actors := [], as_cancelled := True\<rparr>)"

definition GetActorCount :: "'a actor_system \<Rightarrow> int" where
  "GetActorCount sys = int (length (as_actors sys))"

definition ListActors :: "'a actor_system \<Rightarrow> string list" where
  "ListActors sys = map fst (as_actors sys)"

section \<open>The servers' actors\<close>

text \<open>The gateway's and the login server's actor: both handlers and the default only log.\<close>

definition service_OnReceive :: "actor_message \<Rightarrow> 's \<Rightarrow> actor_error option \<times> 's" where
  "service_OnReceive m s =
     (if am_type m = ''user_login'' then (None, s)
      else if am_type m = ''user_logout'' then (None, s)
      else (None, s))"

definition service_ops :: "'s actor_ops" where
  "service_ops = \<lparr>op_OnReceive = service_OnReceive, op_OnStart = (\<lambda>s. (None, s)), op_OnStop = (\<lambda>s. (None, s))\<rparr>"

text \<open>The login server's hooks are those of the gateway word for word.\<close>

definition login_ops :: "'s actor_ops" where
  "login_ops = service_ops"

definition NewGatewayActor :: "'s \<Rightarrow> 's base_actor outcome" where
  "NewGatewayActor s = NewBaseActor ''gateway_actor'' ''gateway'' 1000 s"

definition NewLoginActor :: "'s \<Rightarrow> 's base_actor outcome" where
  "NewLoginActor s = NewBaseActor ''login_actor'' ''login'' 1000 s"

section \<open>What an actor promises\<close>

text \<open>
  The contract of the \<open>Actor\<close> interface for an invariant of the actor's own state: every hook
  keeps it. Whatever the goroutine, the callers and the system do then keeps it.
\<close>

locale actor_behaviour =
  fixes ops :: "'s actor_ops" and keeps :: "'s \<Rightarrow> bool"
  assumes receive: "keeps s \<Longrightarrow> keeps (snd (op_OnReceive ops m s))"
    and start: "keeps s \<Longrightarrow> keeps (snd (op_OnStart ops s))"
    and stop: "keeps s \<Longrightarrow> keeps (snd (op_OnStop ops s))"
begin

lemma round_keeps: "run_round ops c a = Some a' \<Longrightarrow> keeps (ba_state a) \<Longrightarrow> keeps (ba_state a')"
  by (cases c) (auto simp: receive split: list.splits if_splits)

lemma rounds_keep: "run_rounds ops cs a = Some a' \<Longrightarrow> keeps (ba_state a) \<Longrightarrow> keeps (ba_state a')"
  by (induction cs arbitrary: a) (auto simp: round_keeps split: option.splits)

lemma stop_keeps:
  assumes "actor_Stop ops cs a = Ret (e, a')" and "keeps (ba_state a)"
  shows "keeps (ba_state a')"
proof (cases "ba_running a")
  case True
  then obtain a1 where a1: "run_rounds ops cs (stop_begin a) = Some a1"
    and a': "a' = a1\<lparr>ba_state := snd (op_OnStop ops (ba_state a1))\<rparr>"
    using assms(1) by (auto simp: actor_Stop_def split: option.splits if_splits prod.splits)
  have "keeps (ba_state a1)" by (rule rounds_keep [OF a1]) (simp add: stop_begin_def assms(2))
  then show ?thesis by (simp add: a' stop)
qed (use assms in \<open>simp add: actor_Stop_def\<close>)

lemma tell_keeps:
  assumes "GetActor i sys = Some a" and "keeps (ba_state a)" and "sys_Tell (\<lambda>_. ops) i m sys = (e, sys')"
  shows "\<exists>a'. GetActor i sys' = Some a' \<and> keeps (ba_state a')"
proof -
  have map_upd: "map_of (map (\<lambda>e. if fst e = i then (i, x) else e) xs) i = (if map_of xs i = None then None else Some x)"
    for xs :: "(string \<times> 's base_actor) list" and x by (induction xs) auto
  show ?thesis using assms
    by (auto simp: sys_Tell_def GetActor_def put_actor_def map_upd split: prod.splits) (metis receive snd_conv)
qed

end

interpretation service: actor_behaviour service_ops "\<lambda>s. s = s0" for s0
  by unfold_locales (simp_all add: service_ops_def service_OnReceive_def)

section \<open>Runs of an actor\<close>

datatype actor_event = EStart | ETell bool actor_message | ERound run_choice | EStop "run_choice list"

fun actor_step :: "'s actor_ops \<Rightarrow> actor_event \<Rightarrow> 's base_actor \<Rightarrow> 's base_actor option" where
  "actor_step ops EStart a = Some (snd (actor_Start ops a))"
| "actor_step ops (ETell handed m) a = Some (snd (actor_Tell ops handed m a))"
| "actor_step ops (ERound c) a = run_round ops c a"
| "actor_step ops (EStop cs) a = (case actor_Stop ops cs a of Ret (e, a') \<Rightarrow> Some a' | _ \<Rightarrow> None)"

text \<open>A run, with the messages whose \<open>Tell\<close> returned nil.\<close>

fun actor_run ::
  "'s actor_ops \<Rightarrow> actor_event list \<Rightarrow> 's base_actor \<Rightarrow> (actor_message list \<times> 's base_actor) option" where
  "actor_run ops [] a = Some ([], a)"
| "actor_run ops (ev # evs) a =
     (case actor_step ops ev a of
        None \<Rightarrow> None
      | Some a1 \<Rightarrow>
          (case actor_run ops evs a1 of
             None \<Rightarrow> None
           | Some (told, a2) \<Rightarrow>
               Some ((case ev of ETell handed m \<Rightarrow> if fst (actor_Tell ops handed m a) = None then [m] else [] | _ \<Rightarrow> []) @ told, a2)))"

definition actor_inv :: "int \<Rightarrow> 's base_actor \<Rightarrow> bool" where
  "actor_inv n a \<longleftrightarrow> ba_capacity a = n \<and> GetMailboxSize a \<le> n \<and> ba_loops a \<le> 1 \<and>
     (\<not> ba_running a \<longrightarrow> ba_loops a = 0)"

definition sent :: "'s base_actor \<Rightarrow> actor_message list" where
  "sent a = ba_handled a @ ba_mailbox a"

lemma run_round_frame:
  assumes "run_round ops c a = Some a'"
  shows "ba_capacity a' = ba_capacity a \<and> ba_running a' = ba_running a \<and> ba_cancelled a' = ba_cancelled a \<and>
    ba_loops a' \<le> ba_loops a \<and> length (ba_mailbox a') \<le> length (ba_mailbox a) \<and> sent a' = sent a"
  using assms by (cases c) (auto simp: sent_def split: list.splits if_splits)

lemma run_rounds_frame:
  assumes "run_rounds ops cs a = Some a'"
  shows "ba_capacity a' = ba_capacity a \<and> ba_running a' = ba_running a \<and> ba_cancelled a' = ba_cancelled a \<and>
    ba_loops a' \<le> ba_loops a \<and> length (ba_mailbox a') \<le> length (ba_mailbox a) \<and> sent a' = sent a"
  using assms
proof (induction cs arbitrary: a)
  case (Cons c cs)
  then obtain a1 where a1: "run_round ops c a = Some a1" "run_rounds ops cs a1 = Some a'"
    by (auto split: option.splits)
  from run_round_frame [OF a1(1)] Cons.IH [OF a1(2)] show ?case by simp
qed simp

lemma actor_Stop_frame:
  assumes "actor_Stop ops cs a = Ret (e, a')"
  shows "ba_capacity a' = ba_capacity a \<and> length (ba_mailbox a') \<le> length (ba_mailbox a) \<and> sent a' = sent a \<and>
    \<not> ba_running a' \<and> (ba_running a \<longrightarrow> ba_cancelled a' \<and> ba_loops a' = 0) \<and> (\<not> ba_running a \<longrightarrow> a' = a)"
proof (cases "ba_running a")
  case True
  then obtain a1 where a1: "run_rounds ops cs (stop_begin a) = Some a1" "ba_loops a1 = 0"
    and a': "a' = a1\<lparr>ba_state := snd (op_OnStop ops (ba_state a1))\<rparr>"
    using assms by (auto simp: actor_Stop_def split: option.splits if_splits prod.splits)
  from run_rounds_frame [OF a1(1)] show ?thesis using True a1(2)
    by (simp add: a' stop_begin_def sent_def)
qed (use assms in \<open>simp add: actor_Stop_def\<close>)

lemma actor_step_inv:
  assumes "actor_step ops ev a = Some a'" and "actor_inv n a"
  shows "actor_inv n a' \<and> sent a' = sent a @ (case ev of ETell handed m \<Rightarrow> if fst (actor_Tell ops handed m a) = None then [m] else [] | _ \<Rightarrow> [])"
proof (cases ev)
  case EStart
  then show ?thesis using assms
    by (cases "ba_running a"; cases "op_OnStart ops (ba_state a)")
      (auto simp: actor_Start_def actor_inv_def sent_def GetMailboxSize_def)
next
  case (ETell handed m)
  then show ?thesis using assms by (auto simp: actor_Tell_def actor_inv_def sent_def GetMailboxSize_def)
next
  case (ERound c)
  then show ?thesis using assms run_round_frame [of ops c a a'] by (auto simp: actor_inv_def GetMailboxSize_def)
next
  case (EStop cs)
  then obtain e where "actor_Stop ops cs a = Ret (e, a')" using assms(1) by (auto split: outcome.splits)
  from actor_Stop_frame [OF this] show ?thesis using assms(2) EStop
    by (cases "ba_running a") (auto simp: actor_inv_def GetMailboxSize_def)
qed

lemma actor_run_inv:
  assumes "actor_run ops evs a = Some (told, a')" and "actor_inv n a"
  shows "actor_inv n a' \<and> sent a' = sent a @ told"
  using assms
proof (induction evs arbitrary: a told)
  case (Cons ev evs)
  then obtain a1 told1 where a1: "actor_step ops ev a = Some a1" "actor_run ops evs a1 = Some (told1, a')"
    and told: "told = (case ev of ETell handed m \<Rightarrow> if fst (actor_Tell ops handed m a) = None then [m] else [] | _ \<Rightarrow> []) @ told1"
    by (auto split: option.splits)
  from actor_step_inv [OF a1(1) Cons.prems(2)] Cons.IH [OF a1(2)] show ?case by (simp add: told)
qed simp

section \<open>Properties\<close>

text \<open>
  C11. Over any run of a new actor (Start, Tell, also straight into a waiting receive, rounds
  of its goroutine with either choice of its select, Stop), the handled messages followed by
  those in the mailbox are exactly the messages whose Tell returned nil, in order: none is
  lost, doubled or reordered. The mailbox never holds more than its capacity, there is at most
  one goroutine, and none when the actor is not running.
\<close>

theorem actor_mailbox_fifo:
  assumes "NewBaseActor i t n s = Ret a0" and "actor_run ops evs a0 = Some (told, a)"
  shows "ba_handled a @ ba_mailbox a = told \<and> 0 \<le> GetMailboxSize a \<and> GetMailboxSize a \<le> n \<and>
    ba_loops a \<le> 1 \<and> (\<not> ba_running a \<longrightarrow> ba_loops a = 0)"
proof -
  have "actor_inv n a0" "sent a0 = []"
    using assms(1) by (auto simp: NewBaseActor_def actor_inv_def GetMailboxSize_def sent_def split: if_splits)
  from actor_run_inv [OF assms(2) this(1)] this(2) show ?thesis
    by (simp add: actor_inv_def sent_def GetMailboxSize_def)
qed

definition demo_msg :: "nat \<Rightarrow> actor_message" where
  "demo_msg k = \<lparr>am_type = ''chat_msg'', am_data = [of_nat k]\<rparr>"

definition demo_events :: "actor_event list" where
  "demo_events = [ETell False (demo_msg 0), EStart, ETell True (demo_msg 1), ETell False (demo_msg 2), ETell True (demo_msg 3),
     ETell False (demo_msg 4), ERound TakeMessage, ETell True (demo_msg 5), EStop [TakeMessage, TakeDone],
     ETell False (demo_msg 6)]"

definition demo_actor :: "unit base_actor" where
  "demo_actor = \<lparr>ba_id = ''a'', ba_actorType = ''t'', ba_mailbox = [], ba_capacity = 2, ba_cancelled = False,
     ba_running = False, ba_loops = 0, ba_state = (), ba_handled = []\<rparr>"

text \<open>With room for two: 0 and 6 find it not running, 1 is handed over, 4 finds the mailbox full, 5 is never handled.\<close>

theorem actor_mailbox_fifo_witness:
  "\<exists>a'. actor_run service_ops demo_events demo_actor = Some (map demo_msg [1, 2, 3, 5], a') \<and>
     ba_handled a' = map demo_msg [1, 2, 3] \<and> ba_handled a' @ ba_mailbox a' = map demo_msg [1, 2, 3, 5]"
proof -
  have "NewBaseActor ''a'' ''t'' 2 () = Ret demo_actor" by (simp add: NewBaseActor_def demo_actor_def)
  moreover have "map_option fst (actor_run service_ops demo_events demo_actor) = Some (map demo_msg [1, 2, 3, 5])"
    and "map_option (ba_handled \<circ> snd) (actor_run service_ops demo_events demo_actor) = Some (map demo_msg [1, 2, 3])"
    by code_simp+
  ultimately show ?thesis using actor_mailbox_fifo by fastforce
qed

lemma rounds_bound:
  assumes "run_rounds ops cs a = Some a'"
  shows "length cs + length (ba_mailbox a') + ba_loops a' = length (ba_mailbox a) + ba_loops a"
  using assms
proof (induction cs arbitrary: a)
  case (Cons c cs)
  then obtain a1 where a1: "run_round ops c a = Some a1" "run_rounds ops cs a1 = Some a'"
    by (auto split: option.splits)
  have "length (ba_mailbox a1) + ba_loops a1 + 1 = length (ba_mailbox a) + ba_loops a"
    using a1(1) by (cases c) (auto split: list.splits if_splits)
  then show ?case using Cons.IH [OF a1(2)] by simp
qed simp

text \<open>
  C27. Stop of a running actor returns: while it waits, the goroutine does at most one round
  per message in the mailbox and one more, whichever case its select takes, and when no round
  is left Stop has returned; the messages it did not handle stay in the mailbox. Handlers
  return.
\<close>

theorem actor_Stop_terminates:
  assumes "NewBaseActor i t n s = Ret a0" and "actor_run ops evs a0 = Some (told, a)" and "ba_running a"
    and "run_rounds ops cs (stop_begin a) = Some a1"
  shows "int (length cs) \<le> GetMailboxSize a + 1 \<and>
    ((\<forall>c. run_round ops c a1 = None) \<longrightarrow>
       (\<exists>e a'. actor_Stop ops cs a = Ret (e, a') \<and> \<not> ba_running a' \<and> ba_loops a' = 0 \<and>
          ba_handled a' @ ba_mailbox a' = told))"
proof -
  have "actor_inv n a0" "sent a0 = []"
    using assms(1) by (auto simp: NewBaseActor_def actor_inv_def GetMailboxSize_def sent_def split: if_splits)
  from actor_run_inv [OF assms(2) this(1)] this(2) have inv: "actor_inv n a" "sent a = told" by simp_all
  have "length cs \<le> length (ba_mailbox a) + 1"
    using rounds_bound [OF assms(4)] inv(1) by (simp add: stop_begin_def actor_inv_def)
  then have "int (length cs) \<le> GetMailboxSize a + 1" by (simp add: GetMailboxSize_def)
  moreover have stops: "\<exists>e a'. actor_Stop ops cs a = Ret (e, a') \<and> \<not> ba_running a' \<and> ba_loops a' = 0 \<and>
      ba_handled a' @ ba_mailbox a' = told" if "run_round ops TakeDone a1 = None"
  proof -
    have "ba_cancelled a1" using run_rounds_frame [OF assms(4)] by (simp add: stop_begin_def)
    then have "ba_loops a1 = 0" using that by (auto split: if_splits)
    then obtain e a' where stopped: "actor_Stop ops cs a = Ret (e, a')"
      using assms(3,4) by (cases "op_OnStop ops (ba_state a1)") (simp add: actor_Stop_def)
    then show ?thesis using actor_Stop_frame [OF stopped] assms(3) inv(2) by (simp add: sent_def)
  qed
  ultimately show ?thesis by (intro conjI impI) (assumption, rule stops, erule spec)
qed

text \<open>With two messages waiting, \<open>Stop\<close> may see one of them handled and the other one left.\<close>

theorem actor_Stop_terminates_witness:
  "\<exists>a e a'. actor_run service_ops [EStart, ETell False (demo_msg 1), ETell False (demo_msg 2)] demo_actor = Some (map demo_msg [1, 2], a) \<and>
     actor_Stop service_ops [TakeMessage, TakeDone] a = Ret (e, a') \<and> ba_handled a' @ ba_mailbox a' = map demo_msg [1, 2]"
proof -
  have new: "NewBaseActor ''a'' ''t'' 2 () = Ret demo_actor" by (simp add: NewBaseActor_def demo_actor_def)
  obtain a where r: "actor_run service_ops [EStart, ETell False (demo_msg 1), ETell False (demo_msg 2)] demo_actor = Some (map demo_msg [1, 2], a)"
    and a: "a = demo_actor\<lparr>ba_running := True, ba_loops := 1, ba_mailbox := map demo_msg [1, 2]\<rparr>"
    by (simp add: demo_actor_def actor_Start_def actor_Tell_def service_ops_def)
  obtain a1 where c: "run_rounds service_ops [TakeMessage, TakeDone] (stop_begin a) = Some a1" and l: "ba_loops a1 = 0"
    by (simp add: a stop_begin_def demo_actor_def)
  have "run_round service_ops d a1 = None" for d using l by (cases d) (auto split: list.split)
  moreover have "ba_running a" by (simp add: a)
  ultimately show ?thesis using actor_Stop_terminates [OF new r _ c] r by blast
qed

text \<open>
  Stop cancels the context for good: an actor started again reports running and takes messages, but
  its goroutine may end at its first select, and then nothing handles what Tell accepts.
\<close>

theorem restarted_actor_dead:
  assumes "actor_inv n a" and "ba_running a" and "actor_Stop ops cs a = Ret (e, a1)"
    and "actor_Start ops a1 = (None, a2)"
  shows "ba_running a2 \<and> (\<exists>a3. run_round ops TakeDone a2 = Some a3 \<and> (\<forall>c. run_round ops c a3 = None) \<and>
    (\<forall>handed m. GetMailboxSize a3 < n \<longrightarrow> (\<exists>a4. actor_Tell ops handed m a3 = (None, a4) \<and> m \<in> set (ba_mailbox a4) \<and>
       (\<forall>c. run_round ops c a4 = None))))"
proof -
  note st = actor_Stop_frame [OF assms(3)]
  have a2: "ba_running a2" "ba_loops a2 = 1" "ba_cancelled a2" "ba_capacity a2 = n"
    using assms(1,2,4) st by (auto simp: actor_Start_def actor_inv_def split: prod.splits)
  let ?a3 = "a2\<lparr>ba_loops := 0\<rparr>"
  have dead: "run_round ops c b = None" if "ba_loops b = 0" for c b
    using that by (cases c) (auto split: list.split)
  have "run_round ops TakeDone a2 = Some ?a3" using a2 by simp
  moreover have "\<exists>a4. actor_Tell ops handed m ?a3 = (None, a4) \<and> m \<in> set (ba_mailbox a4) \<and> (\<forall>c. run_round ops c a4 = None)"
    if "GetMailboxSize ?a3 < n" for handed m
    using that a2 dead by (simp add: actor_Tell_def GetMailboxSize_def)
  ultimately show ?thesis using a2(1) dead [of ?a3] by auto
qed

theorem restarted_actor_dead_witness:
  "\<exists>a a1 a2 a3 a4. NewGatewayActor () = Ret a \<and>
    actor_Stop service_ops [TakeDone] (snd (actor_Start service_ops a)) = Ret (None, a1) \<and>
    actor_Start service_ops a1 = (None, a2) \<and> run_round service_ops TakeDone a2 = Some a3 \<and>
    actor_Tell service_ops False (demo_msg 1) a3 = (None, a4) \<and> (\<forall>c. run_round service_ops c a4 = None)"
proof -
  obtain a where a: "NewGatewayActor () = Ret a" by (simp add: NewGatewayActor_def NewBaseActor_def)
  let ?a = "snd (actor_Start service_ops a)"
  have b: "actor_inv 1000 ?a" "ba_running ?a" using a
    by (auto simp: NewGatewayActor_def NewBaseActor_def actor_Start_def service_ops_def actor_inv_def GetMailboxSize_def)
  obtain a1 where a1: "actor_Stop service_ops [TakeDone] ?a = Ret (None, a1)" using a
    by (auto simp: NewGatewayActor_def NewBaseActor_def actor_Start_def service_ops_def actor_Stop_def stop_begin_def)
  obtain a2 where a2: "actor_Start service_ops a1 = (None, a2)" using actor_Stop_frame [OF a1] b
    by (auto simp: actor_Start_def service_ops_def)
  obtain a3 where a3: "run_round service_ops TakeDone a2 = Some a3"
    and t: "\<forall>handed m. GetMailboxSize a3 < 1000 \<longrightarrow> (\<exists>a4. actor_Tell service_ops handed m a3 = (None, a4) \<and> m \<in> set (ba_mailbox a4) \<and>
       (\<forall>c. run_round service_ops c a4 = None))"
    using restarted_actor_dead [OF b a1 a2] by blast
  have "ba_mailbox a3 = []" using a a1 a2 a3
    by (auto simp: NewGatewayActor_def NewBaseActor_def actor_Start_def service_ops_def actor_Stop_def stop_begin_def)
  then show ?thesis using a a1 a2 a3 t by (simp add: GetMailboxSize_def) blast
qed

text \<open>Spawns, messages and shutdowns of an actor system.\<close>

datatype 's sys_event = Spawn "'s actor_ops" "'s base_actor" | SysTell string actor_message | SysShutdown

fun sys_step :: "(string \<Rightarrow> 's actor_ops) \<Rightarrow> 's sys_event \<Rightarrow> ('s base_actor) actor_system \<Rightarrow> ('s base_actor) actor_system" where
  "sys_step ops (Spawn o1 a) sys = snd (SpawnActor o1 a sys)"
| "sys_step ops (SysTell i m) sys = snd (sys_Tell ops i m sys)"
| "sys_step ops SysShutdown sys = snd (Shutdown ops sys)"

definition new_actor :: "'s base_actor \<Rightarrow> bool" where
  "new_actor a \<longleftrightarrow> \<not> ba_running a \<and> ba_mailbox a = [] \<and> ba_loops a = 0"

definition sys_inv :: "('s base_actor) actor_system \<Rightarrow> bool" where
  "sys_inv sys \<longleftrightarrow> distinct (map fst (as_actors sys)) \<and> (\<forall>(i, a) \<in> set (as_actors sys). ba_id a = i \<and> new_actor a)"

lemma sys_step_inv:
  assumes "sys_inv sys" and "\<forall>o1 a. ev = Spawn o1 a \<longrightarrow> new_actor a"
  shows "sys_inv (sys_step ops ev sys)"
proof (cases ev)
  case (Spawn o1 a)
  then show ?thesis using assms
    by (auto simp: SpawnActor_def sys_inv_def GetActor_def new_actor_def map_of_eq_None_iff split: option.splits prod.splits)
next
  case (SysTell i m)
  show ?thesis
  proof (cases "GetActor i sys")
    case (Some a)
    have "(i, a) \<in> set (as_actors sys)" using Some by (simp add: GetActor_def map_of_SomeD)
    then have ia: "ba_id a = i" "new_actor a" using assms(1) by (auto simp: sys_inv_def)
    obtain e s where "op_OnReceive (ops i) m (ba_state a) = (e, s)" by fastforce
    then have sys': "sys_step ops ev sys = put_actor i (a\<lparr>ba_state := s, ba_handled := ba_handled a @ [m]\<rparr>) sys"
      using Some SysTell by (simp add: sys_Tell_def)
    have "fst \<circ> (\<lambda>e. if fst e = i then (i, x) else e) = fst" for x :: "'a base_actor" by auto
    then have "map fst (as_actors (sys_step ops ev sys)) = map fst (as_actors sys)" by (simp add: sys' put_actor_def)
    then have "distinct (map fst (as_actors (sys_step ops ev sys)))" using assms(1) unfolding sys_inv_def by metis
    moreover have "\<forall>(j, b) \<in> set (as_actors (sys_step ops ev sys)). ba_id b = j \<and> new_actor b"
      using assms(1) ia by (auto simp: sys' put_actor_def new_actor_def sys_inv_def)
    ultimately show ?thesis by (simp only: sys_inv_def)
  qed (use assms SysTell in \<open>simp add: sys_Tell_def\<close>)
next
  case SysShutdown
  then show ?thesis by (simp add: Shutdown_def sys_inv_def)
qed

lemma sys_run_inv:
  assumes "sys_inv sys" and "\<forall>o1 a. Spawn o1 a \<in> set evs \<longrightarrow> new_actor a"
  shows "sys_inv (fold (sys_step ops) evs sys)"
  using assms by (induction evs arbitrary: sys) (auto simp: sys_step_inv)

text \<open>
  Whatever is spawned, told and shut down in an actor system, no actor in it was ever started
  as a BaseActor: its mailbox is empty and a Tell to it directly fails with "not running",
  because the system calls OnStart and OnReceive itself. Ids in the system are distinct.
\<close>

theorem spawned_actor_not_running:
  assumes "\<forall>o1 a. Spawn o1 a \<in> set evs \<longrightarrow> (\<exists>t n s. NewBaseActor (ba_id a) t n s = Ret a)"
    and "GetActor i (fold (sys_step ops) evs (NewActorSystem name)) = Some a"
  shows "ba_id a = i \<and> actor_Tell o2 handed m a = (Some (NotRunning i), a) \<and> GetMailboxSize a = 0 \<and>
    distinct (ListActors (fold (sys_step ops) evs (NewActorSystem name)))"
proof -
  have "new_actor a" if "NewBaseActor (ba_id a) t n s = Ret a" for a :: "'a base_actor" and t n s
    using that by (cases a) (auto simp: NewBaseActor_def new_actor_def split: if_splits)
  then have "sys_inv (fold (sys_step ops) evs (NewActorSystem name))"
    using assms(1) by (intro sys_run_inv) (simp add: sys_inv_def NewActorSystem_def, metis)
  moreover have "(i, a) \<in> set (as_actors (fold (sys_step ops) evs (NewActorSystem name)))"
    using assms(2) by (simp add: GetActor_def map_of_SomeD)
  ultimately show ?thesis
    by (auto simp: sys_inv_def new_actor_def actor_Tell_def GetMailboxSize_def ListActors_def)
qed

theorem spawned_actor_not_running_witness:
  "\<exists>a. NewGatewayActor () = Ret a \<and>
    (let sys = fold (sys_step (\<lambda>_. service_ops)) [Spawn service_ops a, SysTell ''gateway_actor'' (demo_msg 1)] (NewActorSystem ''gw'')
     in \<exists>b. GetActor ''gateway_actor'' sys = Some b \<and> ba_handled b = [demo_msg 1] \<and>
       actor_Tell service_ops False (demo_msg 2) b = (Some (NotRunning ''gateway_actor''), b))"
proof -
  obtain a where a: "NewGatewayActor () = Ret a" "ba_id a = ''gateway_actor''"
    by (simp add: NewGatewayActor_def NewBaseActor_def)
  let ?evs = "[Spawn service_ops a, SysTell ''gateway_actor'' (demo_msg 1)]"
  have n: "\<forall>o1 b. Spawn o1 b \<in> set ?evs \<longrightarrow> (\<exists>t n s. NewBaseActor (ba_id b) t n s = Ret b)"
    using a by (auto simp: NewGatewayActor_def)
  obtain b where b: "GetActor ''gateway_actor'' (fold (sys_step (\<lambda>_. service_ops)) ?evs (NewActorSystem ''gw'')) = Some b"
    and h: "ba_handled b = [demo_msg 1]" using a
    by (auto simp: NewGatewayActor_def NewBaseActor_def SpawnActor_def sys_Tell_def GetActor_def put_actor_def
        NewActorSystem_def service_ops_def service_OnReceive_def)
  from spawned_actor_not_running [OF n b] a b h show ?thesis by (auto simp: Let_def)
qed

end
