(* ===== verification/Queue.thy ===== *)
theory Queue
  imports Prelude
begin

text \<open>
  The message queue of \<open>internal/mq\<close>: the manager of NSQ producers and consumers
  (\<open>nsq_core.go\<close>), the broker and the message handlers (\<open>nsq_msg.go\<close>). The client library
  is the record \<open>nsq\<close> of functions on its own state; producers and consumers are handles.
\<close>

section \<open>The client library and the manager\<close>

record 'n nsq =
  nl_NewProducer :: "string \<Rightarrow> 'n \<Rightarrow> nat option \<times> 'n"
  nl_Ping :: "nat \<Rightarrow> 'n \<Rightarrow> bool \<times> 'n"
  nl_StopProducer :: "nat \<Rightarrow> 'n \<Rightarrow> 'n"
  nl_Publish :: "nat \<Rightarrow> string \<Rightarrow> bytes \<Rightarrow> 'n \<Rightarrow> bool \<times> 'n"
  nl_DeferredPublish :: "nat \<Rightarrow> string \<Rightarrow> duration \<Rightarrow> bytes \<Rightarrow> 'n \<Rightarrow> bool \<times> 'n"
  nl_NewConsumer :: "string \<Rightarrow> string \<Rightarrow> 'n \<Rightarrow> nat option \<times> 'n"
  nl_ConnectToNSQLookupd :: "nat \<Rightarrow> string \<Rightarrow> 'n \<Rightarrow> bool \<times> 'n"
  nl_StopConsumer :: "nat \<Rightarrow> 'n \<Rightarrow> 'n"

text \<open>\<open>NSQConfig\<close> without the timeouts it hands to the library.\<close>

record nsq_config =
  nc_NSQDAddress :: string
  nc_NSQLookupDAddress :: string
  nc_ClusterMode :: bool
  nc_NSQDAddresses :: "string list"
  nc_NSQLookupDAddresses :: "string list"
  nc_LoadBalancing :: bool
  nc_FailoverEnabled :: bool

datatype mq_error = CreateProducerFailed string | PingFailed string | NoAddresses | NoNodes | PublishFailed
  | AllProducersFailed | AlreadySubscribed string string | CreateConsumerFailed | LookupdFailed string
  | NotSubscribed string string | MarshalFailed | UnmarshalFailed | HandlerFailed string

record 'h nsq_manager =
  nm_config :: nsq_config
  nm_mode :: string
  nm_producers :: "nat list"
  nm_producer :: "nat option"
  nm_consumers :: "string \<rightharpoonup> nat"
  nm_handlers :: "string \<rightharpoonup> 'h"
  nm_currentProducer :: int
  nm_cancelled :: bool

definition nsq_initSingleMode :: "'n nsq \<Rightarrow> 'h nsq_manager \<Rightarrow> 'n \<Rightarrow> (mq_error + 'h nsq_manager) \<times> 'n" where
  "nsq_initSingleMode nl nm n =
     (let addr = nc_NSQDAddress (nm_config nm) in
      case nl_NewProducer nl addr n of
        (None, n1) \<Rightarrow> (Inl (CreateProducerFailed addr), n1)
      | (Some p, n1) \<Rightarrow>
          (case nl_Ping nl p n1 of
             (False, n2) \<Rightarrow> (Inl (PingFailed addr), nl_StopProducer nl p n2)
           | (True, n2) \<Rightarrow> (Inr (nm\<lparr>nm_producer := Some p, nm_producers := nm_producers nm @ [p]\<rparr>), n2)))"

definition closeProducers :: "'n nsq \<Rightarrow> nat list \<Rightarrow> 'n \<Rightarrow> 'n" where
  "closeProducers nl ps n = fold (nl_StopProducer nl) ps n"

text \<open>The loop over the addresses, with the producers connected so far.\<close>

fun connect_producers ::
  "'n nsq \<Rightarrow> bool \<Rightarrow> string list \<Rightarrow> nat list \<Rightarrow> 'n \<Rightarrow> (mq_error + nat list) \<times> 'n" where
  "connect_producers nl failover [] ps n = (Inr ps, n)"
| "connect_producers nl failover (addr # addrs) ps n =
     (case nl_NewProducer nl addr n of
        (None, n1) \<Rightarrow> (Inl (CreateProducerFailed addr), closeProducers nl ps n1)
      | (Some p, n1) \<Rightarrow>
          (case nl_Ping nl p n1 of
             (False, n2) \<Rightarrow>
               (let n3 = nl_StopProducer nl p n2 in
                if \<not> failover then (Inl (PingFailed addr), closeProducers nl ps n3)
                else connect_producers nl failover addrs ps n3)
           | (True, n2) \<Rightarrow> connect_producers nl failover addrs (ps @ [p]) n2))"

definition nsq_initClusterMode :: "'n nsq \<Rightarrow> 'h nsq_manager \<Rightarrow> 'n \<Rightarrow> (mq_error + 'h nsq_manager) \<times> 'n" where
  "nsq_initClusterMode nl nm n =
     (let cfg = nm_config nm in
      if nc_NSQDAddresses cfg = [] then (Inl NoAddresses, n)
      else (case connect_producers nl (nc_FailoverEnabled cfg) (nc_NSQDAddresses cfg) (nm_producers nm) n of
              (Inl e, n1) \<Rightarrow> (Inl e, n1)
            | (Inr [], n1) \<Rightarrow> (Inl NoNodes, n1)
            | (Inr (p # ps), n1) \<Rightarrow> (Inr (nm\<lparr>nm_producers := p # ps, nm_producer := Some p\<rparr>), n1)))"

definition NewNSQManager :: "'n nsq \<Rightarrow> nsq_config \<Rightarrow> 'n \<Rightarrow> (mq_error + 'h nsq_manager) \<times> 'n" where
  "NewNSQManager nl config n =
     (let manager = \<lparr>nm_config = config, nm_mode = '''', nm_producers = [], nm_producer = None,
            nm_consumers = Map.empty, nm_handlers = Map.empty, nm_currentProducer = 0, nm_cancelled = False\<rparr>
      in if nc_ClusterMode config then nsq_initClusterMode nl (manager\<lparr>nm_mode := ''cluster''\<rparr>) n
         else nsq_initSingleMode nl (manager\<lparr>nm_mode := ''single''\<rparr>) n)"

section \<open>Publishing\<close>

text \<open>The other producers, in order, until one accepts.\<close>

fun try_fallbacks :: "'n nsq \<Rightarrow> nat \<Rightarrow> nat list \<Rightarrow> string \<Rightarrow> bytes \<Rightarrow> 'n \<Rightarrow> bool \<times> 'n" where
  "try_fallbacks nl p [] topic data n = (False, n)"
| "try_fallbacks nl p (q # qs) topic data n =
     (if q = p then try_fallbacks nl p qs topic data n
      else (case nl_Publish nl q topic data n of
              (True, n1) \<Rightarrow> (True, n1)
            | (False, n1) \<Rightarrow> try_fallbacks nl p qs topic data n1))"

text \<open>
  Go's \<open>%\<close> keeps the sign of the counter, which wraps around: a negative index panics.
\<close>

definition publishWithLoadBalancing ::
  "'n nsq \<Rightarrow> string \<Rightarrow> bytes \<Rightarrow> 'h nsq_manager \<Rightarrow> 'n \<Rightarrow> (mq_error option \<times> 'h nsq_manager \<times> 'n) outcome" where
  "publishWithLoadBalancing nl topic data nm n =
     (let len = int (length (nm_producers nm)); c = nm_currentProducer nm in
      if c < 0 \<and> c mod len \<noteq> 0 then Panic IndexOutOfRange
      else (let producer = nm_producers nm ! nat (c mod len);
                nm1 = nm\<lparr>nm_currentProducer := i64 (c + 1)\<rparr>;
                (ok, n1) = nl_Publish nl producer topic data n
            in if ok then Ret (None, nm1, n1)
               else if nc_FailoverEnabled (nm_config nm) \<and> length (nm_producers nm) > 1
               then (case try_fallbacks nl producer (nm_producers nm) topic data n1 of
                       (True, n2) \<Rightarrow> Ret (None, nm1, n2)
                     | (False, n2) \<Rightarrow> Ret (Some AllProducersFailed, nm1, n2))
               else Ret (Some PublishFailed, nm1, n1)))"

definition Publish ::
  "'n nsq \<Rightarrow> string \<Rightarrow> bytes \<Rightarrow> 'h nsq_manager \<Rightarrow> 'n \<Rightarrow> (mq_error option \<times> 'h nsq_manager \<times> 'n) outcome" where
  "Publish nl topic data nm n =
     (if nm_mode nm = ''cluster'' \<and> nc_LoadBalancing (nm_config nm) \<and> length (nm_producers nm) > 1
      then publishWithLoadBalancing nl topic data nm n
      else (case nm_producer nm of
              None \<Rightarrow> Panic NilDereference
            | Some p \<Rightarrow> (let (ok, n1) = nl_Publish nl p topic data n
                         in Ret (if ok then None else Some PublishFailed, nm, n1))))"

definition PublishJSON ::
  "'n nsq \<Rightarrow> ('j \<Rightarrow> bytes option) \<Rightarrow> string \<Rightarrow> 'j \<Rightarrow> 'h nsq_manager \<Rightarrow> 'n \<Rightarrow>
   (mq_error option \<times> 'h nsq_manager \<times> 'n) outcome" where
  "PublishJSON nl marshal topic v nm n =
     (case marshal v of None \<Rightarrow> Ret (Some MarshalFailed, nm, n) | Some bs \<Rightarrow> Publish nl topic bs nm n)"

definition DeferredPublish ::
  "'n nsq \<Rightarrow> string \<Rightarrow> duration \<Rightarrow> bytes \<Rightarrow> 'h nsq_manager \<Rightarrow> 'n \<Rightarrow> (mq_error option \<times> 'n) outcome" where
  "DeferredPublish nl topic delay data nm n =
     (case nm_producer nm of
        None \<Rightarrow> Panic NilDereference
      | Some p \<Rightarrow> (let (ok, n1) = nl_DeferredPublish nl p topic delay data n
                   in Ret (if ok then None else Some PublishFailed, n1)))"

text \<open>\<open>GetClusterStats\<close>: mode, counts and, for a cluster, the health of each producer.\<close>

fun ping_all :: "'n nsq \<Rightarrow> nat list \<Rightarrow> 'n \<Rightarrow> bool list \<times> 'n" where
  "ping_all nl [] n = ([], n)"
| "ping_all nl (p # ps) n =
     (let (ok, n1) = nl_Ping nl p n; (oks, n2) = ping_all nl ps n1 in (ok # oks, n2))"

definition GetClusterStats :: "'n nsq \<Rightarrow> 'h nsq_manager \<Rightarrow> 'n \<Rightarrow> (string \<times> int \<times> int \<times> bool list option) \<times> 'n" where
  "GetClusterStats nl nm n =
     (let (status, n1) = (if nm_mode nm = ''cluster''
                          then (let (oks, n1) = ping_all nl (nm_producers nm) n in (Some oks, n1)) else (None, n))
      in ((nm_mode nm, int (length (nm_producers nm)), int (card (dom (nm_consumers nm))), status), n1))"

section \<open>Subscriptions\<close>

definition sub_key :: "string \<Rightarrow> string \<Rightarrow> string" where
  "sub_key topic channel = topic @ ''_'' @ channel"

fun connect_lookupds :: "'n nsq \<Rightarrow> bool \<Rightarrow> nat \<Rightarrow> string list \<Rightarrow> 'n \<Rightarrow> mq_error option \<times> 'n" where
  "connect_lookupds nl failover c [] n = (None, n)"
| "connect_lookupds nl failover c (addr # addrs) n =
     (case nl_ConnectToNSQLookupd nl c addr n of
        (True, n1) \<Rightarrow> connect_lookupds nl failover c addrs n1
      | (False, n1) \<Rightarrow>
          if \<not> failover then (Some (LookupdFailed addr), n1) else connect_lookupds nl failover c addrs n1)"

definition Subscribe ::
  "'n nsq \<Rightarrow> string \<Rightarrow> string \<Rightarrow> 'h \<Rightarrow> 'h nsq_manager \<Rightarrow> 'n \<Rightarrow> mq_error option \<times> 'h nsq_manager \<times> 'n" where
  "Subscribe nl topic channel handler nm n =
     (let key = sub_key topic channel; cfg = nm_config nm in
      if nm_consumers nm key \<noteq> None then (Some (AlreadySubscribed topic channel), nm, n)
      else (case nl_NewConsumer nl topic channel n of
              (None, n1) \<Rightarrow> (Some CreateConsumerFailed, nm, n1)
            | (Some consumer, n1) \<Rightarrow>
                (let (err, n2) =
                       (if nm_mode nm = ''cluster'' \<and> length (nc_NSQLookupDAddresses cfg) > 0
                        then connect_lookupds nl (nc_FailoverEnabled cfg) consumer (nc_NSQLookupDAddresses cfg) n1
                        else connect_lookupds nl False consumer [nc_NSQLookupDAddress cfg] n1)
                 in (case err of
                       Some e \<Rightarrow> (Some e, nm, n2)
                     | None \<Rightarrow> (None, nm\<lparr>nm_consumers := (nm_consumers nm)(key \<mapsto> consumer),
                                        nm_handlers := (nm_handlers nm)(key \<mapsto> handler)\<rparr>, n2)))))"

definition Unsubscribe ::
  "'n nsq \<Rightarrow> string \<Rightarrow> string \<Rightarrow> 'h nsq_manager \<Rightarrow> 'n \<Rightarrow> mq_error option \<times> 'h nsq_manager \<times> 'n" where
  "Unsubscribe nl topic channel nm n =
     (let key = sub_key topic channel in
      case nm_consumers nm key of
        None \<Rightarrow> (Some (NotSubscribed topic channel), nm, n)
      | Some consumer \<Rightarrow>
          (None, nm\<lparr>nm_consumers := (nm_consumers nm)(key := None), nm_handlers := (nm_handlers nm)(key := None)\<rparr>,
           nl_StopConsumer nl consumer n))"

text \<open>\<open>keys\<close>: the keys of the consumer map in the order the range visits them.\<close>

definition nsq_Close :: "'n nsq \<Rightarrow> string list \<Rightarrow> 'h nsq_manager \<Rightarrow> 'n \<Rightarrow> ('h nsq_manager \<times> 'n) outcome" where
  "nsq_Close nl keys nm n =
     (let n1 = fold (nl_StopConsumer nl) (List.map_filter (nm_consumers nm) keys) n in
      case nm_producer nm of
        None \<Rightarrow> Panic NilDereference
      | Some p \<Rightarrow> Ret (nm\<lparr>nm_cancelled := True\<rparr>, nl_StopProducer nl p n1))"

section \<open>Messages and their handlers\<close>

text \<open>\<open>'v\<close> is the type of JSON values, \<open>'w\<close> what the handlers act on.\<close>

record 'v system_message =
  sm_Type :: string
  sm_Target :: string
  sm_Command :: string
  sm_Args :: "string \<rightharpoonup> 'v"
  sm_Timestamp :: int

record 'v game_message =
  gm_Type :: string
  gm_RoomID :: u64
  gm_UserID :: u64
  gm_Data :: "string \<rightharpoonup> 'v"
  gm_Timestamp :: int

record chat_message =
  cm_FromUserID :: u64
  cm_ToUserID :: u64
  cm_Channel :: int
  cm_Content :: string
  cm_Timestamp :: int

definition NewSystemMessage :: "time \<Rightarrow> string \<Rightarrow> string \<Rightarrow> string \<Rightarrow> (string \<rightharpoonup> 'v) \<Rightarrow> 'v system_message" where
  "NewSystemMessage now msgType target command args =
     \<lparr>sm_Type = msgType, sm_Target = target, sm_Command = command, sm_Args = args, sm_Timestamp = unix now\<rparr>"

definition NewGameMessage :: "time \<Rightarrow> string \<Rightarrow> u64 \<Rightarrow> u64 \<Rightarrow> (string \<rightharpoonup> 'v) \<Rightarrow> 'v game_message" where
  "NewGameMessage now msgType roomID userID data =
     \<lparr>gm_Type = msgType, gm_RoomID = roomID, gm_UserID = userID, gm_Data = data, gm_Timestamp = unix now\<rparr>"

definition NewChatMessage :: "time \<Rightarrow> u64 \<Rightarrow> u64 \<Rightarrow> int \<Rightarrow> string \<Rightarrow> chat_message" where
  "NewChatMessage now fromUserID toUserID channel content =
     \<lparr>cm_FromUserID = fromUserID, cm_ToUserID = toUserID, cm_Channel = channel, cm_Content = content,
      cm_Timestamp = unix now\<rparr>"

type_synonym ('m, 'w) handler = "'m \<Rightarrow> 'w \<Rightarrow> mq_error option \<times> 'w"

record ('v, 'w) system_handler =
  sh_nodeID :: string
  sh_handlers :: "string \<rightharpoonup> ('v system_message, 'w) handler"

definition NewSystemMessageHandler :: "string \<Rightarrow> ('v, 'w) system_handler" where
  "NewSystemMessageHandler nodeID = \<lparr>sh_nodeID = nodeID, sh_handlers = Map.empty\<rparr>"

definition sys_RegisterHandler ::
  "string \<Rightarrow> ('v system_message, 'w) handler \<Rightarrow> ('v, 'w) system_handler \<Rightarrow> ('v, 'w) system_handler" where
  "sys_RegisterHandler command handler smh = smh\<lparr>sh_handlers := (sh_handlers smh)(command \<mapsto> handler)\<rparr>"

definition sys_HandleMessage ::
  "(bytes \<Rightarrow> 'v system_message option) \<Rightarrow> ('v, 'w) system_handler \<Rightarrow> bytes \<Rightarrow> 'w \<Rightarrow> mq_error option \<times> 'w" where
  "sys_HandleMessage unmarshal smh data w =
     (case unmarshal data of
        None \<Rightarrow> (Some UnmarshalFailed, w)
      | Some sysMsg \<Rightarrow>
          if sm_Target sysMsg \<noteq> '''' \<and> sm_Target sysMsg \<noteq> sh_nodeID smh then (None, w)
          else (case sh_handlers smh (sm_Command sysMsg) of
                  None \<Rightarrow> (None, w)
                | Some handler \<Rightarrow> handler sysMsg w))"

definition game_HandleMessage ::
  "(bytes \<Rightarrow> 'v game_message option) \<Rightarrow> (string \<rightharpoonup> ('v game_message, 'w) handler) \<Rightarrow> bytes \<Rightarrow> 'w \<Rightarrow>
   mq_error option \<times> 'w" where
  "game_HandleMessage unmarshal handlers data w =
     (case unmarshal data of
        None \<Rightarrow> (Some UnmarshalFailed, w)
      | Some gameMsg \<Rightarrow>
          (case handlers (gm_Type gameMsg) of None \<Rightarrow> (None, w) | Some handler \<Rightarrow> handler gameMsg w))"

definition game_RegisterHandler ::
  "string \<Rightarrow> ('v game_message, 'w) handler \<Rightarrow> (string \<rightharpoonup> ('v game_message, 'w) handler) \<Rightarrow>
   (string \<rightharpoonup> ('v game_message, 'w) handler)" where
  "game_RegisterHandler msgType handler handlers = handlers(msgType \<mapsto> handler)"

definition chat_HandleMessage ::
  "(bytes \<Rightarrow> chat_message option) \<Rightarrow> (chat_message, 'w) handler option \<Rightarrow> bytes \<Rightarrow> 'w \<Rightarrow> mq_error option \<times> 'w" where
  "chat_HandleMessage unmarshal onMessage data w =
     (case unmarshal data of
        None \<Rightarrow> (Some UnmarshalFailed, w)
      | Some chatMsg \<Rightarrow> (case onMessage of None \<Rightarrow> (None, w) | Some f \<Rightarrow> f chatMsg w))"

text \<open>
  Where a handler is installed with its topic and channel, NSQ calls the wrapper; an error makes NSQ
  deliver the message again.
\<close>

definition wrapper_HandleMessage ::
  "(string \<Rightarrow> string \<Rightarrow> bytes \<Rightarrow> 'w \<Rightarrow> mq_error option \<times> 'w) \<Rightarrow> string \<Rightarrow> string \<Rightarrow> bytes \<Rightarrow> 'w \<Rightarrow> mq_error option \<times> 'w" where
  "wrapper_HandleMessage handler topic channel body w = handler topic channel body w"

text \<open>A delivery is repeated while the handler fails: the results of the handler, in order.\<close>

fun redelivered :: "(bytes \<Rightarrow> 'w \<Rightarrow> mq_error option \<times> 'w) \<Rightarrow> nat \<Rightarrow> bytes \<Rightarrow> 'w \<Rightarrow> bool \<times> 'w" where
  "redelivered h 0 body w = (False, w)"
| "redelivered h (Suc attempts) body w =
     (case h body w of (None, w1) \<Rightarrow> (True, w1) | (Some e, w1) \<Rightarrow> redelivered h attempts body w1)"

text \<open>A message that cannot be decoded fails on every attempt, without an effect.\<close>

lemma poison_message:
  "unmarshal body = None \<Longrightarrow>
   redelivered (wrapper_HandleMessage (\<lambda>_ _. sys_HandleMessage unmarshal smh) topic channel) n body w = (False, w)"
  by (induction n) (simp_all add: wrapper_HandleMessage_def sys_HandleMessage_def)

text \<open>The broker: three topics, one channel per node.\<close>

definition PublishSystemMessage ::
  "'n nsq \<Rightarrow> ('v system_message \<Rightarrow> bytes option) \<Rightarrow> time \<Rightarrow> string \<Rightarrow> string \<Rightarrow> string \<Rightarrow> (string \<rightharpoonup> 'v) \<Rightarrow>
   'h nsq_manager \<Rightarrow> 'n \<Rightarrow> (mq_error option \<times> 'h nsq_manager \<times> 'n) outcome" where
  "PublishSystemMessage nl marshal now msgType target command args nm n =
     PublishJSON nl marshal ''system_messages'' (NewSystemMessage now msgType target command args) nm n"

definition BroadcastSystemMessage ::
  "'n nsq \<Rightarrow> ('v system_message \<Rightarrow> bytes option) \<Rightarrow> time \<Rightarrow> string \<Rightarrow> (string \<rightharpoonup> 'v) \<Rightarrow>
   'h nsq_manager \<Rightarrow> 'n \<Rightarrow> (mq_error option \<times> 'h nsq_manager \<times> 'n) outcome" where
  "BroadcastSystemMessage nl marshal now command args nm n =
     PublishSystemMessage nl marshal now ''broadcast'' '''' command args nm n"

definition SendToNode ::
  "'n nsq \<Rightarrow> ('v system_message \<Rightarrow> bytes option) \<Rightarrow> time \<Rightarrow> string \<Rightarrow> string \<Rightarrow> (string \<rightharpoonup> 'v) \<Rightarrow>
   'h nsq_manager \<Rightarrow> 'n \<Rightarrow> (mq_error option \<times> 'h nsq_manager \<times> 'n) outcome" where
  "SendToNode nl marshal now target command args nm n =
     PublishSystemMessage nl marshal now ''unicast'' target command args nm n"

definition PublishGameMessage ::
  "'n nsq \<Rightarrow> ('v game_message \<Rightarrow> bytes option) \<Rightarrow> time \<Rightarrow> string \<Rightarrow> u64 \<Rightarrow> u64 \<Rightarrow> (string \<rightharpoonup> 'v) \<Rightarrow>
   'h nsq_manager \<Rightarrow> 'n \<Rightarrow> (mq_error option \<times> 'h nsq_manager \<times> 'n) outcome" where
  "PublishGameMessage nl marshal now msgType roomID userID data nm n =
     PublishJSON nl marshal ''game_events'' (NewGameMessage now msgType roomID userID data) nm n"

definition PublishChatMessage ::
  "'n nsq \<Rightarrow> (chat_message \<Rightarrow> bytes option) \<Rightarrow> time \<Rightarrow> u64 \<Rightarrow> u64 \<Rightarrow> int \<Rightarrow> string \<Rightarrow>
   'h nsq_manager \<Rightarrow> 'n \<Rightarrow> (mq_error option \<times> 'h nsq_manager \<times> 'n) outcome" where
  "PublishChatMessage nl marshal now fromUserID toUserID channel content nm n =
     PublishJSON nl marshal ''chat_messages'' (NewChatMessage now fromUserID toUserID channel content) nm n"

definition SubscribeSystemMessages ::
  "'n nsq \<Rightarrow> string \<Rightarrow> 'h \<Rightarrow> 'h nsq_manager \<Rightarrow> 'n \<Rightarrow> mq_error option \<times> 'h nsq_manager \<times> 'n" where
  "SubscribeSystemMessages nl nodeID handler nm n = Subscribe nl ''system_messages'' nodeID handler nm n"

definition SubscribeGameEvents ::
  "'n nsq \<Rightarrow> string \<Rightarrow> 'h \<Rightarrow> 'h nsq_manager \<Rightarrow> 'n \<Rightarrow> mq_error option \<times> 'h nsq_manager \<times> 'n" where
  "SubscribeGameEvents nl nodeID handler nm n = Subscribe nl ''game_events'' nodeID handler nm n"

definition SubscribeChatMessages ::
  "'n nsq \<Rightarrow> string \<Rightarrow> 'h \<Rightarrow> 'h nsq_manager \<Rightarrow> 'n \<Rightarrow> mq_error option \<times> 'h nsq_manager \<times> 'n" where
  "SubscribeChatMessages nl nodeID handler nm n = Subscribe nl ''chat_messages'' nodeID handler nm n"

section \<open>What NSQ documents\<close>

text \<open>
  A publish that succeeds has stored the message once; one that fails may have stored it all the
  same. Producers are fresh objects. \<open>delivered\<close> lists what the nsqd nodes have stored.
\<close>

locale nsq_client =
  fixes nl :: "'n nsq"
    and delivered :: "'n \<Rightarrow> (string \<times> bytes) list"
    and handles :: "'n \<Rightarrow> nat set"
  assumes publish: "nl_Publish nl p t d n = (ok, n') \<Longrightarrow> delivered n' = delivered n @ [(t, d)] \<or>
      \<not> ok \<and> delivered n' = delivered n"
    and new_producer: "nl_NewProducer nl a n = (Some p, n') \<Longrightarrow> p \<notin> handles n \<and> handles n' = insert p (handles n)"
    and ping: "nl_Ping nl p n = (ok, n') \<Longrightarrow> handles n' = handles n"
    and stop: "handles (nl_StopProducer nl p n) = handles n"
begin

lemma connect_producers_distinct:
  assumes "connect_producers nl failover addrs ps n = (Inr ps', n')" and "distinct ps" and "set ps \<subseteq> handles n"
  shows "distinct ps' \<and> set ps' \<subseteq> handles n'"
  using assms
proof (induction addrs arbitrary: ps n)
  case Nil
  then show ?case by simp
next
  case (Cons addr addrs)
  obtain p n1 where p: "nl_NewProducer nl addr n = (Some p, n1)"
    using Cons.prems(1) by (cases "nl_NewProducer nl addr n"; cases "fst (nl_NewProducer nl addr n)") auto
  obtain ok n2 where pg: "nl_Ping nl p n1 = (ok, n2)" by fastforce
  note h = new_producer [OF p] ping [OF pg]
  show ?case
  proof (cases ok)
    case True
    then have "connect_producers nl failover addrs (ps @ [p]) n2 = (Inr ps', n')" using Cons.prems(1) p pg by simp
    from Cons.IH [OF this] show ?thesis using h Cons.prems(2,3) by auto
  next
    case False
    then have "connect_producers nl failover addrs ps (nl_StopProducer nl p n2) = (Inr ps', n')"
      using Cons.prems(1) p pg by (auto simp: Let_def split: if_splits)
    from Cons.IH [OF this] show ?thesis using h Cons.prems(2,3) stop by auto
  qed
qed

lemma new_manager:
  assumes "NewNSQManager nl cfg n = (Inr nm, n')"
  shows "nm_producers nm \<noteq> [] \<and> nm_producer nm = Some (hd (nm_producers nm)) \<and> distinct (nm_producers nm) \<and>
    nm_config nm = cfg \<and> nm_currentProducer nm = 0 \<and> nm_mode nm = (if nc_ClusterMode cfg then ''cluster'' else ''single'')"
proof (cases "nc_ClusterMode cfg")
  case True
  let ?m = "\<lparr>nm_config = cfg, nm_mode = ''cluster'', nm_producers = [], nm_producer = None,
            nm_consumers = Map.empty, nm_handlers = Map.empty, nm_currentProducer = 0, nm_cancelled = False\<rparr>"
  obtain p ps where c: "connect_producers nl (nc_FailoverEnabled cfg) (nc_NSQDAddresses cfg) [] n = (Inr (p # ps), n')"
    and nm: "nm = ?m\<lparr>nm_producers := p # ps, nm_producer := Some p\<rparr>"
    using assms True by (auto simp: NewNSQManager_def nsq_initClusterMode_def Let_def split: if_splits prod.splits sum.splits list.splits)
  from connect_producers_distinct [OF c] show ?thesis using True by (simp add: nm)
next
  case False
  then show ?thesis using assms
    by (auto simp: NewNSQManager_def nsq_initSingleMode_def Let_def split: prod.splits option.splits bool.splits)
qed

lemma publish_count:
  assumes "nl_Publish nl p t d n = (ok, n')"
  shows "\<exists>k \<le> 1. delivered n' = delivered n @ replicate k (t, d) \<and> (ok \<longrightarrow> 1 \<le> k)"
  using publish [OF assms] by (auto intro: exI [of _ "Suc 0"] exI [of _ "0 :: nat"])

lemma try_fallbacks_count:
  assumes "try_fallbacks nl p qs t d n = (ok, n')"
  shows "\<exists>k \<le> length (filter (\<lambda>q. q \<noteq> p) qs). delivered n' = delivered n @ replicate k (t, d) \<and> (ok \<longrightarrow> 1 \<le> k)"
  using assms
proof (induction qs arbitrary: n)
  case Nil
  then show ?case by simp
next
  case (Cons q qs)
  show ?case
  proof (cases "q = p")
    case True
    then show ?thesis using Cons by simp
  next
    case False
    obtain ok1 n1 where pub: "nl_Publish nl q t d n = (ok1, n1)" by fastforce
    obtain k1 where k1: "k1 \<le> 1" "delivered n1 = delivered n @ replicate k1 (t, d)" "ok1 \<longrightarrow> 1 \<le> k1"
      using publish_count [OF pub] by blast
    show ?thesis
    proof (cases ok1)
      case True
      then have "n' = n1" using Cons.prems False pub by simp
      then show ?thesis using k1 True False by (intro exI [of _ k1]) auto
    next
      case no: False
      then have "try_fallbacks nl p qs t d n1 = (ok, n')" using Cons.prems False pub by simp
      from Cons.IH [OF this] obtain k where k: "k \<le> length (filter (\<lambda>q. q \<noteq> p) qs)"
        "delivered n' = delivered n1 @ replicate k (t, d)" "ok \<longrightarrow> 1 \<le> k" by blast
      then have "delivered n' = delivered n @ replicate (k1 + k) (t, d)" using k1 by (simp add: replicate_add)
      then show ?thesis using k k1 False by (intro exI [of _ "k1 + k"]) auto
    qed
  qed
qed

lemma try_fallbacks_up:
  assumes "q \<in> set qs" and "q \<noteq> p" and "\<forall>n. fst (nl_Publish nl q t d n)"
  shows "fst (try_fallbacks nl p qs t d n)"
  using assms
proof (induction qs arbitrary: n)
  case (Cons x qs)
  show ?case
  proof (cases "x = q")
    case True
    then show ?thesis using Cons.prems by (simp add: case_prod_unfold split: bool.split)
  next
    case False
    then show ?thesis using Cons by (auto split: prod.split bool.split)
  qed
qed simp

text \<open>Whatever its result, \<open>Publish\<close> delivers copies of this message and nothing else.\<close>

lemma publish_delivers:
  assumes "Publish nl t d nm n = Ret (e, nm', n')"
  shows "\<exists>k. delivered n' = delivered n @ replicate k (t, d)"
proof (cases "nm_mode nm = ''cluster'' \<and> nc_LoadBalancing (nm_config nm) \<and> length (nm_producers nm) > 1")
  case True
  let ?ps = "nm_producers nm"
  define q where "q = ?ps ! nat (nm_currentProducer nm mod int (length ?ps))"
  obtain ok n1 where pub: "nl_Publish nl q t d n = (ok, n1)" by fastforce
  obtain ok2 n2 where f: "try_fallbacks nl q ?ps t d n1 = (ok2, n2)" by fastforce
  obtain k1 where k1: "delivered n1 = delivered n @ replicate k1 (t, d)" using publish_count [OF pub] by blast
  obtain k2 where k2: "delivered n2 = delivered n1 @ replicate k2 (t, d)" using try_fallbacks_count [OF f] by blast
  have "publishWithLoadBalancing nl t d nm n = Ret (e, nm', n')" using assms True by (simp add: Publish_def)
  then have "n' = n1 \<or> n' = n2"
    by (auto simp: publishWithLoadBalancing_def Let_def q_def [symmetric] pub f split: if_splits bool.splits)
  moreover have "delivered n2 = delivered n @ replicate (k1 + k2) (t, d)" using k1 k2 by (simp add: replicate_add)
  ultimately show ?thesis using k1 by blast
next
  case False
  then obtain p ok where "nl_Publish nl p t d n = (ok, n')"
    using assms by (auto simp: Publish_def Let_def split: option.splits prod.splits)
  then show ?thesis using publish_count by blast
qed

text \<open>If NSQ accepts every message, a call that returns has delivered it.\<close>

lemma publish_accepted:
  assumes "Publish nl t d nm n = Ret (e, nm', n')" and "\<And>p t d n. fst (nl_Publish nl p t d n)"
  shows "\<exists>k \<ge> 1. delivered n' = delivered n @ replicate k (t, d)"
proof -
  define g where "g p = snd (nl_Publish nl p t d n)" for p
  have acc: "nl_Publish nl p t d n = (True, g p)" for p using assms(2) [of p t d n] by (simp add: g_def prod_eq_iff)
  have "\<exists>p. nl_Publish nl p t d n = (True, n')"
    using assms(1) by (auto simp: Publish_def publishWithLoadBalancing_def Let_def acc split: option.splits if_splits)
  then obtain p where "nl_Publish nl p t d n = (True, n')" by blast
  from publish_count [OF this] show ?thesis by auto
qed

lemma send_delivers:
  assumes "SendToNode nl marshal now target command args nm n = Ret (e, nm', n')"
  shows "\<exists>ms. delivered n' = delivered n @ ms \<and> (\<forall>(t, bs) \<in> set ms. t = ''system_messages'' \<and>
    marshal (NewSystemMessage now ''unicast'' target command args) = Some bs)"
proof (cases "marshal (NewSystemMessage now ''unicast'' target command args)")
  case None
  then show ?thesis using assms by (simp add: SendToNode_def PublishSystemMessage_def PublishJSON_def)
next
  case (Some bs)
  then have "Publish nl ''system_messages'' bs nm n = Ret (e, nm', n')"
    using assms by (simp add: SendToNode_def PublishSystemMessage_def PublishJSON_def)
  then obtain k where "delivered n' = delivered n @ replicate k (''system_messages'', bs)" using publish_delivers by blast
  then show ?thesis using Some by (intro exI [of _ "replicate k (''system_messages'', bs)"]) auto
qed

end

section \<open>An NSQ in memory\<close>

text \<open>Nodes by address, some of them down; producers are numbered.\<close>

record mem_nsq =
  mq_down :: "string list"
  mq_addr :: "string list"
  mq_log :: "(string \<times> bytes) list"

definition mq_up :: "nat \<Rightarrow> mem_nsq \<Rightarrow> bool" where
  "mq_up p n \<longleftrightarrow> p < length (mq_addr n) \<and> mq_addr n ! p \<notin> set (mq_down n)"

definition mem_nsq_lib :: "mem_nsq nsq" where
  "mem_nsq_lib = \<lparr>nl_NewProducer = (\<lambda>a n. (Some (length (mq_addr n)), n\<lparr>mq_addr := mq_addr n @ [a]\<rparr>)),
     nl_Ping = (\<lambda>p n. (mq_up p n, n)), nl_StopProducer = (\<lambda>p n. n),
     nl_Publish = (\<lambda>p t d n. if mq_up p n then (True, n\<lparr>mq_log := mq_log n @ [(t, d)]\<rparr>) else (False, n)),
     nl_DeferredPublish = (\<lambda>p t w d n. (mq_up p n, n)), nl_NewConsumer = (\<lambda>t c n. (Some 0, n)),
     nl_ConnectToNSQLookupd = (\<lambda>c a n. (a \<notin> set (mq_down n), n)), nl_StopConsumer = (\<lambda>c n. n)\<rparr>"

interpretation mem_nsq: nsq_client mem_nsq_lib mq_log "\<lambda>n. {p. p < length (mq_addr n)}"
  by unfold_locales (auto simp: mem_nsq_lib_def split: if_splits)

section \<open>Properties\<close>

lemma balanced_index:
  assumes "nm_producers nm \<noteq> []"
  shows "nm_producers nm ! nat (c mod int (length (nm_producers nm))) \<in> set (nm_producers nm)"
  using assms by (intro nth_mem) (simp add: nat_less_iff)

text \<open>The counter has wrapped around and its remainder is negative.\<close>

definition index_panics :: "'h nsq_manager \<Rightarrow> bool" where
  "index_panics nm \<longleftrightarrow> nm_currentProducer nm < 0 \<and> nm_currentProducer nm mod int (length (nm_producers nm)) \<noteq> 0"

lemma balanced_cases:
  assumes p: "nsq_client nl delivered handles" and ne: "nm_producers nm \<noteq> []" and c: "\<not> index_panics nm"
  shows "\<exists>e n' k. publishWithLoadBalancing nl t d nm n =
      Ret (e, nm\<lparr>nm_currentProducer := i64 (nm_currentProducer nm + 1)\<rparr>, n') \<and>
    delivered n' = delivered n @ replicate k (t, d) \<and> k \<le> length (nm_producers nm) \<and> (e = None \<longrightarrow> 1 \<le> k) \<and>
    (nc_FailoverEnabled (nm_config nm) \<and> length (nm_producers nm) > 1 \<and>
     (\<exists>q \<in> set (nm_producers nm). \<forall>n. fst (nl_Publish nl q t d n)) \<longrightarrow> e = None)"
proof -
  let ?ps = "nm_producers nm" and ?nm = "nm\<lparr>nm_currentProducer := i64 (nm_currentProducer nm + 1)\<rparr>"
  define q where "q = ?ps ! nat (nm_currentProducer nm mod int (length ?ps))"
  have mem: "q \<in> set ?ps" unfolding q_def by (rule balanced_index [OF ne])
  have len: "1 \<le> length ?ps" using ne by (cases ?ps) auto
  obtain ok n1 where pub: "nl_Publish nl q t d n = (ok, n1)" by fastforce
  obtain k1 where k1: "k1 \<le> 1" "delivered n1 = delivered n @ replicate k1 (t, d)" "ok \<longrightarrow> 1 \<le> k1"
    using nsq_client.publish_count [OF p pub] by blast
  note unf = publishWithLoadBalancing_def Let_def q_def [symmetric] pub
  show ?thesis
  proof (cases ok)
    case True
    then have "publishWithLoadBalancing nl t d nm n = Ret (None, ?nm, n1)" using c by (auto simp: unf index_panics_def)
    then show ?thesis using k1 True len by (intro exI [of _ None] exI [of _ n1] exI [of _ k1]) auto
  next
    case no: False
    show ?thesis
    proof (cases "nc_FailoverEnabled (nm_config nm) \<and> length ?ps > 1")
      case False
      then have "publishWithLoadBalancing nl t d nm n = Ret (Some PublishFailed, ?nm, n1)" using c no by (auto simp: unf index_panics_def)
      then show ?thesis using k1 False len by (intro exI [of _ "Some PublishFailed"] exI [of _ n1] exI [of _ k1]) auto
    next
      case True
      obtain ok2 n2 where f: "try_fallbacks nl q ?ps t d n1 = (ok2, n2)" by fastforce
      obtain k2 where k2: "k2 \<le> length (filter (\<lambda>x. x \<noteq> q) ?ps)" "delivered n2 = delivered n1 @ replicate k2 (t, d)"
        "ok2 \<longrightarrow> 1 \<le> k2" using nsq_client.try_fallbacks_count [OF p f] by blast
      have "length (filter (\<lambda>x. x \<noteq> q) ?ps) < length ?ps" by (rule length_filter_less [OF mem]) simp
      moreover have "delivered n2 = delivered n @ replicate (k1 + k2) (t, d)" using k1 k2 by (simp add: replicate_add)
      moreover have "publishWithLoadBalancing nl t d nm n = Ret (if ok2 then None else Some AllProducersFailed, ?nm, n2)"
        using c no True by (auto simp: unf f index_panics_def)
      moreover have "ok2" if "x \<in> set ?ps" "\<forall>n. fst (nl_Publish nl x t d n)" for x
      proof -
        have "x \<noteq> q" using that(2) pub no by (metis fst_conv)
        then show ?thesis using nsq_client.try_fallbacks_up [OF p that(1) _ that(2)] f by (metis fst_conv)
      qed
      ultimately show ?thesis using k1 k2
        by (intro exI [of _ "if ok2 then None else Some AllProducersFailed"] exI [of _ n2] exI [of _ "k1 + k2"]) auto
    qed
  qed
qed

lemma publish_cases:
  assumes "nsq_client nl delivered handles" and "NewNSQManager nl cfg n0 = (Inr nm0, n1)"
    and "nm = nm0\<lparr>nm_consumers := cs, nm_handlers := hs, nm_currentProducer := c, nm_cancelled := b\<rparr>"
  shows "if nc_ClusterMode cfg \<and> nc_LoadBalancing cfg \<and> length (nm_producers nm) > 1 \<and>
       c < 0 \<and> c mod int (length (nm_producers nm)) \<noteq> 0
    then Publish nl t d nm n = Panic IndexOutOfRange
    else \<exists>e nm' n' k. Publish nl t d nm n = Ret (e, nm', n') \<and> delivered n' = delivered n @ replicate k (t, d) \<and>
      k \<le> length (nm_producers nm) \<and> (e = None \<longrightarrow> 1 \<le> k) \<and>
      (nc_ClusterMode cfg \<and> nc_LoadBalancing cfg \<and> nc_FailoverEnabled cfg \<and> length (nm_producers nm) > 1 \<and>
       (\<exists>q \<in> set (nm_producers nm). \<forall>n. fst (nl_Publish nl q t d n)) \<longrightarrow> e = None)"
proof -
  have m: "nm_producers nm \<noteq> []" "nm_producer nm = Some (hd (nm_producers nm))" "nm_config nm = cfg"
    "nm_currentProducer nm = c" "nm_mode nm = (if nc_ClusterMode cfg then ''cluster'' else ''single'')"
    using nsq_client.new_manager [OF assms(1,2)] by (simp_all add: assms(3))
  have mode: "nm_mode nm = ''cluster'' \<longleftrightarrow> nc_ClusterMode cfg" by (simp add: m(5))
  show ?thesis
  proof (cases "nm_mode nm = ''cluster'' \<and> nc_LoadBalancing cfg \<and> length (nm_producers nm) > 1")
    case True
    then have pub: "Publish nl t d nm n = publishWithLoadBalancing nl t d nm n" by (simp add: Publish_def m(3))
    show ?thesis
    proof (cases "index_panics nm")
      case panics: True
      then show ?thesis using True pub by (simp add: index_panics_def publishWithLoadBalancing_def m(4) flip: mode)
    next
      case False
      then have "\<not> (c < 0 \<and> c mod int (length (nm_producers nm)) \<noteq> 0)" by (simp add: index_panics_def m(4))
      then show ?thesis using balanced_cases [OF assms(1) m(1) False, of t d n] pub m(3) by (auto split: if_splits)
    qed
  next
    case False
    obtain ok n1 where pub: "nl_Publish nl (hd (nm_producers nm)) t d n = (ok, n1)" by fastforce
    obtain k where k: "k \<le> 1" "delivered n1 = delivered n @ replicate k (t, d)" "ok \<longrightarrow> 1 \<le> k"
      using nsq_client.publish_count [OF assms(1) pub] by blast
    have "1 \<le> length (nm_producers nm)" using m(1) by (cases "nm_producers nm") auto
    moreover have "Publish nl t d nm n = Ret (if ok then None else Some PublishFailed, nm, n1)"
      using False m(2,3) pub by (auto simp: Publish_def)
    ultimately have "\<exists>e nm' n' k. Publish nl t d nm n = Ret (e, nm', n') \<and> delivered n' = delivered n @ replicate k (t, d) \<and>
      k \<le> length (nm_producers nm) \<and> (e = None \<longrightarrow> 1 \<le> k)" using k
      by (intro exI [of _ "if ok then None else Some PublishFailed"] exI [of _ nm] exI [of _ n1] exI [of _ k]) auto
    then show ?thesis using False mode by auto
  qed
qed

text \<open>
  C12. On a manager that was created successfully, with any subscriptions and round-robin
  counter since, Publish delivers the message between 0 and as many times as there are
  producers, and at least once when it returns nil, with one exception: in a cluster with load
  balancing over more than one producer it panics, index out of range, exactly when the signed
  counter is negative (it has wrapped around) and no multiple of the number of producers. In a
  cluster with load balancing, failover and more than one producer it returns nil whenever one
  of the producers accepts the message.
\<close>

theorem publish_at_least_once:
  assumes "nsq_client nl delivered handles" and "NewNSQManager nl cfg n0 = (Inr nm0, n1)"
    and "nm = nm0\<lparr>nm_consumers := cs, nm_handlers := hs, nm_currentProducer := c, nm_cancelled := b\<rparr>"
  shows "if nc_ClusterMode cfg \<and> nc_LoadBalancing cfg \<and> length (nm_producers nm) > 1 \<and>
       c < 0 \<and> c mod int (length (nm_producers nm)) \<noteq> 0
    then Publish nl t d nm n = Panic IndexOutOfRange
    else \<exists>e nm' n' k. Publish nl t d nm n = Ret (e, nm', n') \<and> delivered n' = delivered n @ replicate k (t, d) \<and>
      k \<le> length (nm_producers nm) \<and> (e = None \<longrightarrow> 1 \<le> k) \<and>
      (nc_ClusterMode cfg \<and> nc_LoadBalancing cfg \<and> nc_FailoverEnabled cfg \<and> length (nm_producers nm) > 1 \<and>
       (\<exists>q \<in> set (nm_producers nm). \<forall>n. fst (nl_Publish nl q t d n)) \<longrightarrow> e = None)"
  by (rule publish_cases [OF assms])

definition demo_nsq_config :: nsq_config where
  "demo_nsq_config = \<lparr>nc_NSQDAddress = [], nc_NSQLookupDAddress = [], nc_ClusterMode = True,
     nc_NSQDAddresses = [''a'', ''b'', ''c''], nc_NSQLookupDAddresses = [], nc_LoadBalancing = True, nc_FailoverEnabled = True\<rparr>"

text \<open>Node \<open>a\<close> is down from the start, node \<open>b\<close> when the message is published.\<close>

theorem publish_at_least_once_witness:
  "let (r, n1) = NewNSQManager mem_nsq_lib demo_nsq_config \<lparr>mq_down = [''a''], mq_addr = [], mq_log = []\<rparr>
   in \<exists>nm nm' n'. r = Inr (nm :: unit nsq_manager) \<and> nm_producers nm = [1, 2] \<and>
     Publish mem_nsq_lib ''t'' [7] nm (n1\<lparr>mq_down := [''b'']\<rparr>) = Ret (None, nm', n') \<and> mq_log n' = [(''t'', [7])]"
proof -
  let ?n0 = "\<lparr>mq_down = [''a''], mq_addr = [], mq_log = []\<rparr>"
  obtain nm :: "unit nsq_manager" and n1 where r: "NewNSQManager mem_nsq_lib demo_nsq_config ?n0 = (Inr nm, n1)"
    and nm: "nm_producers nm = [1, 2]" "nm_currentProducer nm = 0" "nm_mode nm = ''cluster''" "nm_config nm = demo_nsq_config" and n1: "mq_addr n1 = [''a'', ''b'', ''c'']" "mq_log n1 = []"
    by (auto simp: NewNSQManager_def nsq_initClusterMode_def demo_nsq_config_def mem_nsq_lib_def mq_up_def)
  have "nm = nm\<lparr>nm_consumers := nm_consumers nm, nm_handlers := nm_handlers nm, nm_currentProducer := 0,
      nm_cancelled := nm_cancelled nm\<rparr>" using nm(2) by simp
  from publish_at_least_once [OF mem_nsq.nsq_client_axioms r this, of "''t''" "[7]" "n1\<lparr>mq_down := [''b'']\<rparr>"]
  obtain e nm' n' k where p: "Publish mem_nsq_lib ''t'' [7] nm (n1\<lparr>mq_down := [''b'']\<rparr>) = Ret (e, nm', n')" by auto
  moreover have "e = None" "mq_log n' = [(''t'', [7])]" using p nm n1
    by (auto simp: Publish_def publishWithLoadBalancing_def demo_nsq_config_def mem_nsq_lib_def mq_up_def)
  ultimately show ?thesis using r nm by simp
qed

text \<open>
  Consumers are kept under topic and channel joined by an underscore: a second pair with the same key
  is taken for subscribed, and unsubscribing it stops the consumer of the first.
\<close>

theorem subscription_by_key:
  assumes "Subscribe nl t1 c1 h1 nm n = (None, nm1, n1)" and "sub_key t2 c2 = sub_key t1 c1"
  shows "Subscribe nl t2 c2 h2 nm1 n1 = (Some (AlreadySubscribed t2 c2), nm1, n1) \<and>
    (\<forall>k. k \<noteq> sub_key t1 c1 \<longrightarrow> nm_consumers nm1 k = nm_consumers nm k \<and> nm_handlers nm1 k = nm_handlers nm k) \<and>
    (\<exists>consumer. nm_consumers nm1 (sub_key t1 c1) = Some consumer \<and>
       Unsubscribe nl t2 c2 nm1 n1 =
         (None, nm\<lparr>nm_handlers := (nm_handlers nm)(sub_key t1 c1 := None)\<rparr>,
          nl_StopConsumer nl consumer n1))"
proof -
  have free: "nm_consumers nm (sub_key t1 c1) = None"
    using assms(1) by (auto simp: Subscribe_def Let_def split: if_splits)
  obtain consumer where nm1: "nm1 = nm\<lparr>nm_consumers := (nm_consumers nm)(sub_key t1 c1 \<mapsto> consumer),
      nm_handlers := (nm_handlers nm)(sub_key t1 c1 \<mapsto> h1)\<rparr>"
    using assms(1) free by (auto simp: Subscribe_def Let_def split: prod.splits option.splits)
  have "(nm_consumers nm)(sub_key t1 c1 := None) = nm_consumers nm" using free by (simp add: fun_upd_idem)
  then show ?thesis by (simp add: nm1 Subscribe_def Unsubscribe_def assms(2) Let_def)
qed

definition demo_nsq_manager :: "unit nsq_manager" where
  "demo_nsq_manager = \<lparr>nm_config = demo_nsq_config, nm_mode = ''single'', nm_producers = [1], nm_producer = Some 1,
     nm_consumers = Map.empty, nm_handlers = Map.empty, nm_currentProducer = 0, nm_cancelled = False\<rparr>"

text \<open>Topic \<open>a_b\<close> with channel \<open>c\<close> and topic \<open>a\<close> with channel \<open>b_c\<close> share a key.\<close>

theorem subscription_by_key_witness:
  "let n = \<lparr>mq_down = [], mq_addr = [], mq_log = []\<rparr>;
     (e, nm1, n1) = Subscribe mem_nsq_lib ''a_b'' ''c'' () demo_nsq_manager n
   in e = None \<and> fst (Subscribe mem_nsq_lib ''a'' ''b_c'' () nm1 n1) = Some (AlreadySubscribed ''a'' ''b_c'') \<and>
      nm_consumers (fst (snd (Unsubscribe mem_nsq_lib ''a'' ''b_c'' nm1 n1))) ''a_b_c'' = None"
proof -
  let ?n = "\<lparr>mq_down = [], mq_addr = [], mq_log = []\<rparr>"
  obtain nm1 n1 where s: "Subscribe mem_nsq_lib ''a_b'' ''c'' () demo_nsq_manager ?n = (None, nm1, n1)"
    by (simp add: Subscribe_def demo_nsq_manager_def demo_nsq_config_def mem_nsq_lib_def Let_def)
  have "sub_key ''a'' ''b_c'' = sub_key ''a_b'' ''c''" by (simp add: sub_key_def)
  from subscription_by_key [OF s this, of "()"] s show ?thesis by (auto simp: demo_nsq_manager_def sub_key_def)
qed

text \<open>A message that the codec brings back reaches the handlers of its addressee.\<close>

lemma SendToNode_delivers:
  assumes "nsq_client nl delivered handles" and "NewNSQManager nl cfg n0 = (Inr nm0, n1)"
    and "nm = nm0\<lparr>nm_consumers := cs, nm_handlers := hs, nm_currentProducer := c, nm_cancelled := b\<rparr>"
    and "\<And>bs. marshal (NewSystemMessage now ''unicast'' target command args) = Some bs \<Longrightarrow>
      unmarshal bs = Some (NewSystemMessage now ''unicast'' target command args')"
    and "SendToNode nl marshal now target command args nm n = Ret (None, nm', n')"
  shows "\<exists>bs. (''system_messages'', bs) \<in> set (delivered n') \<and>
    (\<forall>smh w. sys_HandleMessage unmarshal smh bs w =
       (if target = '''' \<or> target = sh_nodeID smh
        then (case sh_handlers smh command of
                None \<Rightarrow> (None, w) | Some h \<Rightarrow> h (NewSystemMessage now ''unicast'' target command args') w)
        else (None, w)))"
proof -
  let ?m = "NewSystemMessage now ''unicast'' target command args"
  obtain bs where bs: "marshal ?m = Some bs"
    and pub: "Publish nl ''system_messages'' bs nm n = Ret (None, nm', n')"
    using assms(5) by (auto simp: SendToNode_def PublishSystemMessage_def PublishJSON_def split: option.splits)
  obtain k where "delivered n' = delivered n @ replicate k (''system_messages'', bs)" "1 \<le> k"
    using publish_cases [OF assms(1-3), of "''system_messages''" bs n] pub by (auto split: if_splits)
  then have "(''system_messages'', bs) \<in> set (delivered n')" by (cases k) auto
  moreover have "unmarshal bs = Some (NewSystemMessage now ''unicast'' target command args')" by (rule assms(4) [OF bs])
  ultimately show ?thesis
    by (intro exI [of _ bs]) (auto simp: sys_HandleMessage_def NewSystemMessage_def split: option.split)
qed

end
