(* ===== verification/Json.thy ===== *)
theory Json
  imports Prelude
begin

text \<open>
  What the program uses of Go's \<open>encoding/json\<close>: the text \<open>Marshal\<close> writes for a value and
  the parser behind \<open>Unmarshal\<close>. A Go string is a list of bytes (as characters). A number is
  kept as its text, as the decoder keeps it until it knows the type it goes to. \<open>Marshal\<close> writes
  an invalid UTF-8 byte as U+FFFD, so only valid strings come back; the nesting limit of 10000 is left
  out.
\<close>

section \<open>Values\<close>

datatype json = JNull | JBool bool | JNum string | JString string | JArr "json list" | JObj "(string \<times> json) list"

abbreviation JInt :: "int \<Rightarrow> json" where "JInt n \<equiv> JNum (show_int n)"

section \<open>UTF-8\<close>

abbreviation byte_of :: "char \<Rightarrow> nat" where "byte_of c \<equiv> of_char c"

definition in_range :: "nat \<Rightarrow> nat \<Rightarrow> char \<Rightarrow> bool" where
  "in_range lo hi c \<longleftrightarrow> lo \<le> byte_of c \<and> byte_of c \<le> hi"

text \<open>How many bytes the rune at the start takes: 0 where \<open>utf8.DecodeRune\<close> finds no valid one.\<close>

fun rune_len :: "string \<Rightarrow> nat" where
  "rune_len [] = 0"
| "rune_len (c # s) =
     (if byte_of c < 128 then 1
      else if in_range 194 223 c then (case s of d # _ \<Rightarrow> if in_range 128 191 d then 2 else 0 | _ \<Rightarrow> 0)
      else if in_range 224 239 c then
        (case s of d # e # _ \<Rightarrow>
            if in_range (if byte_of c = 224 then 160 else 128) (if byte_of c = 237 then 159 else 191) d \<and> in_range 128 191 e
            then 3 else 0
          | _ \<Rightarrow> 0)
      else if in_range 240 244 c then
        (case s of d # e # f # _ \<Rightarrow>
            if in_range (if byte_of c = 240 then 144 else 128) (if byte_of c = 244 then 143 else 191) d \<and>
               in_range 128 191 e \<and> in_range 128 191 f
            then 4 else 0
          | _ \<Rightarrow> 0)
      else 0)"

function utf8_ok :: "string \<Rightarrow> bool" where
  "utf8_ok [] = True"
| "utf8_ok (c # s) = (rune_len (c # s) \<noteq> 0 \<and> utf8_ok (drop (rune_len (c # s) - 1) s))"
  by pat_completeness auto
termination by (relation "measure length") auto

definition utf8_encode :: "nat \<Rightarrow> string" where
  "utf8_encode r =
     (if r < 128 then [char_of r]
      else if r < 2048 then [char_of (192 + r div 64), char_of (128 + r mod 64)]
      else if r < 65536 then [char_of (224 + r div 4096), char_of (128 + r div 64 mod 64), char_of (128 + r mod 64)]
      else [char_of (240 + r div 262144), char_of (128 + r div 4096 mod 64), char_of (128 + r div 64 mod 64),
            char_of (128 + r mod 64)])"

definition replacement :: string where
  "replacement = [CHR 0xEF, CHR 0xBF, CHR 0xBD]"

section \<open>Strings\<close>

definition hex_val :: "char \<Rightarrow> nat option" where
  "hex_val c =
     (if in_range 48 57 c then Some (byte_of c - 48)
      else if in_range 97 102 c then Some (byte_of c - 87)
      else if in_range 65 70 c then Some (byte_of c - 55) else None)"

text \<open>With the escapes of Go 1.24, HTML escapes included.\<close>

definition esc_ascii :: "char \<Rightarrow> string" where
  "esc_ascii c =
     (let n = byte_of c in
      if n = 34 \<or> n = 92 then [CHR 0x5C, c]
      else if n = 8 then [CHR 0x5C, CHR ''b'']
      else if n = 12 then [CHR 0x5C, CHR ''f'']
      else if n = 10 then [CHR 0x5C, CHR ''n'']
      else if n = 13 then [CHR 0x5C, CHR ''r'']
      else if n = 9 then [CHR 0x5C, CHR ''t'']
      else if n < 32 \<or> n = 60 \<or> n = 62 \<or> n = 38 then
        [CHR 0x5C, CHR ''u'', CHR ''0'', CHR ''0'', hex_digit (n div 16), hex_digit (n mod 16)]
      else [c])"

text \<open>U+2028 and U+2029 are written as escapes.\<close>

definition esc_rune :: "string \<Rightarrow> string" where
  "esc_rune r =
     (if r = [CHR 0xE2, CHR 0x80, CHR 0xA8] then CHR 0x5C # ''u2028''
      else if r = [CHR 0xE2, CHR 0x80, CHR 0xA9] then CHR 0x5C # ''u2029'' else r)"

function esc :: "string \<Rightarrow> string" where
  "esc [] = []"
| "esc (c # s) =
     (if byte_of c < 128 then esc_ascii c @ esc s
      else if rune_len (c # s) = 0 then CHR 0x5C # ''ufffd'' @ esc s
      else esc_rune (take (rune_len (c # s)) (c # s)) @ esc (drop (rune_len (c # s) - 1) s))"
  by pat_completeness auto
termination by (relation "measure length") auto

definition quoted :: "string \<Rightarrow> string" where
  "quoted s = CHR 0x22 # esc s @ [CHR 0x22]"

fun hex4 :: "string \<Rightarrow> nat option" where
  "hex4 (a # b # c # d # _) =
     (case (hex_val a, hex_val b, hex_val c, hex_val d) of
        (Some w, Some x, Some y, Some z) \<Rightarrow> Some (((w * 16 + x) * 16 + y) * 16 + z)
      | _ \<Rightarrow> None)"
| "hex4 _ = None"

text \<open>What follows a \<open>u\<close>: the bytes it stands for and how many characters it takes.\<close>

definition u_escape :: "string \<Rightarrow> (string \<times> nat) option" where
  "u_escape s =
     (case hex4 s of
        None \<Rightarrow> None
      | Some r \<Rightarrow>
          if 55296 \<le> r \<and> r \<le> 57343 then
            (case (take 2 (drop 4 s) = [CHR 0x5C, CHR ''u''], hex4 (drop 6 s)) of
               (True, Some q) \<Rightarrow>
                 if r < 56320 \<and> 56320 \<le> q \<and> q \<le> 57343
                 then Some (utf8_encode (65536 + (r - 55296) * 1024 + (q - 56320)), 10)
                 else Some (replacement, 4)
             | _ \<Rightarrow> Some (replacement, 4))
          else Some (utf8_encode r, 4))"

definition simple_escape :: "char \<Rightarrow> char option" where
  "simple_escape e =
     (let n = byte_of e in
      if n = 34 \<or> n = 92 \<or> n = 47 then Some e
      else if e = CHR ''b'' then Some (CHR 0x08)
      else if e = CHR ''f'' then Some (CHR 0x0C)
      else if e = CHR ''n'' then Some (CHR 0x0A)
      else if e = CHR ''r'' then Some (CHR 0x0D)
      else if e = CHR ''t'' then Some (CHR 0x09) else None)"

text \<open>The rest of a string literal: its bytes, and the text after the closing quote.\<close>

function unq :: "string \<Rightarrow> (string \<times> string) option" where
  "unq [] = None"
| "unq (c # s) =
     (if byte_of c = 34 then Some ([], s)
      else if byte_of c < 32 then None
      else if byte_of c = 92 then
        (case s of
           [] \<Rightarrow> None
         | e # t \<Rightarrow>
             if e = CHR ''u'' then
               (case u_escape t of
                  None \<Rightarrow> None
                | Some (r, k) \<Rightarrow> map_option (apfst (append r)) (unq (drop k t)))
             else (case simple_escape e of None \<Rightarrow> None | Some d \<Rightarrow> map_option (apfst (Cons d)) (unq t)))
      else if byte_of c < 128 then map_option (apfst (Cons c)) (unq s)
      else if rune_len (c # s) = 0 then map_option (apfst (append replacement)) (unq s)
      else map_option (apfst (append (take (rune_len (c # s)) (c # s)))) (unq (drop (rune_len (c # s) - 1) s)))"
  by pat_completeness auto
termination by (relation "measure length") auto

section \<open>Marshal\<close>

fun jprint :: "json \<Rightarrow> string" and print_elems :: "json list \<Rightarrow> string" and
    print_members :: "(string \<times> json) list \<Rightarrow> string" where
  "jprint JNull = ''null''"
| "jprint (JBool b) = (if b then ''true'' else ''false'')"
| "jprint (JNum s) = s"
| "jprint (JString s) = quoted s"
| "jprint (JArr []) = ''[]''"
| "jprint (JArr (j # js)) = CHR ''['' # jprint j @ print_elems js"
| "jprint (JObj []) = ''{}''"
| "jprint (JObj ((k, j) # kvs)) = CHR ''{'' # quoted k @ CHR '':'' # jprint j @ print_members kvs"
| "print_elems [] = '']''"
| "print_elems (j # js) = CHR '','' # jprint j @ print_elems js"
| "print_members [] = ''}''"
| "print_members ((k, j) # kvs) = CHR '','' # quoted k @ CHR '':'' # jprint j @ print_members kvs"

section \<open>The parser\<close>

definition is_space :: "char \<Rightarrow> bool" where
  "is_space c \<longleftrightarrow> byte_of c \<in> {32, 9, 13, 10}"

definition skip_ws :: "string \<Rightarrow> string" where
  "skip_ws s = dropWhile is_space s"

definition expect :: "char \<Rightarrow> string \<Rightarrow> string option" where
  "expect c s = (case skip_ws s of [] \<Rightarrow> None | d # t \<Rightarrow> if d = c then Some t else None)"

text \<open>The integer part of a number, its fraction and its exponent, with the text after each.\<close>

definition scan_digits :: "string \<Rightarrow> (string \<times> string) option" where
  "scan_digits s = (if takeWhile is_digit s = [] then None else Some (takeWhile is_digit s, dropWhile is_digit s))"

definition scan_nat :: "string \<Rightarrow> (string \<times> string) option" where
  "scan_nat s = (case s of [] \<Rightarrow> None | c # t \<Rightarrow> if c = CHR ''0'' then Some (''0'', t) else scan_digits s)"

definition scan_frac :: "string \<Rightarrow> (string \<times> string) option" where
  "scan_frac s =
     (case s of [] \<Rightarrow> Some ([], s) | c # t \<Rightarrow> if c = CHR ''.'' then map_option (apfst (Cons c)) (scan_digits t) else Some ([], s))"

definition scan_exp :: "string \<Rightarrow> (string \<times> string) option" where
  "scan_exp s =
     (case s of
        [] \<Rightarrow> Some ([], s)
      | c # t \<Rightarrow>
          if c = CHR ''e'' \<or> c = CHR ''E'' then
            (case t of
               d # u \<Rightarrow> if d = CHR ''+'' \<or> d = CHR ''-'' then map_option (apfst (\<lambda>ds. c # d # ds)) (scan_digits u)
                        else map_option (apfst (Cons c)) (scan_digits t)
             | [] \<Rightarrow> None)
          else Some ([], s))"

definition scan_num :: "string \<Rightarrow> (string \<times> string) option" where
  "scan_num s =
     (let (sgn, s1) = (case s of c # t \<Rightarrow> if c = CHR ''-'' then ([c], t) else ([], s) | [] \<Rightarrow> ([], s))
      in Option.bind (scan_nat s1) (\<lambda>(i, s2).
         Option.bind (scan_frac s2) (\<lambda>(f, s3).
         Option.bind (scan_exp s3) (\<lambda>(e, s4). Some (sgn @ i @ f @ e, s4)))))"

definition scan_word :: "string \<Rightarrow> json \<Rightarrow> string \<Rightarrow> (json \<times> string) option" where
  "scan_word w j s = (if take (length w) s = w then Some (j, drop (length w) s) else None)"

text \<open>
  Elements and members after the first bracket. The number bounds the recursion; each step takes a
  character, so the length of the text is enough.
\<close>

fun p_val :: "nat \<Rightarrow> string \<Rightarrow> (json \<times> string) option" and
    p_elems :: "nat \<Rightarrow> string \<Rightarrow> (json list \<times> string) option" and
    p_members :: "nat \<Rightarrow> string \<Rightarrow> ((string \<times> json) list \<times> string) option" where
  "p_val 0 s = None"
| "p_val (Suc n) s =
     (case skip_ws s of
        [] \<Rightarrow> None
      | c # t \<Rightarrow>
          if c = CHR ''{'' then
            (case expect (CHR ''}'') t of Some u \<Rightarrow> Some (JObj [], u) | None \<Rightarrow> map_option (apfst JObj) (p_members n t))
          else if c = CHR ''['' then
            (case expect (CHR '']'') t of Some u \<Rightarrow> Some (JArr [], u) | None \<Rightarrow> map_option (apfst JArr) (p_elems n t))
          else if byte_of c = 34 then map_option (apfst JString) (unq t)
          else if c = CHR ''n'' then scan_word ''null'' JNull (c # t)
          else if c = CHR ''t'' then scan_word ''true'' (JBool True) (c # t)
          else if c = CHR ''f'' then scan_word ''false'' (JBool False) (c # t)
          else map_option (apfst JNum) (scan_num (c # t)))"
| "p_elems 0 s = None"
| "p_elems (Suc n) s =
     (case p_val n s of
        None \<Rightarrow> None
      | Some (j, u) \<Rightarrow>
          (case expect (CHR '']'') u of
             Some v \<Rightarrow> Some ([j], v)
           | None \<Rightarrow> (case expect (CHR '','') u of
               None \<Rightarrow> None
             | Some v \<Rightarrow> map_option (apfst (Cons j)) (p_elems n v))))"
| "p_members 0 s = None"
| "p_members (Suc n) s =
     Option.bind (expect (CHR 0x22) s) (\<lambda>t.
     Option.bind (unq t) (\<lambda>(k, u).
     Option.bind (expect (CHR '':'') u) (\<lambda>v.
     Option.bind (p_val n v) (\<lambda>(j, w).
       case expect (CHR ''}'') w of
         Some x \<Rightarrow> Some ([(k, j)], x)
       | None \<Rightarrow> (case expect (CHR '','') w of
           None \<Rightarrow> None
         | Some x \<Rightarrow> map_option (apfst (Cons (k, j))) (p_members n x))))))"

definition json_parse :: "string \<Rightarrow> json option" where
  "json_parse s =
     (case p_val (Suc (length s)) s of Some (j, r) \<Rightarrow> if skip_ws r = [] then Some j else None | None \<Rightarrow> None)"

section \<open>Strings come back\<close>

lemma rune_len_prefix:
  assumes "rune_len s \<noteq> 0"
  shows "rune_len s \<le> length s \<and> rune_len (take (rune_len s) s @ t) = rune_len s"
proof (cases s)
  case (Cons c u)
  consider "byte_of c < 128" | "\<not> byte_of c < 128" "in_range 194 223 c"
    | "\<not> byte_of c < 128" "\<not> in_range 194 223 c" "in_range 224 239 c"
    | "\<not> byte_of c < 128" "\<not> in_range 194 223 c" "\<not> in_range 224 239 c" "in_range 240 244 c"
    using assms Cons by (cases "byte_of c < 128"; cases "in_range 194 223 c"; cases "in_range 224 239 c"; cases "in_range 240 244 c") simp_all
  then show ?thesis
  proof cases
    case 1
    then show ?thesis using Cons by simp
  next
    case 2
    then obtain d v where "u = d # v" "in_range 128 191 d" using assms Cons by (cases u) (auto split: if_splits)
    then show ?thesis using Cons 2 by simp
  next
    case 3
    then obtain d e v where "u = d # e # v"
      and "in_range (if byte_of c = 224 then 160 else 128) (if byte_of c = 237 then 159 else 191) d \<and> in_range 128 191 e"
      using assms Cons by (simp split: list.splits if_split_asm)
    then show ?thesis using Cons 3 by (simp only: rune_len.simps list.case if_True if_False) simp
  next
    case 4
    then obtain d e f v where "u = d # e # f # v"
      and "in_range (if byte_of c = 240 then 144 else 128) (if byte_of c = 244 then 143 else 191) d \<and> in_range 128 191 e \<and> in_range 128 191 f"
      using assms Cons by (simp split: list.splits if_split_asm)
    then show ?thesis using Cons 4 by (simp only: rune_len.simps list.case if_True if_False) simp
  qed
qed (use assms in simp)

lemma rune_len_ascii [simp]: "byte_of c < 128 \<Longrightarrow> rune_len (c # s) = 1"
  by simp

declare rune_len.simps [simp del]

lemma char_by_code: "byte_of c = byte_of d \<Longrightarrow> c = d"
  by simp

text \<open>The three ways to write an ASCII character.\<close>

lemma ascii_cases:
  assumes "byte_of c < 128"
  obtains (plain) "esc_ascii c = [c]" and "byte_of c \<noteq> 34" and "byte_of c \<noteq> 92" and "32 \<le> byte_of c"
  | (simple) e where "esc_ascii c = [CHR 0x5C, e]" and "e \<noteq> CHR ''u''" and "simple_escape e = Some c"
  | (hexa) "esc_ascii c = [CHR 0x5C, CHR ''u'', CHR ''0'', CHR ''0'', hex_digit (byte_of c div 16), hex_digit (byte_of c mod 16)]"
proof -
  consider "byte_of c = 34 \<or> byte_of c = 92" | "byte_of c = 8" | "byte_of c = 12" | "byte_of c = 10" | "byte_of c = 13" | "byte_of c = 9"
    | "byte_of c \<notin> {34, 92, 8, 12, 10, 13, 9}" "byte_of c < 32 \<or> byte_of c = 60 \<or> byte_of c = 62 \<or> byte_of c = 38"
    | "byte_of c \<notin> {34, 92, 8, 12, 10, 13, 9}" "\<not> (byte_of c < 32 \<or> byte_of c = 60 \<or> byte_of c = 62 \<or> byte_of c = 38)"
    by auto
  then show thesis
  proof cases
    case 1
    then have "c = CHR 0x22 \<or> c = CHR 0x5C" using char_by_code [of c "CHR 0x22"] char_by_code [of c "CHR 0x5C"] by auto
    then show ?thesis using simple [of c] by (auto simp: esc_ascii_def simple_escape_def)
  next
    case 2
    then have "c = CHR 0x08" using char_by_code [of c "CHR 0x08"] by simp
    then show ?thesis using simple [of "CHR ''b''"] by (simp add: esc_ascii_def simple_escape_def)
  next
    case 3
    then have "c = CHR 0x0C" using char_by_code [of c "CHR 0x0C"] by simp
    then show ?thesis using simple [of "CHR ''f''"] by (simp add: esc_ascii_def simple_escape_def)
  next
    case 4
    then have "c = CHR 0x0A" using char_by_code [of c "CHR 0x0A"] by simp
    then show ?thesis using simple [of "CHR ''n''"] by (simp add: esc_ascii_def simple_escape_def)
  next
    case 5
    then have "c = CHR 0x0D" using char_by_code [of c "CHR 0x0D"] by simp
    then show ?thesis using simple [of "CHR ''r''"] by (simp add: esc_ascii_def simple_escape_def)
  next
    case 6
    then have "c = CHR 0x09" using char_by_code [of c "CHR 0x09"] by simp
    then show ?thesis using simple [of "CHR ''t''"] by (simp add: esc_ascii_def simple_escape_def)
  next
    case 7
    then show ?thesis using hexa by (auto simp: esc_ascii_def Let_def)
  next
    case 8
    then show ?thesis using plain by (simp add: esc_ascii_def Let_def)
  qed
qed

lemma hex_val_digit: "d < 16 \<Longrightarrow> hex_val (hex_digit d) = Some d"
  by (auto simp: hex_val_def hex_digit_def in_range_def)

lemma unq_ascii:
  assumes "byte_of c < 128"
  shows "unq (esc_ascii c @ t) = map_option (apfst (Cons c)) (unq t)"
  using assms
proof (cases rule: ascii_cases)
  case plain
  then show ?thesis using assms by simp
next
  case (simple e)
  then show ?thesis by simp
next
  case hexa
  have "hex_val (hex_digit (byte_of c div 16)) = Some (byte_of c div 16)" "hex_val (hex_digit (byte_of c mod 16)) = Some (byte_of c mod 16)"
    using assms by (simp_all add: hex_val_digit)
  moreover have "hex_val (CHR ''0'') = Some 0" by (simp add: hex_val_def in_range_def)
  ultimately have "u_escape (CHR ''0'' # CHR ''0'' # hex_digit (byte_of c div 16) # hex_digit (byte_of c mod 16) # t) = Some ([c], 4)"
    using assms by (simp add: u_escape_def utf8_encode_def mult.commute)
  then show ?thesis using hexa by (simp add: apfst_def map_prod_def comp_def)
qed

lemma unq_rune:
  assumes "\<not> byte_of c < 128" and "rune_len (c # s) \<noteq> 0"
  shows "unq (esc_rune (take (rune_len (c # s)) (c # s)) @ t) = map_option (apfst (append (take (rune_len (c # s)) (c # s)))) (unq t)"
proof -
  let ?k = "rune_len (c # s)" and ?r = "take (rune_len (c # s)) (c # s)"
  have k: "?k \<le> length (c # s)" "rune_len (?r @ t) = ?k" using rune_len_prefix [OF assms(2)] by blast+
  show ?thesis
  proof (cases "?r = [CHR 0xE2, CHR 0x80, CHR 0xA8] \<or> ?r = [CHR 0xE2, CHR 0x80, CHR 0xA9]")
    case True
    have h: "hex_val (CHR ''2'') = Some 2" "hex_val (CHR ''0'') = Some 0" "hex_val (CHR ''8'') = Some 8" "hex_val (CHR ''9'') = Some 9"
      by (simp_all add: hex_val_def in_range_def)
    have e: "utf8_encode 8232 = [CHR 0xE2, CHR 0x80, CHR 0xA8]" "utf8_encode 8233 = [CHR 0xE2, CHR 0x80, CHR 0xA9]"
      by (simp_all add: utf8_encode_def char_of_eq_iff)
    have "hex4 (''2028'' @ t) = Some 8232" "hex4 (''2029'' @ t) = Some 8233" using h by simp_all
    then have "u_escape (''2028'' @ t) = Some ([CHR 0xE2, CHR 0x80, CHR 0xA8], 4)"
      "u_escape (''2029'' @ t) = Some ([CHR 0xE2, CHR 0x80, CHR 0xA9], 4)"
      unfolding u_escape_def by (simp_all only: option.case e) simp_all
    then have "unq (esc_rune ?r @ t) = map_option (apfst (append ?r)) (unq t)" using True
      by (elim disjE) (simp_all add: esc_rune_def)
    then show ?thesis .
  next
    case False
    obtain u where r: "?r = c # u" "length (c # u) = ?k" using assms(2) k(1) by (cases ?k) simp_all
    have n: "byte_of c \<noteq> 34" "\<not> byte_of c < 32" "byte_of c \<noteq> 92" using assms(1) by auto
    have "unq (?r @ t) = unq (c # (u @ t))" by (simp only: r append.simps)
    also have "\<dots> = map_option (apfst (append (take ?k (c # (u @ t))))) (unq (drop (?k - 1) (u @ t)))"
      using k(2) assms n by (simp add: r)
    also have "take ?k (c # (u @ t)) = ?r" using r by (simp flip: r(2))
    also have "drop (?k - 1) (u @ t) = t" by (simp flip: r(2))
    finally show ?thesis using False by (simp add: esc_rune_def)
  qed
qed

lemma unq_esc: "utf8_ok s \<Longrightarrow> unq (esc s @ CHR 0x22 # t) = Some (s, t)"
proof (induction s rule: utf8_ok.induct)
  case 1
  then show ?case by simp
next
  case (2 c s)
  have rest: "unq (esc (drop (rune_len (c # s) - 1) s) @ CHR 0x22 # t) = Some (drop (rune_len (c # s) - 1) s, t)"
    using 2 by simp
  show ?case
  proof (cases "byte_of c < 128")
    case True
    then show ?thesis using rest unq_ascii [OF True] by simp
  next
    case False
    have k: "rune_len (c # s) \<noteq> 0" using 2(2) by simp
    have "take (rune_len (c # s)) (c # s) @ drop (rune_len (c # s) - 1) s = c # s" using k by (cases "rune_len (c # s)") simp_all
    then show ?thesis using False k unq_rune [OF False k] rest by simp
  qed
qed

section \<open>Values come back\<close>

text \<open>What \<open>Marshal\<close> is given: valid strings and integers.\<close>

fun wf_json :: "json \<Rightarrow> bool" where
  "wf_json JNull = True"
| "wf_json (JBool b) = True"
| "wf_json (JNum s) = (\<exists>n. s = show_int n)"
| "wf_json (JString s) = utf8_ok s"
| "wf_json (JArr js) = (\<forall>j \<in> set js. wf_json j)"
| "wf_json (JObj kvs) = (\<forall>kv \<in> set kvs. utf8_ok (fst kv) \<and> wf_json (snd kv))"

text \<open>A text that does not continue a number.\<close>

definition stops :: "string \<Rightarrow> bool" where
  "stops r = (case r of [] \<Rightarrow> True | c # _ \<Rightarrow> \<not> is_digit c \<and> c \<noteq> CHR ''.'' \<and> c \<noteq> CHR ''e'' \<and> c \<noteq> CHR ''E'')"

lemma takeWhile_stops:
  assumes "list_all is_digit ds" and "stops r"
  shows "takeWhile is_digit (ds @ r) = ds" and "dropWhile is_digit (ds @ r) = r"
proof -
  have "takeWhile is_digit r = []" "dropWhile is_digit r = r"
    using assms(2) by (simp_all add: stops_def split: list.splits)
  then show "takeWhile is_digit (ds @ r) = ds" "dropWhile is_digit (ds @ r) = r"
    using assms(1) by (simp_all add: takeWhile_append2 dropWhile_append2 list_all_iff)
qed

lemma digit_0: "digit 0 = CHR ''0''"
  by (simp add: digit_def char_of_eq_iff)

lemma scan_nat_show:
  assumes "stops r"
  shows "scan_nat (show_nat n @ r) = Some (show_nat n, r)"
proof (cases "n = 0")
  case True
  then show ?thesis by (simp add: scan_nat_def show_nat.simps digit_0)
next
  case False
  obtain c t where s: "show_nat n = c # t" by (cases "show_nat n") simp_all
  then have "c \<noteq> CHR ''0''" using hd_show_nat [of n] False by (simp add: digit_0)
  then have "scan_nat (show_nat n @ r) = scan_digits (show_nat n @ r)" by (simp add: scan_nat_def s)
  then show ?thesis using takeWhile_stops [OF show_nat_digits assms, of n] by (simp add: scan_digits_def)
qed

lemma is_digit_not:
  assumes "is_digit c"
  shows "c \<noteq> CHR ''-''" "c \<noteq> CHR ''{''" "c \<noteq> CHR ''}''" "c \<noteq> CHR ''[''" "c \<noteq> CHR '']''" "c \<noteq> CHR ''n''" "c \<noteq> CHR ''t''" "c \<noteq> CHR ''f''"
    "byte_of c \<noteq> 34" "\<not> is_space c"
  using assms by (auto simp: is_digit_def is_space_def)

lemma show_nat_hd: obtains c t where "show_nat n = c # t" and "is_digit c"
  using show_nat_digits [of n] that by (cases "show_nat n") simp_all

lemma scan_num_show:
  assumes "stops r"
  shows "scan_num (show_int n @ r) = Some (show_int n, r)"
proof -
  have fe: "scan_frac r = Some ([], r)" "scan_exp r = Some ([], r)"
    using assms by (auto simp: scan_frac_def scan_exp_def stops_def split: list.splits)
  obtain c t where c: "show_nat (nat n) = c # t" "is_digit c" by (rule show_nat_hd)
  show ?thesis
    using is_digit_not(1) [OF c(2)] c(1) scan_nat_show [OF assms, of "nat n"] scan_nat_show [OF assms, of "nat (- n)"]
    by (simp add: scan_num_def show_int_def fe)
qed

lemma show_int_hd: obtains c t where "show_int n = c # t" and "c = CHR ''-'' \<or> is_digit c"
proof (cases "n < 0")
  case True
  then show ?thesis using that by (simp add: show_int_def)
next
  case False
  then show ?thesis using that show_nat_hd [of "nat n"] by (metis show_int_def)
qed

lemma skip_ws_id: "\<not> is_space c \<Longrightarrow> skip_ws (c # s) = c # s"
  by (simp add: skip_ws_def)

lemma jprint_hd:
  assumes "wf_json j"
  obtains c t where "jprint j = c # t" and "\<not> is_space c" and "c \<noteq> CHR '']''" and "c \<noteq> CHR ''}''"
proof (cases j)
  case (JNum s)
  then obtain n where n: "s = show_int n" using assms by auto
  obtain c t where "show_int n = c # t" "c = CHR ''-'' \<or> is_digit c" by (rule show_int_hd)
  then show ?thesis using that is_digit_not [of c] JNum n by (auto simp: is_space_def)
next
  case (JArr js)
  then show ?thesis using that by (cases js) (auto simp: is_space_def)
next
  case (JObj kvs)
  then show ?thesis using that by (cases kvs) (auto simp: is_space_def)
next
  case (JBool b)
  then show ?thesis using that by (cases b) (simp_all add: is_space_def)
qed (use that in \<open>auto simp: is_space_def quoted_def split: if_splits\<close>)

lemma skip_ws_jprint: "wf_json j \<Longrightarrow> skip_ws (jprint j @ r) = jprint j @ r"
  by (metis append_Cons jprint_hd skip_ws_id)

lemma expect_id: "\<not> is_space d \<Longrightarrow> expect c (d # s) = (if d = c then Some s else None)"
  by (simp add: expect_def skip_ws_id)

lemma not_space [simp]:
  "\<not> is_space (CHR '','')" "\<not> is_space (CHR '':'')" "\<not> is_space (CHR ''['')" "\<not> is_space (CHR '']'')"
  "\<not> is_space (CHR ''{'')" "\<not> is_space (CHR ''}'')" "\<not> is_space (CHR 0x22)"
  by (simp_all add: is_space_def)

lemma stops_sep: "stops (CHR '','' # s)" "stops (CHR '']'' # s)" "stops (CHR ''}'' # s)"
  by (simp_all add: stops_def is_digit_def)

lemma print_stops: "stops (print_elems js @ r)" "stops (print_members kvs @ r)"
  by (cases js; simp add: stops_sep) (cases kvs; auto simp: stops_sep)

lemma jprint_ne: "wf_json j \<Longrightarrow> 0 < length (jprint j)"
  by (metis jprint_hd length_greater_0_conv list.discI)

lemma print_ne: "0 < length (print_elems js)" "0 < length (print_members kvs)"
  by (cases js; simp) (cases kvs; auto)

lemma split_fuel:
  assumes "0 < a" and "0 < b" and "a + b < (n :: nat)"
  obtains m where "n = Suc (Suc m)" and "a \<le> m" and "b \<le> m"
  by (rule that [of "n - 2"]) (use assms in auto)

text \<open>What the loops do after a value.\<close>

definition more_elems :: "nat \<Rightarrow> json \<Rightarrow> string \<Rightarrow> (json list \<times> string) option" where
  "more_elems n j u =
     (case expect (CHR '']'') u of
        Some v \<Rightarrow> Some ([j], v)
      | None \<Rightarrow> (case expect (CHR '','') u of None \<Rightarrow> None | Some v \<Rightarrow> map_option (apfst (Cons j)) (p_elems n v)))"

definition more_members :: "nat \<Rightarrow> string \<times> json \<Rightarrow> string \<Rightarrow> ((string \<times> json) list \<times> string) option" where
  "more_members n kv u =
     (case expect (CHR ''}'') u of
        Some v \<Rightarrow> Some ([kv], v)
      | None \<Rightarrow> (case expect (CHR '','') u of None \<Rightarrow> None | Some v \<Rightarrow> map_option (apfst (Cons kv)) (p_members n v)))"

lemma p_elems_step: "p_val n s = Some (j, u) \<Longrightarrow> p_elems (Suc n) s = more_elems n j u"
  by (simp add: more_elems_def)

lemma p_members_step:
  assumes "utf8_ok k" and "p_val n v = Some (j, u)"
  shows "p_members (Suc n) (quoted k @ CHR '':'' # v) = more_members n (k, j) u"
  using assms by (simp add: more_members_def quoted_def expect_id unq_esc)

lemma p_val_jprint:
  "wf_json j \<Longrightarrow> stops r \<Longrightarrow> length (jprint j) \<le> n \<Longrightarrow> p_val n (jprint j @ r) = Some (j, r)"
  "\<forall>j \<in> set js. wf_json j \<Longrightarrow> length (print_elems js) \<le> n \<Longrightarrow> more_elems n x (print_elems js @ r) = Some (x # js, r)"
  "\<forall>kv \<in> set kvs. utf8_ok (fst kv) \<and> wf_json (snd kv) \<Longrightarrow> length (print_members kvs) \<le> n \<Longrightarrow>
    more_members n y (print_members kvs @ r) = Some (y # kvs, r)"
proof (induction j and js and kvs arbitrary: n r and n x r and n y r rule: jprint_print_elems_print_members.induct)
  case 1
  then show ?case by (cases n) (simp_all add: skip_ws_def scan_word_def is_space_def)
next
  case (2 b)
  then show ?case by (cases n; cases b) (simp_all add: skip_ws_def scan_word_def is_space_def)
next
  case (3 s)
  then obtain m where m: "s = show_int m" by auto
  obtain c t where c: "show_int m = c # t" "c = CHR ''-'' \<or> is_digit c" by (rule show_int_hd)
  have d: "c \<noteq> CHR ''{''" "c \<noteq> CHR ''['' \<and> byte_of c \<noteq> 34" "c \<noteq> CHR ''n'' \<and> c \<noteq> CHR ''t'' \<and> c \<noteq> CHR ''f''" "\<not> is_space c"
    using c(2) is_digit_not [of c] by (auto simp: is_space_def)
  obtain k where n: "n = Suc k" using 3 m c by (cases n) simp_all
  show ?case using scan_num_show [OF 3(2), of m] d c(1) by (simp add: m n skip_ws_id)
next
  case (4 s)
  then show ?case by (cases n) (simp_all add: quoted_def skip_ws_id unq_esc)
next
  case 5
  then show ?case by (cases n) (simp_all add: skip_ws_id expect_id)
next
  case (6 j js)
  obtain m where n: "n = Suc (Suc m)" and len: "length (jprint j) \<le> m" "length (print_elems js) \<le> m"
    by (rule split_fuel [of "length (jprint j)" "length (print_elems js)" n]) (use 6(3-5) jprint_ne print_ne in auto)
  have v: "p_val m (jprint j @ print_elems js @ r) = Some (j, print_elems js @ r)"
    using 6(1) [of "print_elems js @ r" m] 6(3) len by (simp add: print_stops)
  have e: "expect (CHR '']'') (jprint j @ print_elems js @ r) = None"
    using 6(3) jprint_hd [of j] by (metis append_Cons expect_id list.set_intros(1) wf_json.simps(5))
  have "p_elems (Suc m) (jprint j @ print_elems js @ r) = Some (j # js, r)"
    using p_elems_step [OF v] 6(2) [of m j r] 6(3) len by simp
  then show ?case by (simp add: n skip_ws_id e del: p_elems.simps)
next
  case 7
  then show ?case by (cases n) (simp_all add: skip_ws_id expect_id)
next
  case (8 k j kvs)
  obtain m where n: "n = Suc (Suc m)" and len: "length (jprint j) \<le> m" "length (print_members kvs) \<le> m"
    by (rule split_fuel [of "length (jprint j)" "length (print_members kvs)" n]) (use 8(3-5) jprint_ne print_ne in \<open>auto simp: quoted_def\<close>)
  have v: "p_val m (jprint j @ print_members kvs @ r) = Some (j, print_members kvs @ r)"
    using 8(1) [of "print_members kvs @ r" m] 8(3) len by (simp add: print_stops)
  have e: "expect (CHR ''}'') (quoted k @ CHR '':'' # jprint j @ print_members kvs @ r) = None"
    by (simp add: quoted_def expect_id)
  have "p_members (Suc m) (quoted k @ CHR '':'' # jprint j @ print_members kvs @ r) = Some ((k, j) # kvs, r)"
    using p_members_step [OF _ v, of k] 8(2) [of m "(k, j)" r] 8(3) len by simp
  then show ?case by (simp add: n skip_ws_id e del: p_members.simps)
next
  case 9
  then show ?case by (simp add: more_elems_def expect_id)
next
  case (10 j js)
  obtain m where n: "n = Suc m" and len: "length (jprint j) \<le> m" "length (print_elems js) \<le> m"
    by (rule split_fuel [of "length (jprint j)" "length (print_elems js)" "Suc n"]) (use 10(3,4) jprint_ne print_ne in auto)
  have v: "p_val m (jprint j @ print_elems js @ r) = Some (j, print_elems js @ r)"
    using 10(1) [of "print_elems js @ r" m] 10(3) len by (simp add: print_stops)
  show ?case
    using p_elems_step [OF v] 10(2) [of m j r] 10(3) len by (simp add: more_elems_def [of "Suc m"] n expect_id del: p_elems.simps)
next
  case 11
  then show ?case by (simp add: more_members_def expect_id)
next
  case (12 k j kvs)
  obtain m where n: "n = Suc m" and len: "length (jprint j) \<le> m" "length (print_members kvs) \<le> m"
    by (rule split_fuel [of "length (jprint j)" "length (print_members kvs)" "Suc n"]) (use 12(3,4) jprint_ne print_ne in \<open>auto simp: quoted_def\<close>)
  have v: "p_val m (jprint j @ print_members kvs @ r) = Some (j, print_members kvs @ r)"
    using 12(1) [of "print_members kvs @ r" m] 12(3) len by (simp add: print_stops)
  show ?case
    using p_members_step [OF _ v, of k] 12(2) [of m "(k, j)" r] 12(3) len
    by (simp add: more_members_def [of "Suc m"] n expect_id del: p_members.simps)
qed

text \<open>\<open>Unmarshal\<close> reads back every value that \<open>Marshal\<close> wrote.\<close>

lemma json_parse_jprint:
  assumes "wf_json j"
  shows "json_parse (jprint j) = Some j"
  using p_val_jprint(1) [OF assms, of "[]" "Suc (length (jprint j))"]
  by (simp add: json_parse_def stops_def skip_ws_def)

section \<open>The bound is enough\<close>

text \<open>Every piece of the parser takes at least one character.\<close>

lemma unq_shorter: "unq s = Some (x, r) \<Longrightarrow> length r < length s"
proof (induction s arbitrary: x r rule: unq.induct)
  case (2 c s)
  note IH = 2(1-5)
  show ?case
  proof (cases "byte_of c = 92 \<and> s \<noteq> []")
    case True
    then obtain e t where s: "s = e # t" by (cases s) auto
    show ?thesis
    proof (cases "e = CHR ''u''")
      case True
      then obtain y k where u: "u_escape t = Some (y, k)" using 2(6) s \<open>byte_of c = 92 \<and> s \<noteq> []\<close> by (auto split: option.splits)
      obtain z where "unq (drop k t) = Some (z, r)"
        using 2(6) s u True \<open>byte_of c = 92 \<and> s \<noteq> []\<close> by (auto split: option.splits)
      then have "length r < length (drop k t)"
        using IH(1) [OF _ _ _ s True u refl] \<open>byte_of c = 92 \<and> s \<noteq> []\<close> by simp
      then show ?thesis using s by simp
    next
      case False
      then obtain d where d: "simple_escape e = Some d" using 2(6) s \<open>byte_of c = 92 \<and> s \<noteq> []\<close> by (auto split: option.splits)
      obtain z where "unq t = Some (z, r)"
        using 2(6) s d False \<open>byte_of c = 92 \<and> s \<noteq> []\<close> by (auto split: option.splits)
      then have "length r < length t"
        using IH(2) [OF _ _ _ s False d] \<open>byte_of c = 92 \<and> s \<noteq> []\<close> by simp
      then show ?thesis using s by simp
    qed
  next
    case False
    show ?thesis
    proof (cases "byte_of c = 34")
      case True
      then show ?thesis using 2(6) by simp
    next
      case n34: False
      have n: "\<not> byte_of c < 32" "byte_of c \<noteq> 92" using 2(6) n34 False by (auto split: if_splits)
      show ?thesis
      proof (cases "byte_of c < 128 \<or> rune_len (c # s) = 0")
        case True
        then obtain z where "unq s = Some (z, r)" using 2(6) n34 n by (auto split: if_splits)
        then show ?thesis using IH(3,4) n34 n True by fastforce
      next
        case big: False
        then obtain z where "unq (drop (rune_len (c # s) - 1) s) = Some (z, r)" using 2(6) n34 n by auto
        then have "length r < length (drop (rune_len (c # s) - 1) s)" using IH(5) n34 n big by simp
        then show ?thesis by simp
      qed
    qed
  qed
qed simp

lemma skip_ws_le: "length (skip_ws s) \<le> length s"
  by (simp add: skip_ws_def length_dropWhile_le)

lemma expect_shorter: "expect c s = Some t \<Longrightarrow> length t < length s"
  using skip_ws_le [of s] by (auto simp: expect_def split: list.splits if_splits)

lemma scan_digits_shorter: "scan_digits s = Some (x, r) \<Longrightarrow> length r < length s"
proof -
  assume "scan_digits s = Some (x, r)"
  then have "takeWhile is_digit s \<noteq> []" "r = dropWhile is_digit s" by (auto simp: scan_digits_def split: if_splits)
  moreover have "length (takeWhile is_digit s) + length (dropWhile is_digit s) = length s"
    by (metis length_append takeWhile_dropWhile_id)
  ultimately show ?thesis by (metis less_add_same_cancel2 length_greater_0_conv)
qed

lemma scan_num_shorter: "scan_num s = Some (x, r) \<Longrightarrow> length r < length s"
proof -
  assume a: "scan_num s = Some (x, r)"
  define s1 where "s1 = (case s of c # t \<Rightarrow> if c = CHR ''-'' then t else s | [] \<Rightarrow> s)"
  obtain i s2 f s3 e where n: "scan_nat s1 = Some (i, s2)" and f: "scan_frac s2 = Some (f, s3)" and e: "scan_exp s3 = Some (e, r)"
    using a by (cases s) (auto simp: scan_num_def s1_def Let_def bind_eq_Some_conv split: if_splits)
  have "length s1 \<le> length s" by (simp add: s1_def split: list.splits)
  moreover have "length s2 < length s1" using n by (auto simp: scan_nat_def split: list.splits if_splits dest!: scan_digits_shorter)
  moreover have "length s3 \<le> length s2"
    using f by (auto simp: scan_frac_def split: list.splits if_splits dest!: scan_digits_shorter)
  moreover have "length r \<le> length s3"
    using e by (auto simp: scan_exp_def split: list.splits if_splits dest!: scan_digits_shorter)
  ultimately show ?thesis by simp
qed

lemma scan_word_shorter: "scan_word w j s = Some (x, r) \<Longrightarrow> w \<noteq> [] \<Longrightarrow> length r < length s"
  by (cases s; cases w) (auto simp: scan_word_def split: if_splits)

lemmas shorter = unq_shorter expect_shorter scan_num_shorter scan_word_shorter

lemma p_shorter:
  "p_val n s = Some (j, r) \<Longrightarrow> length r < length s"
  "p_elems n s = Some (js, r) \<Longrightarrow> length r < length s"
  "p_members n s = Some (kvs, r) \<Longrightarrow> length r < length s"
proof (induction n s and n s and n s arbitrary: j r and js r and kvs r rule: p_val_p_elems_p_members.induct)
  case (2 n s)
  obtain c t where c: "skip_ws s = c # t" using 2(3) by (cases "skip_ws s") simp_all
  have "length r < length (c # t)"
    using 2(3) c 2(1,2) by (fastforce split: if_splits option.splits dest: shorter)
  then show ?case using skip_ws_le [of s] c by simp
next
  case (4 n s)
  obtain j u where v: "p_val n s = Some (j, u)" using 4(3) by (cases "p_val n s") auto
  have "length r < length u"
    using 4(3) 4(2) v by (fastforce split: option.splits dest: expect_shorter)
  then show ?case using 4(1) [OF v] by simp
next
  case (6 n s)
  obtain t k u v j w where e: "expect (CHR 0x22) s = Some t" "unq t = Some (k, u)" "expect (CHR '':'') u = Some v" "p_val n v = Some (j, w)"
    and m: "(case expect (CHR ''}'') w of Some x \<Rightarrow> Some ([(k, j)], x) | None \<Rightarrow> (case expect (CHR '','') w of
           None \<Rightarrow> None | Some x \<Rightarrow> map_option (apfst (Cons (k, j))) (p_members n x))) = Some (kvs, r)"
    using 6(3) by (auto simp: bind_eq_Some_conv)
  have "length w < length v" using 6(1) [OF e(1,2) refl e(3,4)] .
  moreover have "length r < length w" using m 6(2) [OF e(1,2) refl e(3,4) refl] by (fastforce split: option.splits dest: expect_shorter)
  ultimately show ?case using shorter(1) [OF e(2)] expect_shorter [OF e(1)] expect_shorter [OF e(3)] by simp
qed simp_all

text \<open>So a bound of the characters taken is enough, and a larger one changes nothing.\<close>

lemma p_enough:
  "p_val m s = Some (j, r) \<Longrightarrow> length s \<le> n + length r \<Longrightarrow> p_val n s = Some (j, r)"
  "p_elems m s = Some (js, r) \<Longrightarrow> length s \<le> n + length r \<Longrightarrow> p_elems n s = Some (js, r)"
  "p_members m s = Some (kvs, r) \<Longrightarrow> length s \<le> n + length r \<Longrightarrow> p_members n s = Some (kvs, r)"
proof (induction m s and m s and m s arbitrary: j r n and js r n and kvs r n rule: p_val_p_elems_p_members.induct)
  case (2 m s)
  obtain c t where c: "skip_ws s = c # t" using 2(3) by (cases "skip_ws s") simp_all
  have "length r < length s" using p_shorter(1) [OF 2(3)] .
  then obtain k where n: "n = Suc k" using 2(4) by (cases n) simp_all
  have "length t \<le> k + length r" using 2(4) skip_ws_le [of s] by (simp add: c n)
  show ?case
  proof (cases "c = CHR ''{'' \<and> expect (CHR ''}'') t = None")
    case True
    then obtain kvs where "p_members m t = Some (kvs, r)" "j = JObj kvs" using 2(3) c by auto
    then show ?thesis using 2(1) [OF c _ _ _ \<open>length t \<le> k + length r\<close>] True c n by simp
  next
    case F: False
    show ?thesis
    proof (cases "c = CHR ''['' \<and> expect (CHR '']'') t = None")
      case True
      then obtain js where "p_elems m t = Some (js, r)" "j = JArr js" using 2(3) c by auto
      then show ?thesis using 2(2) [OF c _ _ _ _ \<open>length t \<le> k + length r\<close>] True c n by simp
    next
      case False
      then have "p_val n s = p_val (Suc m) s" using F c n by (auto split: option.splits)
      then show ?thesis using 2(3) by simp
    qed
  qed
next
  case (4 m s)
  obtain j u where v: "p_val m s = Some (j, u)" using 4(3) by (cases "p_val m s") auto
  have "length u < length s" using p_shorter(1) [OF v] .
  have "length r < length s" using p_shorter(2) [OF 4(3)] .
  then obtain k where n: "n = Suc k" using 4(4) by (cases n) simp_all
  show ?case
  proof (cases "expect (CHR '']'') u")
    case (Some x)
    then have "length r < length u" using 4(3) v expect_shorter by auto
    then have "p_val k s = Some (j, u)" using 4(1) [OF v] 4(4) n by simp
    then show ?thesis using Some 4(3) v n by simp
  next
    case None
    then obtain x js' where x: "expect (CHR '','') u = Some x" "p_elems m x = Some (js', r)" "js = j # js'"
      using 4(3) v by (auto split: option.splits)
    have "length x < length u" "length r < length x" using expect_shorter [OF x(1)] p_shorter(2) [OF x(2)] by simp_all
    then have "p_val k s = Some (j, u)" "p_elems k x = Some (js', r)"
      using 4(1) [OF v, of k] 4(2) [OF v refl None x(1,2), of k] 4(4) n \<open>length u < length s\<close> by simp_all
    then show ?thesis using None x n by simp
  qed
next
  case (6 m s)
  obtain t k u v j w where e: "expect (CHR 0x22) s = Some t" "unq t = Some (k, u)" "expect (CHR '':'') u = Some v" "p_val m v = Some (j, w)"
    and mr: "(case expect (CHR ''}'') w of Some x \<Rightarrow> Some ([(k, j)], x) | None \<Rightarrow> (case expect (CHR '','') w of
           None \<Rightarrow> None | Some x \<Rightarrow> map_option (apfst (Cons (k, j))) (p_members m x))) = Some (kvs, r)"
    using 6(3) by (auto simp: bind_eq_Some_conv)
  have lens: "length t < length s" "length u < length t" "length v < length u" "length w < length v"
    using expect_shorter [OF e(1)] unq_shorter [OF e(2)] expect_shorter [OF e(3)] p_shorter(1) [OF e(4)] by simp_all
  have "length r < length s" using p_shorter(3) [OF 6(3)] .
  then obtain i where n: "n = Suc i" using 6(4) by (cases n) simp_all
  show ?case
  proof (cases "expect (CHR ''}'') w")
    case (Some x)
    then have "length r < length w" using mr expect_shorter by auto
    then have "p_val i v = Some (j, w)" using 6(1) [OF e(1,2) refl e(3,4), of i] 6(4) n lens by simp
    then show ?thesis using Some mr e n by simp
  next
    case None
    then obtain x kvs' where x: "expect (CHR '','') w = Some x" "p_members m x = Some (kvs', r)" "kvs = (k, j) # kvs'"
      using mr by (auto split: option.splits)
    have "length x < length w" "length r < length x" using expect_shorter [OF x(1)] p_shorter(3) [OF x(2)] by simp_all
    then have "p_val i v = Some (j, w)" "p_members i x = Some (kvs', r)"
      using 6(1) [OF e(1,2) refl e(3,4), of i] 6(2) [OF e(1,2) refl e(3,4) refl None x(1,2), of i] 6(4) n lens by simp_all
    then show ?thesis using None x e n by simp
  qed
qed simp_all

lemma json_parse_bound:
  "json_parse s = Some j \<longleftrightarrow> (\<exists>m r. p_val m s = Some (j, r) \<and> skip_ws r = [])"
proof
  assume "\<exists>m r. p_val m s = Some (j, r) \<and> skip_ws r = []"
  then obtain m r where r: "p_val m s = Some (j, r)" "skip_ws r = []" by blast
  then have "p_val (Suc (length s)) s = Some (j, r)" using p_enough(1) [OF r(1), of "Suc (length s)"] by simp
  then show "json_parse s = Some j" using r(2) by (simp add: json_parse_def del: p_val.simps)
next
  assume "json_parse s = Some j"
  then obtain r where "p_val (Suc (length s)) s = Some (j, r)" "skip_ws r = []"
    by (auto simp: json_parse_def simp del: p_val.simps split: option.splits if_splits)
  then show "\<exists>m r. p_val m s = Some (j, r) \<and> skip_ws r = []" by blast
qed

section \<open>Decoded strings are valid\<close>

lemma utf8_ok_append: "utf8_ok a \<Longrightarrow> utf8_ok b \<Longrightarrow> utf8_ok (a @ b)"
proof (induction a rule: utf8_ok.induct)
  case (2 c s)
  let ?k = "rune_len (c # s)"
  have k: "?k \<noteq> 0" using 2(2) by simp
  have "rune_len (take ?k (c # s) @ drop ?k (c # s) @ b) = ?k" "?k \<le> length (c # s)" using rune_len_prefix [OF k] by blast+
  then have "rune_len (c # s @ b) = ?k" "drop (?k - 1) (s @ b) = drop (?k - 1) s @ b"
    using k by (simp_all flip: append_assoc)
  then show ?case using 2 by simp
qed simp

lemma in_range_char_of: "n < 256 \<Longrightarrow> in_range lo hi (char_of n) \<longleftrightarrow> lo \<le> n \<and> n \<le> hi"
  by (simp add: in_range_def)

lemma code_char_of: "n < 256 \<Longrightarrow> byte_of (char_of n) = n"
  by simp

lemma rune_len_encoded:
  fixes a d e f :: nat
  shows "2 \<le> a \<Longrightarrow> a < 32 \<Longrightarrow> d < 64 \<Longrightarrow> rune_len [char_of (192 + a), char_of (128 + d)] = 2"
  "a < 16 \<Longrightarrow> d < 64 \<Longrightarrow> e < 64 \<Longrightarrow> (a = 0 \<Longrightarrow> 32 \<le> d) \<Longrightarrow> (a = 13 \<Longrightarrow> d < 32) \<Longrightarrow>
    rune_len [char_of (224 + a), char_of (128 + d), char_of (128 + e)] = 3"
  "a \<le> 4 \<Longrightarrow> d < 64 \<Longrightarrow> e < 64 \<Longrightarrow> f < 64 \<Longrightarrow> (a = 0 \<Longrightarrow> 16 \<le> d) \<Longrightarrow> (a = 4 \<Longrightarrow> d < 16) \<Longrightarrow>
    rune_len [char_of (240 + a), char_of (128 + d), char_of (128 + e), char_of (128 + f)] = 4"
  unfolding rune_len.simps list.case
  by (auto simp: in_range_char_of code_char_of simp del: of_char_of)

lemma mod_offset: "q = k * 64 + x \<Longrightarrow> x < 64 \<Longrightarrow> q mod 64 = (x :: nat)"
  by simp

lemma utf8_encode_ok:
  assumes "r < 1114112" and "\<not> (55296 \<le> r \<and> r \<le> 57343)"
  shows "utf8_ok (utf8_encode r)"
proof -
  consider "r < 128" | "128 \<le> r" "r < 2048" | "2048 \<le> r" "r < 65536" | "65536 \<le> r" by linarith
  then show ?thesis
  proof cases
    case 1
    then show ?thesis by (simp add: utf8_encode_def)
  next
    case 2
    have "rune_len [char_of (192 + r div 64), char_of (128 + r mod 64)] = 2"
      by (rule rune_len_encoded(1)) (use 2 in \<open>simp_all add: div_less_iff_less_mult less_eq_div_iff_mult_less_eq\<close>)
    then show ?thesis using 2 by (simp add: utf8_encode_def)
  next
    case 3
    have "rune_len [char_of (224 + r div 4096), char_of (128 + r div 64 mod 64), char_of (128 + r mod 64)] = 3"
    proof (rule rune_len_encoded(2))
      show "32 \<le> r div 64 mod 64" if "r div 4096 = 0" using that 3 by (simp add: div_eq_0_iff less_eq_div_iff_mult_less_eq div_less_iff_less_mult)
      show "r div 64 mod 64 < 32" if "r div 4096 = 13"
      proof -
        have "r = 13 * 4096 + r mod 4096" "r mod 4096 < 4096" using div_mult_mod_eq [of r 4096] that by simp_all
        then have r: "53248 \<le> r" "r < 864 * 64" using assms(2) by linarith+
        have "832 \<le> r div 64" using div_le_mono [OF r(1), of 64] by simp
        moreover have "r div 64 < 864" using r(2) by (rule less_mult_imp_div_less)
        ultimately have q: "r div 64 = 13 * 64 + (r div 64 - 832)" "r div 64 - 832 < 32" by linarith+
        have "r div 64 mod 64 = r div 64 - 832" by (rule mod_offset [OF q(1)]) (use q(2) in linarith)
        then show ?thesis using q(2) by (simp only:)
      qed
    qed (use 3 in \<open>simp_all add: div_less_iff_less_mult\<close>)
    then show ?thesis using 3 by (simp add: utf8_encode_def)
  next
    case 4
    have "rune_len [char_of (240 + r div 262144), char_of (128 + r div 4096 mod 64), char_of (128 + r div 64 mod 64),
        char_of (128 + r mod 64)] = 4"
    proof (rule rune_len_encoded(3))
      show "16 \<le> r div 4096 mod 64" if "r div 262144 = 0" using that 4 by (simp add: div_eq_0_iff less_eq_div_iff_mult_less_eq div_less_iff_less_mult)
      show "r div 4096 mod 64 < 16" if "r div 262144 = 4"
      proof -
        have "r = 4 * 262144 + r mod 262144" using div_mult_mod_eq [of r 262144] that by simp
        then have r: "1048576 \<le> r" "r < 272 * 4096" using assms(1) by linarith+
        have "256 \<le> r div 4096" using div_le_mono [OF r(1), of 4096] by simp
        moreover have "r div 4096 < 272" using r(2) by (rule less_mult_imp_div_less)
        ultimately have q: "r div 4096 = 4 * 64 + (r div 4096 - 256)" "r div 4096 - 256 < 16" by linarith+
        have "r div 4096 mod 64 = r div 4096 - 256" by (rule mod_offset [OF q(1)]) (use q(2) in linarith)
        then show ?thesis using q(2) by (simp only:)
      qed
    qed (use assms(1) in \<open>simp_all add: less_Suc_eq_le [symmetric] div_less_iff_less_mult\<close>)
    then show ?thesis using 4 by (simp add: utf8_encode_def)
  qed
qed

lemma hex_val_bound: "hex_val c = Some d \<Longrightarrow> d < 16"
  by (auto simp: hex_val_def in_range_def split: if_splits)

lemma hex4_bound:
  assumes "hex4 s = Some r"
  shows "r < 65536"
proof -
  obtain w x y z where r: "r = ((w * 16 + x) * 16 + y) * 16 + z" and b: "w < 16" "x < 16" "y < 16" "z < 16"
    using assms by (cases s rule: hex4.cases) (auto split: option.splits dest!: hex_val_bound)
  have step: "a * 16 + d < 16 * n" if "a < n" "d < 16" for a d n :: nat
  proof -
    have "Suc a * 16 \<le> n * 16" using that(1) by (intro mult_le_mono1) simp
    then show ?thesis using that(2) by simp
  qed
  show ?thesis unfolding r using step [OF step [OF step [OF b(1,2)] b(3)] b(4)] by simp
qed

lemma replacement_ok: "utf8_ok replacement"
proof -
  have "rune_len replacement = 3" by (simp add: replacement_def rune_len.simps in_range_def)
  then show ?thesis by (simp add: replacement_def)
qed

lemma u_escape_ok:
  assumes "u_escape s = Some (x, k)"
  shows "utf8_ok x"
proof -
  obtain r where r: "hex4 s = Some r" using assms by (cases "hex4 s") (simp_all add: u_escape_def)
  show ?thesis
  proof (cases "55296 \<le> r \<and> r \<le> 57343")
    case True
    show ?thesis
    proof (cases "x = replacement")
      case False
      then obtain q where "x = utf8_encode (65536 + (r - 55296) * 1024 + (q - 56320))" "r < 56320" "56320 \<le> q" "q \<le> 57343"
        using assms r True by (auto simp: u_escape_def split: option.splits bool.splits if_splits)
      then show ?thesis using utf8_encode_ok [of "65536 + (r - 55296) * 1024 + (q - 56320)"] True by auto
    qed (simp add: replacement_ok)
  next
    case False
    then show ?thesis using assms r utf8_encode_ok [of r] hex4_bound [OF r] by (auto simp: u_escape_def)
  qed
qed

lemma utf8_ok_Cons: "byte_of c < 128 \<Longrightarrow> utf8_ok (c # s) = utf8_ok s"
  by simp

lemma utf8_ok_rune: "rune_len s \<noteq> 0 \<Longrightarrow> utf8_ok (take (rune_len s) s)"
proof (cases s)
  case (Cons c u)
  assume k: "rune_len s \<noteq> 0"
  have "rune_len (take (rune_len s) s @ []) = rune_len s" "rune_len s \<le> length s" using rune_len_prefix [OF k] by blast+
  then show ?thesis using k Cons by (cases "rune_len s") simp_all
qed simp

lemma simple_escape_ascii: "simple_escape e = Some d \<Longrightarrow> byte_of d < 128"
  by (auto simp: simple_escape_def Let_def split: if_splits)

lemma unq_ok: "unq s = Some (x, r) \<Longrightarrow> utf8_ok x"
proof (induction s arbitrary: x r rule: unq.induct)
  case (2 c s)
  note IH = 2(1-5) and d = 2(6)
  consider "byte_of c = 34" | "byte_of c = 92" | "byte_of c \<noteq> 34" "byte_of c \<noteq> 92" "\<not> byte_of c < 32" "byte_of c < 128"
    | "byte_of c \<noteq> 34" "byte_of c \<noteq> 92" "\<not> byte_of c < 32" "\<not> byte_of c < 128" "rune_len (c # s) = 0"
    | "byte_of c \<noteq> 34" "byte_of c \<noteq> 92" "\<not> byte_of c < 32" "\<not> byte_of c < 128" "rune_len (c # s) \<noteq> 0"
    using d by (cases "byte_of c < 32") (auto split: if_splits)
  then show ?case
  proof cases
    case 1
    then show ?thesis using d by simp
  next
    case 2
    then obtain e t where s: "s = e # t" using d by (cases s) auto
    show ?thesis
    proof (cases "e = CHR ''u''")
      case True
      then obtain y k z where u: "u_escape t = Some (y, k)" "unq (drop k t) = Some (z, r)" "x = y @ z"
        using d s 2 by (auto split: option.splits)
      then have "utf8_ok z" using IH(1) [OF _ _ _ s True u(1) refl] 2 by simp
      then show ?thesis using u u_escape_ok utf8_ok_append by blast
    next
      case False
      then obtain a z where u: "simple_escape e = Some a" "unq t = Some (z, r)" "x = a # z"
        using d s 2 by (auto split: option.splits)
      then have "utf8_ok z" using IH(2) [OF _ _ _ s False u(1)] 2 by simp
      then show ?thesis using u simple_escape_ascii utf8_ok_Cons by blast
    qed
  next
    case 3
    then obtain z where "unq s = Some (z, r)" "x = c # z" using d by auto
    then show ?thesis using IH(3) 3 by simp
  next
    case 4
    then obtain z where "unq s = Some (z, r)" "x = replacement @ z" using d by auto
    then show ?thesis using IH(4) 4 replacement_ok utf8_ok_append by simp
  next
    case 5
    then obtain z where "unq (drop (rune_len (c # s) - 1) s) = Some (z, r)" "x = take (rune_len (c # s)) (c # s) @ z" using d by auto
    then show ?thesis using IH(5) 5 utf8_ok_rune utf8_ok_append by simp
  qed
qed simp

fun strings_ok :: "json \<Rightarrow> bool" where
  "strings_ok (JString s) = utf8_ok s"
| "strings_ok (JArr js) = (\<forall>j \<in> set js. strings_ok j)"
| "strings_ok (JObj kvs) = (\<forall>kv \<in> set kvs. utf8_ok (fst kv) \<and> strings_ok (snd kv))"
| "strings_ok _ = True"

lemma p_ok:
  "p_val n s = Some (j, r) \<Longrightarrow> strings_ok j"
  "p_elems n s = Some (js, r) \<Longrightarrow> \<forall>j \<in> set js. strings_ok j"
  "p_members n s = Some (kvs, r) \<Longrightarrow> \<forall>kv \<in> set kvs. utf8_ok (fst kv) \<and> strings_ok (snd kv)"
proof (induction n s and n s and n s arbitrary: j r and js r and kvs r rule: p_val_p_elems_p_members.induct)
  case (2 n s)
  obtain c t where c: "skip_ws s = c # t" using 2(3) by (cases "skip_ws s") simp_all
  show ?case using 2 c by (fastforce simp: scan_word_def split: if_splits option.splits dest: unq_ok)
next
  case (4 n s)
  obtain j u where v: "p_val n s = Some (j, u)" using 4(3) by (cases "p_val n s") auto
  then show ?case using 4 by (fastforce split: option.splits)
next
  case (6 n s)
  obtain t k u v j w where e: "expect (CHR 0x22) s = Some t" "unq t = Some (k, u)" "expect (CHR '':'') u = Some v" "p_val n v = Some (j, w)"
    and m: "(case expect (CHR ''}'') w of Some x \<Rightarrow> Some ([(k, j)], x) | None \<Rightarrow> (case expect (CHR '','') w of
           None \<Rightarrow> None | Some x \<Rightarrow> map_option (apfst (Cons (k, j))) (p_members n x))) = Some (kvs, r)"
    using 6(3) by (auto simp: bind_eq_Some_conv)
  have "strings_ok j" using 6(1) [OF e(1,2) refl e(3,4)] .
  then show ?case using m 6(2) [OF e(1,2) refl e(3,4) refl] unq_ok [OF e(2)] by (fastforce split: option.splits)
qed simp_all

lemma json_parse_ok: "json_parse s = Some j \<Longrightarrow> strings_ok j"
  using p_ok(1) by (auto simp: json_parse_def simp del: p_val.simps split: option.splits if_splits)

end
