(* ===== verification/Values.thy ===== *)
theory Values
  imports Complex_Main Json
begin

text \<open>
  What \<open>Unmarshal\<close> stores in a \<open>map[string]interface{}\<close> (the arguments of a system message and the
  data of a game message): \<open>nil\<close>, booleans, strings, slices, maps and, for every number whatever it
  was written from, a \<open>float64\<close>. A number is read as \<open>strconv.ParseFloat\<close> reads it, to the nearest
  double with ties to even, and one beyond the largest double is an error.
\<close>

section \<open>Doubles\<close>

text \<open>\<open>Fin64 s m e\<close> is \<open>m * 2 ^ e\<close>, negative if \<open>s\<close>, with \<open>m < 2 ^ 53\<close> and \<open>- 1074 \<le> e \<le> 971\<close>; there is no NaN in JSON.\<close>

datatype f64 = Fin64 bool nat int | Inf64 bool

definition f64_value :: "f64 \<Rightarrow> rat" where
  "f64_value f = (case f of Fin64 s m e \<Rightarrow> (if s then - 1 else 1) * (of_nat m * 2 powi e) | Inf64 s \<Rightarrow> 0)"

definition f64_finite :: "f64 \<Rightarrow> bool" where
  "f64_finite f = (case f of Fin64 s m e \<Rightarrow> True | Inf64 s \<Rightarrow> False)"

definition f64_ok :: "f64 \<Rightarrow> bool" where
  "f64_ok f = (case f of Fin64 s m e \<Rightarrow> m < 2 ^ 53 \<and> - 1074 \<le> e \<and> e \<le> 971 | Inf64 s \<Rightarrow> True)"

fun bit_len :: "nat \<Rightarrow> nat" where
  "bit_len n = (if n = 0 then 0 else Suc (bit_len (n div 2)))"

declare bit_len.simps [simp del]

definition round_even :: "nat \<Rightarrow> nat \<Rightarrow> nat" where
  "round_even n d =
     (let k = n div d; r = n mod d in if d < 2 * r \<or> (d = 2 * r \<and> odd k) then Suc k else k)"

text \<open>The quotient \<open>p / q\<close> in units of \<open>2 ^ e\<close>, as a fraction again.\<close>

definition scaled :: "nat \<Rightarrow> nat \<Rightarrow> int \<Rightarrow> nat \<times> nat" where
  "scaled p q e = (if 0 \<le> e then (p, q * 2 ^ nat e) else (p * 2 ^ nat (- e), q))"

text \<open>The exponent that gives 53 bits, or the least one.\<close>

definition f64_exponent :: "nat \<Rightarrow> nat \<Rightarrow> int" where
  "f64_exponent p q =
     (let e = int (bit_len p) - int (bit_len q) - 53; (n, d) = scaled p q e
      in max (- 1074) (if n < 2 ^ 53 * d then e else e + 1))"

definition round_f64 :: "bool \<Rightarrow> nat \<Rightarrow> nat \<Rightarrow> f64" where
  "round_f64 s p q =
     (if p = 0 then Fin64 s 0 (- 1074)
      else let e = f64_exponent p q; (n, d) = scaled p q e; k = round_even n d;
               (m, x) = (if k = 2 ^ 53 then (2 ^ 52, e + 1) else (k, e))
           in if 971 < x then Inf64 s else Fin64 s m x)"

section \<open>Numbers in JSON text\<close>

definition exponent_of :: "string \<Rightarrow> int" where
  "exponent_of s =
     (case s of
        [] \<Rightarrow> 0
      | c # t \<Rightarrow>
          (case t of
             [] \<Rightarrow> 0
           | d # u \<Rightarrow> if d = CHR ''-'' then - int (parse_digits u)
                      else if d = CHR ''+'' then int (parse_digits u) else int (parse_digits t)))"

definition parse_float :: "string \<Rightarrow> f64" where
  "parse_float s =
     (let (neg, s1) = (case s of [] \<Rightarrow> (False, s) | c # t \<Rightarrow> if c = CHR ''-'' then (True, t) else (False, s));
          i = takeWhile is_digit s1; s2 = dropWhile is_digit s1;
          f = (case s2 of [] \<Rightarrow> [] | c # t \<Rightarrow> if c = CHR ''.'' then takeWhile is_digit t else []);
          s3 = (if f = [] then s2 else drop (Suc (length f)) s2);
          k = exponent_of s3 - int (length f); p = parse_digits (i @ f)
      in if 0 \<le> k then round_f64 neg (p * 10 ^ nat k) 1 else round_f64 neg p (10 ^ nat (- k)))"

section \<open>Values of an empty interface\<close>

datatype iface =
  INil | IBool bool | IFloat f64 | IString string | IArr "iface list" | IObj "string \<Rightarrow> iface option"

fun to_iface :: "json \<Rightarrow> iface" where
  "to_iface JNull = INil"
| "to_iface (JBool b) = IBool b"
| "to_iface (JNum s) = IFloat (parse_float s)"
| "to_iface (JString s) = IString s"
| "to_iface (JArr js) = IArr (map to_iface js)"
| "to_iface (JObj kvs) = IObj (map_of (rev (map (\<lambda>(k, j). (k, to_iface j)) kvs)))"

text \<open>The value decodes without an error: no number is beyond the doubles.\<close>

fun floats_ok :: "json \<Rightarrow> bool" where
  "floats_ok (JNum s) = f64_finite (parse_float s)"
| "floats_ok (JArr js) = list_all floats_ok js"
| "floats_ok (JObj kvs) = list_all (\<lambda>kv. floats_ok (snd kv)) kvs"
| "floats_ok _ = True"


section \<open>Rounding is to the nearest double\<close>

lemma bit_len_bounds: "n \<noteq> 0 \<Longrightarrow> 0 < bit_len n \<and> 2 ^ (bit_len n - 1) \<le> n \<and> n < 2 ^ bit_len n"
proof (induction n rule: bit_len.induct)
  case (1 n)
  show ?case
  proof (cases "n div 2 = 0")
    case True
    then show ?thesis using 1(2) by (simp add: bit_len.simps [of n] bit_len.simps [of 0])
  next
    case False
    define k where "k = bit_len (n div 2)"
    have "0 < k" "2 ^ (k - 1) \<le> n div 2" "n div 2 < 2 ^ k" using 1(1) [OF 1(2) False] by (simp_all add: k_def)
    then obtain j where "k = Suc j" "2 ^ j \<le> n div 2" "n div 2 < 2 ^ Suc j" by (cases k) auto
    moreover have "bit_len n = Suc k" using 1(2) by (simp add: bit_len.simps [of n] k_def)
    ultimately show ?thesis by auto
  qed
qed

lemma bit_len_le: "n < 2 ^ k \<Longrightarrow> bit_len n \<le> k"
proof (rule ccontr)
  assume n: "n < 2 ^ k" and "\<not> bit_len n \<le> k"
  then have "n \<noteq> 0" "k \<le> bit_len n - 1" by (cases n; simp add: bit_len.simps [of 0])+
  then have "2 ^ k \<le> (2 :: nat) ^ (bit_len n - 1)" by (intro power_increasing) simp_all
  also have "\<dots> \<le> n" using bit_len_bounds [OF \<open>n \<noteq> 0\<close>] by simp
  finally show False using n by simp
qed

lemma round_even_half:
  assumes "0 < d"
  shows "\<bar>of_nat (round_even n d) - of_nat n / of_nat d\<bar> \<le> (1 / 2 :: rat)"
proof -
  define k r where "k = n div d" and "r = n mod d"
  have n: "n = k * d + r" "r < d" using assms by (simp_all add: k_def r_def)
  have q: "of_nat n / of_nat d = (of_nat k + of_nat r / of_nat d :: rat)"
    using assms by (simp add: n(1) field_simps)
  have up: "of_nat r / of_nat d \<le> (1 / 2 :: rat) \<longleftrightarrow> 2 * r \<le> d" "(1 / 2 :: rat) \<le> of_nat r / of_nat d \<longleftrightarrow> d \<le> 2 * r"
    using assms by (simp_all add: field_simps flip: of_nat_le_iff [where 'a = rat])
  have b: "0 \<le> (of_nat r / of_nat d :: rat)" "of_nat r / of_nat d < (1 :: rat)" using n(2) assms by simp_all
  show ?thesis
  proof (cases "d < 2 * r \<or> (d = 2 * r \<and> odd k)")
    case True
    then have "round_even n d = Suc k" "d \<le> 2 * r" by (auto simp: round_even_def k_def r_def)
    then have "round_even n d = Suc k" "(1 / 2 :: rat) \<le> of_nat r / of_nat d" using up(2) by blast+
    then show ?thesis using b by (simp add: q abs_le_iff)
  next
    case False
    then have "round_even n d = k" by (auto simp: round_even_def Let_def k_def r_def)
    moreover have "of_nat r / of_nat d \<le> (1 / 2 :: rat)" using False up(1) by linarith
    ultimately show ?thesis using b by (simp add: q abs_le_iff)
  qed
qed

lemma nearest_integer:
  assumes "\<bar>of_int k - y\<bar> \<le> (1 / 2 :: rat)"
  shows "\<bar>of_int k - y\<bar> \<le> \<bar>of_int j - y\<bar>"
proof (cases "j = k")
  case False
  then have "1 \<le> \<bar>j - k\<bar>" by simp
  then have "1 \<le> \<bar>of_int j - of_int k :: rat\<bar>"
    by (metis of_int_1 of_int_abs of_int_diff of_int_le_iff)
  then show ?thesis using assms by linarith
qed simp

lemma scaled_value:
  assumes "0 < q" and "scaled p q e = (n, d)"
  shows "0 < d" and "of_nat n / of_nat d * 2 powi e = (of_nat p / of_nat q :: rat)"
  using assms by (auto simp: scaled_def power_int_def field_simps split: if_splits)


lemma two_powi_add: "2 powi (a + b) = (2 powi a * 2 powi b :: rat)"
  by (simp add: power_int_add)

lemma two_powi_le: "a \<le> b \<Longrightarrow> 2 powi a \<le> (2 powi b :: rat)"
  by (rule power_int_increasing) simp_all

lemma f64_exponent_bounds:
  fixes x :: rat
  assumes "0 < p" and "0 < q" and x: "x = of_nat p / of_nat q" and e: "e = f64_exponent p q"
  shows "x < 2 powi (e + 53)" and "- 1074 \<le> e" and "e = - 1074 \<or> 2 powi (e + 52) \<le> x"
proof -
  define a where "a = int (bit_len p) - int (bit_len q) - 53"
  obtain n d where nd: "scaled p q a = (n, d)" by (cases "scaled p q a")
  have powi: "(2 :: rat) powi int k = of_nat (2 ^ k)" for k by simp
  obtain l k where l: "bit_len p = Suc l" "2 ^ l \<le> p" "p < 2 ^ Suc l" and k: "bit_len q = Suc k" "2 ^ k \<le> q" "q < 2 ^ Suc k"
    using bit_len_bounds [of p] bit_len_bounds [of q] assms(1,2) by (cases "bit_len p"; cases "bit_len q") auto
  have pq: "2 powi int l \<le> (of_nat p :: rat)" "of_nat p < (2 powi int (Suc l) :: rat)"
    "2 powi int k \<le> (of_nat q :: rat)" "of_nat q < (2 powi int (Suc k) :: rat)"
    unfolding powi of_nat_le_iff of_nat_less_iff using l k by simp_all
  have q0: "0 < (of_nat q :: rat)" using assms(2) by simp
  have "x * 2 powi int k \<le> x * of_nat q" using pq(3) by (intro mult_left_mono) (simp_all add: x)
  also have "\<dots> = of_nat p" using q0 by (simp add: x)
  finally have "x * 2 powi int k \<le> of_nat p" .
  moreover have "2 powi (a + 54) * 2 powi int k = (2 powi int (Suc l) :: rat)"
    unfolding two_powi_add [symmetric] by (simp add: a_def l(1) k(1))
  ultimately have "x * 2 powi int k < 2 powi (a + 54) * 2 powi int k" using pq(2) by linarith
  then have up: "x < 2 powi (a + 54)" by (rule mult_right_less_imp_less) simp
  have "2 powi (a + 52) * of_nat q \<le> (2 powi (a + 52) * 2 powi int (Suc k) :: rat)"
    using pq(4) by (intro mult_left_mono) simp_all
  also have "\<dots> = 2 powi int l" unfolding two_powi_add [symmetric] by (simp add: a_def l(1) k(1))
  finally have "2 powi (a + 52) * of_nat q \<le> (of_nat p :: rat)" using pq(1) by linarith
  then have low: "2 powi (a + 52) \<le> x" unfolding x using q0 by (simp add: field_simps)
  have sc: "0 < d" "of_nat n / of_nat d * 2 powi a = x" using scaled_value [OF assms(2) nd] x by simp_all
  have "n < 2 ^ 53 * d \<longleftrightarrow> (of_nat n :: rat) < of_nat (2 ^ 53 * d)" by (rule of_nat_less_iff [symmetric])
  also have "\<dots> \<longleftrightarrow> of_nat n / of_nat d < (2 ^ 53 :: rat)" using sc(1) by (simp add: pos_divide_less_eq)
  also have "\<dots> \<longleftrightarrow> of_nat n / of_nat d * 2 powi a < (2 ^ 53 * 2 powi a :: rat)"
    by (rule mult_less_cancel_right_pos [symmetric]) simp
  also have "\<dots> \<longleftrightarrow> x < 2 powi (a + 53)" unfolding sc(2) by (simp add: two_powi_add mult.commute)
  finally have cmp: "n < 2 ^ 53 * d \<longleftrightarrow> x < 2 powi (a + 53)" .
  define b where "b = (if n < 2 ^ 53 * d then a else a + 1)"
  have eb: "e = max (- 1074) b" by (simp add: e f64_exponent_def Let_def nd b_def flip: a_def)
  have b: "x < 2 powi (b + 53)" "2 powi (b + 52) \<le> x" using cmp up low by (auto simp: b_def add.assoc)
  have "(2 :: rat) powi (b + 53) \<le> 2 powi (e + 53)" by (rule two_powi_le) (simp add: eb)
  then show "x < 2 powi (e + 53)" using b(1) by linarith
  show "- 1074 \<le> e" "e = - 1074 \<or> 2 powi (e + 52) \<le> x" using b(2) by (auto simp: eb max_def)
qed

text \<open>No double is nearer to the quotient than the rounded one.\<close>

lemma nearest_multiple:
  fixes x u y :: rat
  assumes "0 < u" and "x = y * u" and "\<bar>of_int k - y\<bar> \<le> 1 / 2"
  shows "\<bar>of_int k * u - x\<bar> \<le> \<bar>of_int j * u - x\<bar>"
proof -
  have "\<bar>of_int i * u - x\<bar> = \<bar>of_int i - y\<bar> * u" for i
  proof -
    have "of_int i * u - x = (of_int i - y) * u" by (simp add: assms(2) algebra_simps)
    then show ?thesis using assms(1) by (simp add: abs_mult)
  qed
  then show ?thesis using nearest_integer [OF assms(3), of j] assms(1) by (simp add: mult_right_mono)
qed

lemma round_f64_value:
  assumes "0 < p" and "round_f64 s p q = Fin64 s' m e" and "scaled p q (f64_exponent p q) = (n, d)"
  shows "s' = s" and "of_nat m * 2 powi e = (of_nat (round_even n d) * 2 powi f64_exponent p q :: rat)"
proof -
  let ?e = "f64_exponent p q"
  have "s' = s \<and> of_nat m * 2 powi e = (of_nat (round_even n d) * 2 powi ?e :: rat)"
  proof (cases "round_even n d = 2 ^ 53")
    case True
    then have me: "s' = s" "m = 2 ^ 52" "e = ?e + 1"
      using assms by (auto simp: round_f64_def Let_def split: if_splits)
    have "(2 :: rat) ^ 53 = 2 ^ 52 * 2" by simp
    then show ?thesis unfolding True me by (simp add: two_powi_add)
  next
    case False
    then show ?thesis using assms by (auto simp: round_f64_def Let_def split: if_splits)
  qed
  then show "s' = s" and "of_nat m * 2 powi e = (of_nat (round_even n d) * 2 powi f64_exponent p q :: rat)" by blast+
qed

lemma round_f64_nearest:
  fixes x :: rat
  assumes "0 < p" and "0 < q" and x: "x = of_nat p / of_nat q" and "round_f64 s p q = Fin64 s' m e"
    and "mg < 2 ^ 53" and "- 1074 \<le> eg" and "\<bar>sg\<bar> = 1"
  shows "\<bar>of_nat m * 2 powi e - x\<bar> \<le> \<bar>of_int sg * (of_nat mg * 2 powi eg) - x\<bar>"
proof -
  define z where "z = f64_exponent p q"
  define u :: rat where "u = 2 powi z"
  obtain n d where nd: "scaled p q z = (n, d)" by (cases "scaled p q z")
  let ?k = "int (round_even n d)"
  have u0: "0 < u" by (simp add: u_def)
  have sc: "0 < d" "x = of_nat n / of_nat d * u" using scaled_value [OF assms(2) nd] by (simp_all add: x u_def)
  have m: "of_nat m * 2 powi e = of_int ?k * u"
    using round_f64_value(2) [OF assms(1,4)] nd by (simp add: u_def flip: z_def)
  have near: "\<bar>of_int ?k * u - x\<bar> \<le> \<bar>of_int j * u - x\<bar>" for j
    by (rule nearest_multiple [OF u0 sc(2)]) (use round_even_half [OF sc(1), of n] in simp)
  note b = f64_exponent_bounds [OF assms(1,2) x z_def]
  show ?thesis
  proof (cases "z \<le> eg")
    case True
    then obtain i where i: "eg = z + int i" using zle_iff_zadd by auto
    have "of_int sg * (of_nat mg * 2 powi eg) = of_int (sg * int mg * 2 ^ i) * u"
      by (simp add: i two_powi_add u_def)
    then show ?thesis unfolding m using near by metis
  next
    case False
    then have low: "2 powi (z + 52) \<le> x" using b(3) assms(6) by auto
    have "of_int sg * (of_nat mg * 2 powi eg) \<le> (of_nat mg * 2 powi eg :: rat)"
      using assms(7) by (cases "sg < 0") auto
    also have "\<dots> \<le> of_nat (2 ^ 53) * 2 powi eg"
      by (intro mult_right_mono of_nat_mono) (use assms(5) in simp_all)
    also have "\<dots> = 2 powi (eg + 1 + 52)" by (simp add: two_powi_add)
    also have "\<dots> \<le> 2 powi (z + 52)" using False by (intro two_powi_le) simp
    finally have "of_int sg * (of_nat mg * 2 powi eg) \<le> of_int (2 ^ 52) * u" by (simp add: two_powi_add u_def mult.commute)
    moreover have "of_int (2 ^ 52) * u \<le> x" using low by (simp add: two_powi_add u_def mult.commute)
    ultimately show ?thesis unfolding m using near [of "2 ^ 52"] by linarith
  qed
qed


text \<open>The integers of Go's types stay in range, and those of at most 53 bits arrive as they are.\<close>

lemma f64_value_Fin: "f64_value (Fin64 s m e) = (if s then - 1 else 1) * (of_nat m * 2 powi e)"
  by (simp add: f64_value_def)

lemma parse_float_show: "parse_float (show_int n) = round_f64 (n < 0) (nat \<bar>n\<bar>) 1"
proof -
  have dig: "takeWhile is_digit (show_nat k) = show_nat k" "dropWhile is_digit (show_nat k) = []" for k
    using show_nat_digits [of k] by (simp_all add: list_all_iff takeWhile_eq_all_conv)
  show ?thesis
  proof (cases "n < 0")
    case True
    then show ?thesis by (simp add: parse_float_def show_int_def exponent_of_def dig)
  next
    case False
    obtain c t where c: "show_nat (nat n) = c # t" "is_digit c" by (rule show_nat_hd)
    have "parse_float (c # t) = round_f64 False (parse_digits (show_nat (nat n))) 1"
      using dig [of "nat n"] is_digit_not(1) [OF c(2)] unfolding c(1) by (simp add: parse_float_def exponent_of_def)
    then show ?thesis using False by (simp add: show_int_def flip: c(1))
  qed
qed

lemma int_float_finite:
  assumes "p < 2 ^ k" and "k \<le> 1000"
  shows "f64_finite (round_f64 s p 1)"
proof (cases "p = 0")
  case False
  define x :: rat where "x = of_nat p"
  have "(of_nat p :: rat) < of_nat (2 ^ k)" unfolding of_nat_less_iff by (rule assms(1))
  then have x: "x = of_nat p / of_nat 1" "x < 2 powi int k" by (simp_all add: x_def)
  have "f64_exponent p 1 \<le> 970"
  proof (rule ccontr)
    assume "\<not> f64_exponent p 1 \<le> 970"
    then have "2 powi (f64_exponent p 1 + 52) \<le> x" "k \<le> 1000"
      using f64_exponent_bounds(3) [OF _ _ x(1) refl] False assms(2) by auto
    moreover have "2 powi int k \<le> (2 powi (f64_exponent p 1 + 52) :: rat)"
      using \<open>\<not> f64_exponent p 1 \<le> 970\<close> assms(2) by (intro two_powi_le) simp
    ultimately show False using x(2) by linarith
  qed
  then show ?thesis by (simp add: round_f64_def f64_finite_def Let_def split: prod.split)
qed (simp add: round_f64_def f64_finite_def)

lemma parse_float_int:
  assumes "\<bar>n\<bar> < 2 ^ 64"
  shows "f64_finite (parse_float (show_int n))"
proof -
  have "nat \<bar>n\<bar> < 2 ^ 64" using assms by (simp add: nat_less_iff)
  then show ?thesis unfolding parse_float_show by (rule int_float_finite) simp
qed

lemma parse_float_nearest:
  assumes "\<bar>n\<bar> < 2 ^ 64" and "mg < 2 ^ 53" and "- 1074 \<le> eg"
  shows "\<bar>f64_value (parse_float (show_int n)) - of_int n\<bar> \<le> \<bar>f64_value (Fin64 sg mg eg) - of_int n\<bar>"
proof (cases "n = 0")
  case False
  obtain s m e where f: "round_f64 (n < 0) (nat \<bar>n\<bar>) 1 = Fin64 s m e"
    using parse_float_int [OF assms(1)] unfolding parse_float_show by (auto simp: f64_finite_def split: f64.splits)
  have s: "s = (n < 0)" using round_f64_value(1) [OF _ f] False by (cases "scaled (nat \<bar>n\<bar>) 1 (f64_exponent (nat \<bar>n\<bar>) 1)") auto
  let ?sg = "if sg = (n < 0) then 1 else - 1 :: int"
  let ?v = "of_nat m * 2 powi e :: rat" and ?w = "of_nat mg * 2 powi eg :: rat" and ?x = "of_int \<bar>n\<bar> :: rat"
  have "\<bar>?v - ?x\<bar> \<le> \<bar>of_int ?sg * ?w - ?x\<bar>"
    by (rule round_f64_nearest [OF _ _ _ f assms(2,3)]) (use False in simp_all)
  moreover have "?x = (if n < 0 then - of_int n else of_int n)" by simp
  ultimately show ?thesis unfolding parse_float_show f f64_value_Fin s by (cases "n < 0"; cases sg; simp; linarith)
qed (simp add: parse_float_show round_f64_def f64_value_Fin)

lemma parse_float_exact:
  assumes "\<bar>n\<bar> \<le> 2 ^ 53"
  shows "f64_value (parse_float (show_int n)) = of_int n"
proof -
  have big: "\<bar>n\<bar> < 2 ^ 64" using assms by (rule order_le_less_trans) simp
  obtain m e where me: "m < 2 ^ 53" "- 1074 \<le> e" "of_nat m * 2 powi e = (of_int \<bar>n\<bar> :: rat)"
  proof (cases "\<bar>n\<bar> = 2 ^ 53")
    case True
    show ?thesis by (rule that [of "2 ^ 52" 1]) (simp_all add: True)
  next
    case False
    then show ?thesis using assms by (intro that [of "nat \<bar>n\<bar>" 0]) (simp_all add: nat_less_iff)
  qed
  then have "f64_value (Fin64 (n < 0) m e) = of_int n" by (simp add: f64_value_Fin)
  then show ?thesis using parse_float_nearest [OF big me(1,2), of "n < 0"] by simp
qed


text \<open>The values the program gives to \<open>Marshal\<close> hold integers of Go's types, up to 64 bits.\<close>

fun ints_ok :: "json \<Rightarrow> bool" where
  "ints_ok (JNum s) = (\<exists>n. s = show_int n \<and> - (2 ^ 63) \<le> n \<and> n < 2 ^ 64)"
| "ints_ok (JArr js) = (\<forall>j \<in> set js. ints_ok j)"
| "ints_ok (JObj kvs) = (\<forall>kv \<in> set kvs. ints_ok (snd kv))"
| "ints_ok _ = True"

lemma ints_floats: "ints_ok j \<Longrightarrow> floats_ok j"
proof (induction j rule: ints_ok.induct)
  case (1 s)
  then obtain n where "s = show_int n" "\<bar>n\<bar> < 2 ^ 64" by auto
  then show ?case using parse_float_int by simp
next
  case (3 kvs)
  then show ?case by (fastforce simp: list_all_iff)
qed (auto simp: list_all_iff)

end
