(* ===== verification/Server.thy ===== *)
theory Server
  imports Network Actor Queue Discovery Values
begin

text \<open>
  The base of every server: configuration and ports, start, load updates and stop
  (\<open>internal/server/server.go\<close>), and the system service with its RPC methods and its handlers of
  system messages (\<open>internal/server/system_service.go\<close>).
\<close>

section \<open>Configuration\<close>

text \<open>
  \<open>sc_Nodes\<close> gives the ports of each node type. The file as viper reads and decodes it is an
  argument, \<open>None\<close> when that fails.
\<close>

record server_config =
  sc_TCPPort :: int
  sc_RPCPort :: int
  sc_HTTPPort :: int
  sc_MaxConnections :: int
  sc_Nodes :: "string \<rightharpoonup> int list"

datatype config_error = ReadFailed | BadNodeID | NumberFailed | UnknownNodeType string | IndexOutside int

text \<open>The match of \<open>(\d+)$\<close>: the longest run of digits at the end.\<close>

definition trailing_digits :: "string \<Rightarrow> string" where
  "trailing_digits s = rev (takeWhile is_digit (rev s))"

definition loadConfig :: "server_config option \<Rightarrow> string \<Rightarrow> string \<Rightarrow> config_error + server_config" where
  "loadConfig file nodeType nodeID =
     (case file of
        None \<Rightarrow> Inl ReadFailed
      | Some config \<Rightarrow>
          (let matches = trailing_digits nodeID in
           if matches = [] then Inl BadNodeID
           else if parse_digits matches \<ge> 2 ^ 63 then Inl NumberFailed
           else (let index = int (parse_digits matches) - 1 in
                 case sc_Nodes config nodeType of
                   None \<Rightarrow> Inl (UnknownNodeType nodeType)
                 | Some ports \<Rightarrow>
                     if index < 0 \<or> index \<ge> int (length ports) then Inl (IndexOutside (index + 1))
                     else (let basePort = ports ! nat index
                           in Inr (config\<lparr>sc_TCPPort := basePort, sc_RPCPort := i64 (basePort + 1000),
                                          sc_HTTPPort := i64 (basePort + 2000)\<rparr>)))))"

text \<open>\<open>NewServer\<close>: the kinds of server there are; any other type ends the process.\<close>

definition NewServer_kind :: "string \<Rightarrow> string option" where
  "NewServer_kind nodeType =
     (if nodeType \<in> {''login'', ''gateway'', ''center'', ''lobby''} then Some nodeType else None)"

section \<open>The base server\<close>

text \<open>
  \<open>bs_loops\<close> counts the load-update goroutines, \<open>bs_loopStuck\<close> says that one of them is in a
  call that never returns, \<open>bs_stopPending\<close> that a goroutine will call \<open>Stop\<close>. Redis and MongoDB
  are only closed, which is left out.
\<close>

record ('b, 's, 'h, 'n, 'd) base_server =
  bs_config :: server_config
  bs_nodeType :: string
  bs_nodeID :: string
  bs_status :: string
  bs_actorSystem :: "('s base_actor) actor_system"
  bs_tcpServer :: "'b tcp_server option"
  bs_nsqManager :: "'h nsq_manager"
  bs_registry :: registry
  bs_listening :: bool
  bs_cancelled :: bool
  bs_loops :: nat
  bs_loopStuck :: bool
  bs_stopPending :: bool
  bs_nsq :: 'n
  bs_etcd :: 'd

datatype server_error = AlreadyStarted | ListenGRPCFailed | RegisterFailed reg_error

text \<open>\<open>port_free\<close>: no other process listens on the RPC port.\<close>

definition base_Start ::
  "('v, 'd) etcd \<Rightarrow> time \<Rightarrow> time \<Rightarrow> bool \<Rightarrow> ('b, 's, 'h, 'n, 'd) base_server \<Rightarrow>
   (server_error option \<times> ('b, 's, 'h, 'n, 'd) base_server) outcome" where
  "base_Start et now1 now2 port_free bs =
     (if bs_status bs \<noteq> ''initializing'' then Ret (Some AlreadyStarted, bs)
      else if bs_listening bs \<or> \<not> port_free then Ret (Some ListenGRPCFailed, bs)
      else (let bs1 = bs\<lparr>bs_listening := True\<rparr>;
                info = \<lparr>si_NodeID = bs_nodeID bs, si_NodeType = bs_nodeType bs, si_Address = ''127.0.0.1'',
                        si_Port = sc_RPCPort (bs_config bs), si_Load = 0, si_Status = ''online'', si_Metadata = Some [],
                        si_UpdateTime = unix now1\<rparr>;
                (r, rg, d) = Register et now2 info (bs_registry bs) (bs_etcd bs);
                bs2 = bs1\<lparr>bs_registry := rg, bs_etcd := d\<rparr>
            in obind r (\<lambda>err. case err of
                 Some e \<Rightarrow> Ret (Some (RegisterFailed e), bs2)
               | None \<Rightarrow> Ret (None, bs2\<lparr>bs_loops := Suc (bs_loops bs2), bs_status := ''running''\<rparr>))))"

definition calculateLoad :: "('b, 's, 'h, 'n, 'd) base_server \<Rightarrow> int" where
  "calculateLoad bs =
     i64 ((case bs_tcpServer bs of None \<Rightarrow> 0 | Some tcp \<Rightarrow> GetConnectionCount tcp) + GetActorCount (bs_actorSystem bs))"

text \<open>A tick of \<open>loadUpdateLoop\<close>; its errors are logged.\<close>

definition loadUpdate_tick ::
  "('v, 'd) etcd \<Rightarrow> (nat \<Rightarrow> time) \<Rightarrow> ('b, 's, 'h, 'n, 'd) base_server \<Rightarrow> ('b, 's, 'h, 'n, 'd) base_server" where
  "loadUpdate_tick et now bs =
     (if bs_loops bs = 0 \<or> bs_loopStuck bs then bs
      else (let (r, rg, d) = UpdateLoad et now (bs_nodeID bs) (calculateLoad bs) (bs_registry bs) (bs_etcd bs)
            in bs\<lparr>bs_registry := rg, bs_etcd := d, bs_loopStuck := (r = Blocked)\<rparr>))"

text \<open>
  \<open>Stop\<close>: the components in order; errors of closing are ignored. The last step waits for the
  load-update goroutine, which the cancelled context ends unless it is stuck.
\<close>

definition base_Stop ::
  "'n nsq \<Rightarrow> ('v, 'd) etcd \<Rightarrow> (string \<Rightarrow> 's actor_ops) \<Rightarrow> string list \<Rightarrow> accepted option \<Rightarrow>
   ('b, 's, 'h, 'n, 'd) base_server \<Rightarrow> ('b, 's, 'h, 'n, 'd) base_server outcome" where
  "base_Stop nl et ops keys in_accept bs =
     (if bs_status bs \<noteq> ''running'' then Ret bs
      else obind (case bs_tcpServer bs of None \<Rightarrow> Ret None | Some tcp \<Rightarrow> obind (Stop_and_wait in_accept tcp) (\<lambda>t. Ret (Some t)))
        (\<lambda>tcp. obind (nsq_Close nl keys (bs_nsqManager bs) (bs_nsq bs)) (\<lambda>(nm, n).
          let (r, rg, d) = Unregister et (bs_nodeID bs) (bs_registry bs) (bs_etcd bs) in
          obind r (\<lambda>_.
            let (_, rg1, d1) = registry_Close et rg d in
            if bs_loops bs > 0 \<and> bs_loopStuck bs then Blocked
            else Ret (bs\<lparr>bs_status := ''stopped'', bs_cancelled := True, bs_tcpServer := tcp, bs_listening := False,
                         bs_actorSystem := snd (Actor.Shutdown ops (bs_actorSystem bs)), bs_nsqManager := nm,
                         bs_nsq := n, bs_registry := rg1, bs_etcd := d1, bs_loops := 0\<rparr>)))))"

text \<open>The getters.\<close>

definition GetNodeID :: "('b, 's, 'h, 'n, 'd) base_server \<Rightarrow> string" where
  "GetNodeID bs = bs_nodeID bs"

definition GetNodeType :: "('b, 's, 'h, 'n, 'd) base_server \<Rightarrow> string" where
  "GetNodeType bs = bs_nodeType bs"

definition GetStatus :: "('b, 's, 'h, 'n, 'd) base_server \<Rightarrow> string" where
  "GetStatus bs = bs_status bs"

definition GetActorSystem :: "('b, 's, 'h, 'n, 'd) base_server \<Rightarrow> ('s base_actor) actor_system" where
  "GetActorSystem bs = bs_actorSystem bs"

section \<open>The system service\<close>

record node_info =
  ni_NodeId :: string
  ni_NodeType :: string
  ni_Address :: string
  ni_Port :: int
  ni_Online :: bool
  ni_Load :: int
  ni_UpdateTime :: u32

record 'm server_stats =
  vs_NodeId :: string
  vs_NodeType :: string
  vs_Status :: string
  vs_Load :: int
  vs_Goroutines :: int
  vs_Memory :: 'm
  vs_Connections :: int
  vs_ActorCount :: int

definition node_info_of :: "time \<Rightarrow> ('b, 's, 'h, 'n, 'd) base_server \<Rightarrow> node_info" where
  "node_info_of now bs =
     \<lparr>ni_NodeId = bs_nodeID bs, ni_NodeType = bs_nodeType bs, ni_Address = ''0.0.0.0'',
      ni_Port = i32 (sc_RPCPort (bs_config bs)), ni_Online = (bs_status bs = ''running''),
      ni_Load = i32 (calculateLoad bs), ni_UpdateTime = word_of_int (unix now)\<rparr>"

definition GetServerInfo ::
  "(node_info \<Rightarrow> bytes option) \<Rightarrow> time \<Rightarrow> base_request \<Rightarrow> ('b, 's, 'h, 'n, 'd) base_server \<Rightarrow> base_response option" where
  "GetServerInfo marshal now req bs =
     (case marshal (node_info_of now bs) of
        None \<Rightarrow> None
      | Some data \<Rightarrow> Some \<lparr>rs_Header = rq_Header req, rs_Code = 0, rs_Msg = ''success'', rs_Data = data\<rparr>)"

definition server_stats_of :: "int \<Rightarrow> 'm \<Rightarrow> ('b, 's, 'h, 'n, 'd) base_server \<Rightarrow> 'm server_stats" where
  "server_stats_of goroutines memory bs =
     \<lparr>vs_NodeId = bs_nodeID bs, vs_NodeType = bs_nodeType bs, vs_Status = bs_status bs,
      vs_Load = i32 (calculateLoad bs), vs_Goroutines = i32 goroutines, vs_Memory = memory,
      vs_Connections = (case bs_tcpServer bs of None \<Rightarrow> 0 | Some tcp \<Rightarrow> i32 (GetConnectionCount tcp)),
      vs_ActorCount = i32 (GetActorCount (bs_actorSystem bs))\<rparr>"

definition GetServerStats ::
  "('m server_stats \<Rightarrow> bytes option) \<Rightarrow> int \<Rightarrow> 'm \<Rightarrow> base_request \<Rightarrow> ('b, 's, 'h, 'n, 'd) base_server \<Rightarrow>
   base_response option" where
  "GetServerStats marshal goroutines memory req bs =
     (case marshal (server_stats_of goroutines memory bs) of
        None \<Rightarrow> None
      | Some data \<Rightarrow> Some \<lparr>rs_Header = rq_Header req, rs_Code = 0, rs_Msg = ''success'', rs_Data = data\<rparr>)"

definition rpc_ReloadConfig :: "base_request \<Rightarrow> base_response" where
  "rpc_ReloadConfig req = respond (rq_Header req) 0 ''config reloaded--todo''"

definition update_registry_load ::
  "('v, 'd) etcd \<Rightarrow> (nat \<Rightarrow> time) \<Rightarrow> ('b, 's, 'h, 'n, 'd) base_server \<Rightarrow>
   (reg_error option \<times> ('b, 's, 'h, 'n, 'd) base_server) outcome" where
  "update_registry_load et now bs =
     (let (r, rg, d) = UpdateLoad et now (bs_nodeID bs) (calculateLoad bs) (bs_registry bs) (bs_etcd bs)
      in obind r (\<lambda>e. Ret (e, bs\<lparr>bs_registry := rg, bs_etcd := d\<rparr>)))"

text \<open>\<open>text_of\<close>: the error's message.\<close>

definition rpc_UpdateLoad ::
  "('v, 'd) etcd \<Rightarrow> (reg_error \<Rightarrow> string) \<Rightarrow> (nat \<Rightarrow> time) \<Rightarrow> base_request \<Rightarrow> ('b, 's, 'h, 'n, 'd) base_server \<Rightarrow>
   (base_response \<times> ('b, 's, 'h, 'n, 'd) base_server) outcome" where
  "rpc_UpdateLoad et text_of now req bs =
     obind (update_registry_load et now bs) (\<lambda>(e, bs1).
       Ret (case e of
              Some err \<Rightarrow> respond (rq_Header req) (- 1) (text_of err)
            | None \<Rightarrow> respond (rq_Header req) 0 (''Load updated successfully: '' @ show_int (calculateLoad bs)), bs1))"

definition rpc_Shutdown ::
  "base_request \<Rightarrow> ('b, 's, 'h, 'n, 'd) base_server \<Rightarrow> base_response \<times> ('b, 's, 'h, 'n, 'd) base_server" where
  "rpc_Shutdown req bs = (respond (rq_Header req) 0 ''Shutdown instruction executed'', bs\<lparr>bs_stopPending := True\<rparr>)"

text \<open>Both answer with an encoded copy of their own success; the actor system is never nil.\<close>

definition rpc_todo_stats :: "(base_response \<Rightarrow> bytes option) \<Rightarrow> base_request \<Rightarrow> base_response option" where
  "rpc_todo_stats marshal req =
     (case marshal (respond (rq_Header req) 0 ''success--todo'') of
        None \<Rightarrow> None
      | Some data \<Rightarrow> Some \<lparr>rs_Header = rq_Header req, rs_Code = 0, rs_Msg = ''success--todo'', rs_Data = data\<rparr>)"

definition GetActorStats :: "(base_response \<Rightarrow> bytes option) \<Rightarrow> base_request \<Rightarrow> base_response option" where
  "GetActorStats marshal req = rpc_todo_stats marshal req"

text \<open>Looking up the pools' statistics creates the global pools; the statistics are only logged.\<close>

definition rpc_GetPoolStats ::
  "(base_response \<Rightarrow> bytes option) \<Rightarrow> base_request \<Rightarrow> global_pools option \<Rightarrow>
   (base_response option \<times> pool_stats list \<times> global_pools) outcome" where
  "rpc_GetPoolStats marshal req once =
     obind (GetGlobalPools once) (\<lambda>pools. Ret (rpc_todo_stats marshal req, GetStats pools, pools))"

section \<open>System messages\<close>

text \<open>
  The handlers act on the outcome of the goroutine that runs them: a server, or a call that never
  returned. JSON values are those that appear in arguments.
\<close>

type_synonym ('b, 's, 'h, 'n, 'd) node = "('b, 's, 'h, 'n, 'd) base_server outcome"

definition HandleReloadConfig :: "iface system_message \<Rightarrow> 'w \<Rightarrow> mq_error option \<times> 'w" where
  "HandleReloadConfig msg w = (None, w)"

definition HandleUpdateLoad ::
  "('v, 'd) etcd \<Rightarrow> (nat \<Rightarrow> time) \<Rightarrow> iface system_message \<Rightarrow> ('b, 's, 'h, 'n, 'd) node \<Rightarrow>
   mq_error option \<times> ('b, 's, 'h, 'n, 'd) node" where
  "HandleUpdateLoad et now msg w =
     (case obind w (update_registry_load et now) of
        Ret (e, bs) \<Rightarrow> (map_option (\<lambda>_. HandlerFailed ''update load'') e, Ret bs)
      | Panic p \<Rightarrow> (None, Panic p)
      | Blocked \<Rightarrow> (None, Blocked))"

definition HandleShutdown ::
  "iface system_message \<Rightarrow> ('b, 's, 'h, 'n, 'd) node \<Rightarrow> mq_error option \<times> ('b, 's, 'h, 'n, 'd) node" where
  "HandleShutdown msg w = (None, obind w (\<lambda>bs. Ret (bs\<lparr>bs_stopPending := True\<rparr>)))"

text \<open>All three kinds of hot update, and any other, only log.\<close>

definition handle_hot_update :: "iface system_message \<Rightarrow> 'w \<Rightarrow> mq_error option \<times> 'w" where
  "handle_hot_update msg w = (None, w)"

definition HandleHotUpdate :: "iface system_message \<Rightarrow> 'w \<Rightarrow> mq_error option \<times> 'w" where
  "HandleHotUpdate msg w =
     (case sm_Args msg ''type'' of
        Some (IString ''config'') \<Rightarrow> handle_hot_update msg w
      | Some (IString ''logic'') \<Rightarrow> handle_hot_update msg w
      | Some (IString ''data'') \<Rightarrow> handle_hot_update msg w
      | _ \<Rightarrow> (None, w))"

definition common_handler ::
  "('v, 'd) etcd \<Rightarrow> (nat \<Rightarrow> time) \<Rightarrow> string \<Rightarrow> (iface, ('b, 's, 'h, 'n, 'd) node) system_handler" where
  "common_handler et now nodeID =
     sys_RegisterHandler ''hot_update'' HandleHotUpdate
       (sys_RegisterHandler ''shutdown'' HandleShutdown
          (sys_RegisterHandler ''update_load'' (HandleUpdateLoad et now)
             (sys_RegisterHandler ''reload_config'' HandleReloadConfig (NewSystemMessageHandler nodeID))))"

text \<open>\<open>wrap\<close> stores the handler in the queue's table of handlers.\<close>

definition RegisterCommonServices ::
  "'n nsq \<Rightarrow> (string \<Rightarrow> 'h) \<Rightarrow> ('b, 's, 'h, 'n, 'd) base_server \<Rightarrow> mq_error option \<times> ('b, 's, 'h, 'n, 'd) base_server" where
  "RegisterCommonServices nl wrap bs =
     (let (e, nm, n) = SubscribeSystemMessages nl (bs_nodeID bs) (wrap (bs_nodeID bs)) (bs_nsqManager bs) (bs_nsq bs)
      in (e, bs\<lparr>bs_nsqManager := nm, bs_nsq := n\<rparr>))"

section \<open>Properties\<close>

lemma takeWhile_rev_suffix:
  assumes "list_all P ds" and "p = [] \<or> \<not> P (last p)"
  shows "rev (takeWhile P (rev (p @ ds))) = ds"
proof -
  have "takeWhile P (rev p) = []"
    using assms(2) by (cases p rule: rev_cases) auto
  moreover have "takeWhile P (rev ds) = rev ds"
    using assms(1) by (simp add: takeWhile_eq_all_conv list_all_iff)
  ultimately show ?thesis
    using assms(1) by (simp add: takeWhile_append list_all_iff)
qed

text \<open>
  The configuration of a node whose id ends in digits: the ports are those at the index these
  digits give, from 1, with the RPC and HTTP ports 1000 and 2000 above, and an index outside
  the list, or a number beyond 64 bits, is an error, never a panic.
\<close>

theorem loadConfig_ports:
  assumes "sc_Nodes cfg t = Some ports" and "int (length ports) < 2 ^ 63"
    and "list_all is_digit ds" and "ds \<noteq> []" and "p = [] \<or> \<not> is_digit (last p)"
  shows "loadConfig (Some cfg) t (p @ ds) =
    (let k = parse_digits ds in
     if k \<ge> 2 ^ 63 then Inl NumberFailed
     else if 1 \<le> k \<and> k \<le> length ports
     then Inr (cfg\<lparr>sc_TCPPort := ports ! (k - 1), sc_RPCPort := i64 (ports ! (k - 1) + 1000),
                   sc_HTTPPort := i64 (ports ! (k - 1) + 2000)\<rparr>)
     else Inl (IndexOutside (int k)))"
proof -
  have "trailing_digits (p @ ds) = ds" unfolding trailing_digits_def by (rule takeWhile_rev_suffix [OF assms(3,5)])
  moreover have "nat (int k - 1) = k - 1" for k by simp
  ultimately show ?thesis using assms(1,4) by (auto simp: loadConfig_def Let_def)
qed

definition demo_config :: server_config where
  "demo_config = \<lparr>sc_TCPPort = 0, sc_RPCPort = 0, sc_HTTPPort = 0, sc_MaxConnections = 10,
     sc_Nodes = [''gateway'' \<mapsto> [8001, 8002]]\<rparr>"

text \<open>\<open>gateway2\<close> and \<open>gateway02\<close> are different nodes with the same ports.\<close>

theorem loadConfig_ports_witness:
  "loadConfig (Some demo_config) ''gateway'' ''gateway2'' = Inr (demo_config\<lparr>sc_TCPPort := 8002, sc_RPCPort := 9002, sc_HTTPPort := 10002\<rparr>) \<and>
   loadConfig (Some demo_config) ''gateway'' ''gateway02'' = loadConfig (Some demo_config) ''gateway'' ''gateway2'' \<and>
   loadConfig (Some demo_config) ''gateway'' ''gateway3'' = Inl (IndexOutside 3)"
proof -
  have n: "sc_Nodes demo_config ''gateway'' = Some [8001, 8002]" by (simp add: demo_config_def)
  have l: "list_all is_digit ''2''" "list_all is_digit ''02''" "list_all is_digit ''3''" "\<not> is_digit (last ''gateway'')"
    by code_simp+
  have p: "parse_digits ''2'' = 2" "parse_digits ''02'' = 2" "parse_digits ''3'' = 3" by code_simp+
  show ?thesis
    using loadConfig_ports [OF n _ l(1), of "''gateway''"] loadConfig_ports [OF n _ l(2), of "''gateway''"]
      loadConfig_ports [OF n _ l(3), of "''gateway''"] l(4)
    by (simp add: p)
qed

text \<open>Start-up.\<close>

lemma Register_lock: "Register et now i rg d = (r, rg', d') \<Longrightarrow> rg_locked rg' = rg_locked rg"
  by (auto simp: Register_def Let_def split: if_splits option.splits prod.splits)

lemma Register_stored:
  assumes "Register et now i rg d = (Ret None, rg', d')"
  shows "rg_services rg' (si_NodeID i) = Some (i\<lparr>si_UpdateTime := unix now\<rparr>)"
  using assms by (auto simp: Register_def Let_def split: if_splits option.splits prod.splits)

definition own_info :: "time \<Rightarrow> ('b, 's, 'h, 'n, 'd) base_server \<Rightarrow> service_info" where
  "own_info now bs = \<lparr>si_NodeID = bs_nodeID bs, si_NodeType = bs_nodeType bs, si_Address = ''127.0.0.1'',
     si_Port = sc_RPCPort (bs_config bs), si_Load = 0, si_Status = ''online'', si_Metadata = Some [], si_UpdateTime = unix now\<rparr>"

lemma base_Start_registers:
  assumes "base_Start et now1 now2 free bs = Ret (e, bs1)" and "e \<noteq> Some AlreadyStarted" and "e \<noteq> Some ListenGRPCFailed"
  obtains err rg d where "Register et now2 (own_info now1 bs) (bs_registry bs) (bs_etcd bs) = (Ret err, rg, d)"
    and "bs_status bs = ''initializing''" and "e = map_option RegisterFailed err"
    and "bs1 = (bs\<lparr>bs_listening := True, bs_registry := rg, bs_etcd := d,
      bs_loops := (if e = None then Suc (bs_loops bs) else bs_loops bs),
      bs_status := (if e = None then ''running'' else bs_status bs)\<rparr>)"
proof -
  obtain r rg d where reg: "Register et now2 (own_info now1 bs) (bs_registry bs) (bs_etcd bs) = (r, rg, d)"
    by (metis prod_cases3)
  have ok: "bs_status bs = ''initializing''" "\<not> (bs_listening bs \<or> \<not> free)"
    using assms by (auto simp: base_Start_def split: if_splits)
  note start = assms(1) [unfolded base_Start_def Let_def own_info_def [symmetric] reg prod.case]
  show ?thesis
  proof (cases r)
    case (Ret err)
    show ?thesis
    proof (cases err)
      case None
      then have "e = None" "bs1 = bs\<lparr>bs_listening := True, bs_registry := rg, bs_etcd := d,
          bs_loops := Suc (bs_loops bs), bs_status := ''running''\<rparr>"
        using start ok Ret by simp_all
      then show ?thesis using that reg ok None Ret by simp
    next
      case (Some x)
      then have "e = Some (RegisterFailed x)" "bs1 = bs\<lparr>bs_listening := True, bs_registry := rg, bs_etcd := d\<rparr>"
        using start ok Ret by simp_all
      then show ?thesis using that reg ok Some Ret by simp
    qed
  qed (use start ok in simp_all)
qed

text \<open>
  A start that fails to register keeps the gRPC listener: another Start fails on the port, and Stop
  does nothing.
\<close>

theorem failed_start_keeps_port:
  assumes "base_Start et now1 now2 True bs = Ret (Some (RegisterFailed e), bs1)"
  shows "bs_status bs1 = ''initializing'' \<and> bs_listening bs1 \<and>
    base_Start et t1 t2 free bs1 = Ret (Some ListenGRPCFailed, bs1) \<and> base_Stop nl et ops keys in_accept bs1 = Ret bs1"
proof -
  have "bs_status bs1 = ''initializing'' \<and> bs_listening bs1"
    by (rule base_Start_registers [OF assms]) (simp_all, metis map_option_eq_Some option.simps(3))
  then show ?thesis by (simp add: base_Start_def base_Stop_def)
qed

definition demo_base :: "(unit, unit, unit, mem_nsq, (string \<times> service_info) list) base_server" where
  "demo_base = \<lparr>bs_config = demo_config\<lparr>sc_RPCPort := 9001\<rparr>, bs_nodeType = ''gateway'', bs_nodeID = ''gateway1'',
     bs_status = ''initializing'', bs_actorSystem = NewActorSystem ''gateway-gateway1'', bs_tcpServer = None,
     bs_nsqManager = demo_nsq_manager, bs_registry = demo_registry, bs_listening = False, bs_cancelled = False,
     bs_loops = 0, bs_loopStuck = False, bs_stopPending = False,
     bs_nsq = \<lparr>mq_down = [], mq_addr = [], mq_log = []\<rparr>, bs_etcd = []\<rparr>"

text \<open>An etcd that is out of reach for writes.\<close>

definition no_etcd :: "(service_info, (string \<times> service_info) list) etcd" where
  "no_etcd = mem_etcd\<lparr>et_Put := (\<lambda>c k v l d. (False, d))\<rparr>"

theorem failed_start_keeps_port_witness:
  "\<exists>bs1. base_Start no_etcd 0 0 True demo_base = Ret (Some (RegisterFailed EtcdFailed), bs1) \<and>
     base_Start mem_etcd 0 0 True demo_base \<noteq> Ret (Some (RegisterFailed EtcdFailed), bs1) \<and>
     base_Start no_etcd 1 1 True bs1 = Ret (Some ListenGRPCFailed, bs1)"
proof -
  obtain bs1 where s: "base_Start no_etcd 0 0 True demo_base = Ret (Some (RegisterFailed EtcdFailed), bs1)"
    by (simp add: base_Start_def demo_base_def no_etcd_def mem_etcd_def Register_def demo_registry_def Let_def)
  have "base_Start mem_etcd 0 0 True demo_base \<noteq> Ret (Some (RegisterFailed EtcdFailed), bs1)"
    by (simp add: base_Start_def demo_base_def mem_etcd_def Register_def demo_registry_def Let_def)
  then show ?thesis using s failed_start_keeps_port [OF s] by blast
qed

lemma first_tick_sticks:
  assumes "base_Start et now1 now2 True bs = Ret (None, bs1)" and "\<not> rg_locked (bs_registry bs)" and "\<not> bs_loopStuck bs"
  obtains rg where "loadUpdate_tick et now bs1 = bs1\<lparr>bs_registry := rg, bs_loopStuck := True\<rparr>"
    and "rg_locked rg" and "bs_loops bs1 > 0" and "bs_status bs1 = ''running''"
proof -
  obtain err rg d where reg: "Register et now2 (own_info now1 bs) (bs_registry bs) (bs_etcd bs) = (Ret None, rg, d)"
    and bs1: "bs1 = bs\<lparr>bs_listening := True, bs_registry := rg, bs_etcd := d,
      bs_loops := Suc (bs_loops bs), bs_status := ''running''\<rparr>"
    by (rule base_Start_registers [OF assms(1)]) simp_all
  obtain r2 rg2 d2 where up: "UpdateLoad et now (bs_nodeID bs) (calculateLoad bs1) rg d = (r2, rg2, d2)" by (metis prod_cases3)
  have stored: "rg_services rg (bs_nodeID bs) = Some ((own_info now1 bs)\<lparr>si_UpdateTime := unix now2\<rparr>)"
    using Register_stored [OF reg] by (simp add: own_info_def)
  have unl: "\<not> rg_locked rg" using Register_lock [OF reg] assms(2) by simp
  have stuck: "r2 = Blocked" "d2 = d" "rg_locked rg2"
    using up stored unl by (auto simp: UpdateLoad_def Register_def Let_def)
  show ?thesis
    by (rule that [of rg2]) (use assms(3) up stuck in \<open>simp_all add: loadUpdate_tick_def bs1\<close>)
qed

lemma stuck_ticks: "bs_loopStuck bs \<Longrightarrow> fold (loadUpdate_tick et) ticks bs = bs"
  by (induction ticks) (simp_all add: loadUpdate_tick_def)

text \<open>Whatever the load updates of a started server do, etcd keeps the description it registered.\<close>

lemma ticks_keep_etcd:
  assumes "base_Start et now1 now2 True bs = Ret (None, bs1)" and "\<not> rg_locked (bs_registry bs)" and "\<not> bs_loopStuck bs"
  shows "bs_etcd (fold (loadUpdate_tick et) ticks bs1) = bs_etcd bs1"
proof (cases ticks)
  case (Cons now ts)
  obtain rg where "loadUpdate_tick et now bs1 = bs1\<lparr>bs_registry := rg, bs_loopStuck := True\<rparr>"
    by (rule first_tick_sticks [OF assms])
  then show ?thesis by (simp add: Cons stuck_ticks)
qed simp

text \<open>
  C24. After a successful start the first load update, 30 seconds later, blocks for ever in
  UpdateLoad; from then on Stop never returns, an UpdateLoad RPC blocks as well, and no later
  tick changes anything.
\<close>

theorem stop_never_returns:
  assumes "base_Start et now1 now2 True bs = Ret (None, bs1)" and "\<not> rg_locked (bs_registry bs)"
    and "\<not> bs_loopStuck bs" and "bs2 = loadUpdate_tick et now bs1"
  shows "bs_loopStuck bs2 \<and> bs_etcd bs2 = bs_etcd bs1 \<and> base_Stop nl et ops keys in_accept bs2 \<noteq> Ret bs' \<and>
    rpc_UpdateLoad et text_of now' req bs2 = Blocked \<and> loadUpdate_tick et now' bs2 = bs2"
proof -
  obtain rg where t: "bs2 = bs1\<lparr>bs_registry := rg, bs_loopStuck := True\<rparr>" "rg_locked rg"
    "bs_loops bs1 > 0" "bs_status bs1 = ''running''"
    by (rule first_tick_sticks [OF assms(1-3)]) (use assms(4) in blast)
  have "Unregister et i rg d' = (Blocked, rg, d')" for i d' using t(2) by (simp add: Unregister_def)
  then have "base_Stop nl et ops keys in_accept bs2 \<noteq> Ret bs'" using t by (auto simp: base_Stop_def Let_def)
  moreover have "rpc_UpdateLoad et text_of now' req bs2 = Blocked"
    using t by (simp add: rpc_UpdateLoad_def update_registry_load_def UpdateLoad_def)
  ultimately show ?thesis by (simp add: t loadUpdate_tick_def)
qed

theorem stop_never_returns_witness:
  "\<exists>bs1. base_Start mem_etcd 0 0 True demo_base = Ret (None, bs1) \<and>
     (\<forall>in_accept bs'. base_Stop mem_nsq_lib mem_etcd (\<lambda>_. service_ops) [] in_accept (loadUpdate_tick mem_etcd (\<lambda>_. 30 * second) bs1) \<noteq> Ret bs')"
proof -
  obtain bs1 where s: "base_Start mem_etcd 0 0 True demo_base = Ret (None, bs1)"
    by (simp add: base_Start_def demo_base_def mem_etcd_def Register_def demo_registry_def Let_def)
  show ?thesis
    using stop_never_returns [OF s _ _ refl, of "\<lambda>_. 30 * second"] s by (auto simp: demo_base_def demo_registry_def)
qed

end
