(* ===== verification/Wire.thy ===== *)
theory Wire
  imports Values Balancer Queue "HOL-Library.AList" "HOL-Library.List_Lexorder" "HOL-Library.Char_ord"
begin

text \<open>
  What travels as JSON: the messages of \<open>internal/mq/nsq_msg.go\<close> through the queue and the service
  descriptions of \<open>internal/discovery/etcd.go\<close> through etcd, with the field tags of their structs. A
  struct is decoded as \<open>Unmarshal\<close> does: a key names a field exactly or up to case, unknown keys are
  skipped, \<open>null\<close> leaves a field, the last of equal keys wins, and a value of another type is an
  error, after which the program drops the result.
\<close>

section \<open>Decoding a struct\<close>

type_synonym 'r field = "string \<times> (json \<Rightarrow> 'r \<Rightarrow> 'r option)"

text \<open>The long s and the Kelvin sign fold to ASCII letters.\<close>

function fold_key :: "string \<Rightarrow> string" where
  "fold_key [] = []"
| "fold_key (c # s) =
     (if take 2 (c # s) = [CHR 0xC5, CHR 0xBF] then CHR ''S'' # fold_key (drop 1 s)
      else if take 3 (c # s) = [CHR 0xE2, CHR 0x84, CHR 0xAA] then CHR ''K'' # fold_key (drop 2 s)
      else (if in_range 97 122 c then char_of (byte_of c - 32) else c) # fold_key s)"
  by pat_completeness auto
termination by (relation "measure length") auto

definition find_field :: "'r field list \<Rightarrow> string \<Rightarrow> (json \<Rightarrow> 'r \<Rightarrow> 'r option) option" where
  "find_field fs k =
     (case map_of fs k of
        Some f \<Rightarrow> Some f
      | None \<Rightarrow> map_option snd (List.find (\<lambda>f. fold_key (fst f) = fold_key k) fs))"

definition decode_member :: "'r field list \<Rightarrow> string \<times> json \<Rightarrow> 'r option \<Rightarrow> 'r option" where
  "decode_member fs kv acc =
     (case acc of None \<Rightarrow> None
      | Some r \<Rightarrow> (case find_field fs (fst kv) of None \<Rightarrow> Some r | Some f \<Rightarrow> f (snd kv) r))"

definition decode_struct :: "'r field list \<Rightarrow> json \<Rightarrow> 'r \<Rightarrow> 'r option" where
  "decode_struct fs j r =
     (case j of JObj kvs \<Rightarrow> fold (decode_member fs) kvs (Some r) | JNull \<Rightarrow> Some r | _ \<Rightarrow> None)"

definition unmarshal_struct :: "'r field list \<Rightarrow> 'r \<Rightarrow> bytes \<Rightarrow> 'r option" where
  "unmarshal_struct fs zero bs =
     (case json_parse (string_of bs) of None \<Rightarrow> None | Some j \<Rightarrow> decode_struct fs j zero)"

text \<open>The field types: strings, integers of a width, string maps, and maps of any values.\<close>

definition get_string :: "(string \<Rightarrow> 'r \<Rightarrow> 'r) \<Rightarrow> json \<Rightarrow> 'r \<Rightarrow> 'r option" where
  "get_string upd j r = (case j of JString s \<Rightarrow> Some (upd s r) | JNull \<Rightarrow> Some r | _ \<Rightarrow> None)"

definition parse_uint :: "string \<Rightarrow> int option" where
  "parse_uint s = (if s \<noteq> [] \<and> list_all is_digit s then Some (int (parse_digits s)) else None)"

definition parse_int :: "string \<Rightarrow> int option" where
  "parse_int s =
     (case s of [] \<Rightarrow> None | c # t \<Rightarrow> if c = CHR ''-'' then map_option uminus (parse_uint t) else parse_uint s)"

definition get_int :: "int \<Rightarrow> (int \<Rightarrow> 'r \<Rightarrow> 'r) \<Rightarrow> json \<Rightarrow> 'r \<Rightarrow> 'r option" where
  "get_int w upd j r =
     (case j of
        JNum s \<Rightarrow> (case parse_int s of Some n \<Rightarrow> if - w \<le> n \<and> n < w then Some (upd n r) else None | None \<Rightarrow> None)
      | JNull \<Rightarrow> Some r | _ \<Rightarrow> None)"

definition get_u64 :: "(u64 \<Rightarrow> 'r \<Rightarrow> 'r) \<Rightarrow> json \<Rightarrow> 'r \<Rightarrow> 'r option" where
  "get_u64 upd j r =
     (case j of
        JNum s \<Rightarrow> (case parse_uint s of Some n \<Rightarrow> if n < 2 ^ 64 then Some (upd (word_of_int n) r) else None | None \<Rightarrow> None)
      | JNull \<Rightarrow> Some r | _ \<Rightarrow> None)"

text \<open>A string map, \<open>None\<close> for \<open>nil\<close>, kept in the order in which \<open>Marshal\<close> writes it.\<close>

fun string_entries :: "(string \<times> json) list \<Rightarrow> (string \<times> string) list option" where
  "string_entries [] = Some []"
| "string_entries ((k, JString s) # kvs) = map_option (Cons (k, s)) (string_entries kvs)"
| "string_entries ((k, JNull) # kvs) = map_option (Cons (k, [])) (string_entries kvs)"
| "string_entries (_ # kvs) = None"

definition get_strings ::
  "('r \<Rightarrow> (string \<times> string) list option) \<Rightarrow> ((string \<times> string) list option \<Rightarrow> 'r \<Rightarrow> 'r) \<Rightarrow> json \<Rightarrow> 'r \<Rightarrow> 'r option" where
  "get_strings sel upd j r =
     (case j of
        JObj kvs \<Rightarrow>
          map_option (\<lambda>xs. upd (Some (sort_key fst (AList.clearjunk (rev xs @ case_option [] id (sel r))))) r) (string_entries kvs)
      | JNull \<Rightarrow> Some (upd None r) | _ \<Rightarrow> None)"

text \<open>A map of any values: the numbers become doubles, and one that is too large is an error.\<close>

definition get_values ::
  "('r \<Rightarrow> string \<rightharpoonup> iface) \<Rightarrow> ((string \<rightharpoonup> iface) \<Rightarrow> 'r \<Rightarrow> 'r) \<Rightarrow> json \<Rightarrow> 'r \<Rightarrow> 'r option" where
  "get_values sel upd j r =
     (case j of
        JObj kvs \<Rightarrow>
          if floats_ok j then Some (upd (sel r ++ map_of (rev (map (\<lambda>(k, v). (k, to_iface v)) kvs))) r) else None
      | JNull \<Rightarrow> Some (upd Map.empty r) | _ \<Rightarrow> None)"

text \<open>Encoding: \<open>omitempty\<close> leaves out an empty field; a map goes in the order of its keys.\<close>

definition omit_empty :: "bool \<Rightarrow> string \<Rightarrow> json \<Rightarrow> (string \<times> json) list" where
  "omit_empty omitted k j = (if omitted then [] else [(k, j)])"

definition put_values :: "(string \<rightharpoonup> json) \<Rightarrow> json" where
  "put_values m = JObj (map (\<lambda>k. (k, the (m k))) (sorted_list_of_set (dom m)))"

definition put_u64 :: "u64 \<Rightarrow> json" where
  "put_u64 w = JNum (show_u64 w)"

section \<open>The messages\<close>

definition system_json :: "json system_message \<Rightarrow> json" where
  "system_json m = JObj (
     [(''type'', JString (sm_Type m))] @ omit_empty (sm_Target m = []) ''target'' (JString (sm_Target m)) @
     [(''command'', JString (sm_Command m))] @ omit_empty (dom (sm_Args m) = {}) ''args'' (put_values (sm_Args m)) @
     [(''timestamp'', JInt (sm_Timestamp m))])"

definition system_fields :: "iface system_message field list" where
  "system_fields =
     [(''type'', get_string (\<lambda>s m. m\<lparr>sm_Type := s\<rparr>)), (''target'', get_string (\<lambda>s m. m\<lparr>sm_Target := s\<rparr>)),
      (''command'', get_string (\<lambda>s m. m\<lparr>sm_Command := s\<rparr>)), (''args'', get_values sm_Args (\<lambda>a m. m\<lparr>sm_Args := a\<rparr>)),
      (''timestamp'', get_int (2 ^ 63) (\<lambda>n m. m\<lparr>sm_Timestamp := n\<rparr>))]"

definition system_marshal :: "json system_message \<Rightarrow> bytes option" where
  "system_marshal m = Some (bytes_of (jprint (system_json m)))"

definition system_unmarshal :: "bytes \<Rightarrow> iface system_message option" where
  "system_unmarshal =
     unmarshal_struct system_fields \<lparr>sm_Type = [], sm_Target = [], sm_Command = [], sm_Args = Map.empty, sm_Timestamp = 0\<rparr>"

definition game_json :: "json game_message \<Rightarrow> json" where
  "game_json m = JObj (
     [(''type'', JString (gm_Type m))] @ omit_empty (gm_RoomID m = 0) ''room_id'' (put_u64 (gm_RoomID m)) @
     omit_empty (gm_UserID m = 0) ''user_id'' (put_u64 (gm_UserID m)) @
     omit_empty (dom (gm_Data m) = {}) ''data'' (put_values (gm_Data m)) @ [(''timestamp'', JInt (gm_Timestamp m))])"

definition game_fields :: "iface game_message field list" where
  "game_fields =
     [(''type'', get_string (\<lambda>s m. m\<lparr>gm_Type := s\<rparr>)), (''room_id'', get_u64 (\<lambda>w m. m\<lparr>gm_RoomID := w\<rparr>)),
      (''user_id'', get_u64 (\<lambda>w m. m\<lparr>gm_UserID := w\<rparr>)), (''data'', get_values gm_Data (\<lambda>a m. m\<lparr>gm_Data := a\<rparr>)),
      (''timestamp'', get_int (2 ^ 63) (\<lambda>n m. m\<lparr>gm_Timestamp := n\<rparr>))]"

definition game_marshal :: "json game_message \<Rightarrow> bytes option" where
  "game_marshal m = Some (bytes_of (jprint (game_json m)))"

definition game_unmarshal :: "bytes \<Rightarrow> iface game_message option" where
  "game_unmarshal =
     unmarshal_struct game_fields \<lparr>gm_Type = [], gm_RoomID = 0, gm_UserID = 0, gm_Data = Map.empty, gm_Timestamp = 0\<rparr>"

definition chat_json :: "chat_message \<Rightarrow> json" where
  "chat_json m = JObj
     [(''from_user_id'', put_u64 (cm_FromUserID m)), (''to_user_id'', put_u64 (cm_ToUserID m)),
      (''channel'', JInt (cm_Channel m)), (''content'', JString (cm_Content m)), (''timestamp'', JInt (cm_Timestamp m))]"

definition chat_fields :: "chat_message field list" where
  "chat_fields =
     [(''from_user_id'', get_u64 (\<lambda>w m. m\<lparr>cm_FromUserID := w\<rparr>)), (''to_user_id'', get_u64 (\<lambda>w m. m\<lparr>cm_ToUserID := w\<rparr>)),
      (''channel'', get_int (2 ^ 31) (\<lambda>n m. m\<lparr>cm_Channel := n\<rparr>)), (''content'', get_string (\<lambda>s m. m\<lparr>cm_Content := s\<rparr>)),
      (''timestamp'', get_int (2 ^ 63) (\<lambda>n m. m\<lparr>cm_Timestamp := n\<rparr>))]"

definition chat_marshal :: "chat_message \<Rightarrow> bytes option" where
  "chat_marshal m = Some (bytes_of (jprint (chat_json m)))"

definition chat_unmarshal :: "bytes \<Rightarrow> chat_message option" where
  "chat_unmarshal =
     unmarshal_struct chat_fields \<lparr>cm_FromUserID = 0, cm_ToUserID = 0, cm_Channel = 0, cm_Content = [], cm_Timestamp = 0\<rparr>"

section \<open>Service descriptions\<close>

definition service_json :: "service_info \<Rightarrow> json" where
  "service_json i = JObj
     [(''node_id'', JString (si_NodeID i)), (''node_type'', JString (si_NodeType i)), (''address'', JString (si_Address i)),
      (''port'', JInt (si_Port i)), (''load'', JInt (si_Load i)), (''status'', JString (si_Status i)),
      (''metadata'', case si_Metadata i of None \<Rightarrow> JNull | Some xs \<Rightarrow> JObj (map (apsnd JString) (sort_key fst xs))),
      (''update_time'', JInt (si_UpdateTime i))]"

definition service_fields :: "service_info field list" where
  "service_fields =
     [(''node_id'', get_string (\<lambda>s i. i\<lparr>si_NodeID := s\<rparr>)), (''node_type'', get_string (\<lambda>s i. i\<lparr>si_NodeType := s\<rparr>)),
      (''address'', get_string (\<lambda>s i. i\<lparr>si_Address := s\<rparr>)), (''port'', get_int (2 ^ 63) (\<lambda>n i. i\<lparr>si_Port := n\<rparr>)),
      (''load'', get_int (2 ^ 63) (\<lambda>n i. i\<lparr>si_Load := n\<rparr>)), (''status'', get_string (\<lambda>s i. i\<lparr>si_Status := s\<rparr>)),
      (''metadata'', get_strings si_Metadata (\<lambda>xs i. i\<lparr>si_Metadata := xs\<rparr>)),
      (''update_time'', get_int (2 ^ 63) (\<lambda>n i. i\<lparr>si_UpdateTime := n\<rparr>))]"

definition service_marshal :: "service_info \<Rightarrow> bytes option" where
  "service_marshal i = Some (bytes_of (jprint (service_json i)))"

definition service_unmarshal :: "bytes \<Rightarrow> service_info option" where
  "service_unmarshal = unmarshal_struct service_fields
     \<lparr>si_NodeID = [], si_NodeType = [], si_Address = [], si_Port = 0, si_Load = 0, si_Status = [], si_Metadata = None,
      si_UpdateTime = 0\<rparr>"

section \<open>Round trips\<close>

lemma parse_uint_show_nat: "parse_uint (show_nat n) = Some (int n)"
  using show_nat_digits [of n] by (simp add: parse_uint_def)

lemma parse_int_show: "parse_int (show_int n) = Some n"
proof (cases "n < 0")
  case True
  then show ?thesis by (simp add: parse_int_def show_int_def parse_uint_show_nat)
next
  case False
  obtain c t where c: "show_nat (nat n) = c # t" "is_digit c" by (rule show_nat_hd)
  have "parse_int (show_nat (nat n)) = parse_uint (show_nat (nat n))" using is_digit_not(1) [OF c(2)] c(1) by (simp add: parse_int_def)
  then show ?thesis using False by (simp add: show_int_def parse_uint_show_nat)
qed

lemma get_int_JInt: "- w \<le> n \<Longrightarrow> n < w \<Longrightarrow> get_int w upd (JInt n) r = Some (upd n r)"
  by (simp add: get_int_def parse_int_show)

lemma get_u64_put: "get_u64 upd (put_u64 w) r = Some (upd w r)"
  using uint_lt2p [of w] by (simp add: get_u64_def put_u64_def show_u64_def parse_uint_show_nat)

lemma get_string_JString [simp]: "get_string upd (JString s) r = Some (upd s r)"
  by (simp add: get_string_def)

lemma wf_put_u64 [simp]: "wf_json (put_u64 w)"
proof -
  have "show_u64 w = show_int (int (unat w))" by (simp add: show_u64_def show_int_def)
  then show ?thesis by (auto simp: put_u64_def)
qed

text \<open>What arrives of a map of values: the same keys, each value as it is decoded.\<close>

definition received :: "(string \<rightharpoonup> json) \<Rightarrow> string \<rightharpoonup> iface" where
  "received m = (\<lambda>k. map_option to_iface (m k))"

lemma get_values_put:
  assumes "finite (dom m)" and "sel r = Map.empty" and "\<And>k j. m k = Some j \<Longrightarrow> floats_ok j"
  shows "get_values sel upd (put_values m) r = Some (upd (received m) r)"
proof -
  let ?ks = "sorted_list_of_set (dom m)"
  have "map_of (rev (map (\<lambda>(k, v). (k, to_iface v)) (map (\<lambda>k. (k, the (m k))) ?ks))) = received m"
  proof
    fix k
    have "map_of (map (\<lambda>k. (k, to_iface (the (m k)))) (rev ?ks)) k = (if k \<in> dom m then Some (to_iface (the (m k))) else None)"
      using assms(1) by (simp add: map_of_map_restrict restrict_map_def)
    then show "map_of (rev (map (\<lambda>(k, v). (k, to_iface v)) (map (\<lambda>k. (k, the (m k))) ?ks))) k = received m k"
      by (cases "m k") (auto simp: rev_map comp_def received_def split: if_splits)
  qed
  moreover have "floats_ok (put_values m)" using assms(1,3) by (auto simp: put_values_def list_all_iff)
  ultimately show ?thesis using assms(2) by (simp add: get_values_def put_values_def)
qed

lemma wf_put_values:
  "finite (dom m) \<Longrightarrow> (\<And>k j. m k = Some j \<Longrightarrow> utf8_ok k \<and> wf_json j) \<Longrightarrow> wf_json (put_values m)"
  by (auto simp: put_values_def)

lemma unmarshal_marshal:
  assumes "wf_json j"
  shows "unmarshal_struct fs zero (bytes_of (jprint j)) = decode_struct fs j zero"
  using json_parse_jprint [OF assms] by (simp add: unmarshal_struct_def)

text \<open>What a message may hold for its round trip: valid strings, a finite map, integers of their width.\<close>

definition int64 :: "int \<Rightarrow> bool" where
  "int64 n \<longleftrightarrow> - (2 ^ 63) \<le> n \<and> n < 2 ^ 63"

definition values_ok :: "(string \<rightharpoonup> json) \<Rightarrow> bool" where
  "values_ok m \<longleftrightarrow> finite (dom m) \<and> (\<forall>k j. m k = Some j \<longrightarrow> utf8_ok k \<and> wf_json j \<and> ints_ok j)"

definition system_ok :: "json system_message \<Rightarrow> bool" where
  "system_ok m \<longleftrightarrow> utf8_ok (sm_Type m) \<and> utf8_ok (sm_Target m) \<and> utf8_ok (sm_Command m) \<and> values_ok (sm_Args m) \<and>
     int64 (sm_Timestamp m)"

definition game_ok :: "json game_message \<Rightarrow> bool" where
  "game_ok m \<longleftrightarrow> utf8_ok (gm_Type m) \<and> values_ok (gm_Data m) \<and> int64 (gm_Timestamp m)"

definition chat_ok :: "chat_message \<Rightarrow> bool" where
  "chat_ok m \<longleftrightarrow> utf8_ok (cm_Content m) \<and> - (2 ^ 31) \<le> cm_Channel m \<and> cm_Channel m < 2 ^ 31 \<and> int64 (cm_Timestamp m)"

definition typed_strings :: "(string \<times> string) list \<Rightarrow> bool" where
  "typed_strings xs \<longleftrightarrow> sorted (map fst xs) \<and> distinct (map fst xs) \<and> (\<forall>(k, v) \<in> set xs. utf8_ok k \<and> utf8_ok v)"

definition service_ok :: "service_info \<Rightarrow> bool" where
  "service_ok i \<longleftrightarrow> utf8_ok (si_NodeID i) \<and> utf8_ok (si_NodeType i) \<and> utf8_ok (si_Address i) \<and> utf8_ok (si_Status i) \<and>
     int64 (si_Port i) \<and> int64 (si_Load i) \<and> int64 (si_UpdateTime i) \<and>
     pred_option typed_strings (si_Metadata i)"

text \<open>The messages as they arrive.\<close>

definition system_received :: "json system_message \<Rightarrow> iface system_message" where
  "system_received m =
     \<lparr>sm_Type = sm_Type m, sm_Target = sm_Target m, sm_Command = sm_Command m, sm_Args = received (sm_Args m),
      sm_Timestamp = sm_Timestamp m\<rparr>"

definition game_received :: "json game_message \<Rightarrow> iface game_message" where
  "game_received m =
     \<lparr>gm_Type = gm_Type m, gm_RoomID = gm_RoomID m, gm_UserID = gm_UserID m, gm_Data = received (gm_Data m),
      gm_Timestamp = gm_Timestamp m\<rparr>"

lemma received_empty [simp]: "received Map.empty = Map.empty"
  by (simp add: received_def)

lemma received_NewSystemMessage [simp]:
  "system_received (NewSystemMessage now t target command args) = NewSystemMessage now t target command (received args)"
  by (simp add: system_received_def NewSystemMessage_def)

lemmas decode_simps = decode_struct_def decode_member_def find_field_def omit_empty_def get_int_JInt get_u64_put get_values_put
  int64_def values_ok_def

lemma system_roundtrip:
  assumes "system_ok m" and "system_marshal m = Some bs"
  shows "system_unmarshal bs = Some (system_received m)"
proof -
  have "wf_json (system_json m)"
    using assms(1) by (auto simp: system_json_def system_ok_def values_ok_def omit_empty_def wf_put_values)
  then have "system_unmarshal bs = decode_struct system_fields (system_json m)
      \<lparr>sm_Type = [], sm_Target = [], sm_Command = [], sm_Args = Map.empty, sm_Timestamp = 0\<rparr>"
    using assms(2) unmarshal_marshal by (auto simp: system_marshal_def system_unmarshal_def)
  also have "\<dots> = Some (system_received m)"
    using assms(1) by (auto simp: system_json_def system_fields_def system_ok_def system_received_def decode_simps ints_floats)
  finally show ?thesis .
qed

lemma game_roundtrip:
  assumes "game_ok m" and "game_marshal m = Some bs"
  shows "game_unmarshal bs = Some (game_received m)"
proof -
  have "wf_json (game_json m)"
    using assms(1) by (auto simp: game_json_def game_ok_def values_ok_def omit_empty_def wf_put_values)
  then have "game_unmarshal bs = decode_struct game_fields (game_json m)
      \<lparr>gm_Type = [], gm_RoomID = 0, gm_UserID = 0, gm_Data = Map.empty, gm_Timestamp = 0\<rparr>"
    using assms(2) unmarshal_marshal by (auto simp: game_marshal_def game_unmarshal_def)
  also have "\<dots> = Some (game_received m)"
    using assms(1) by (auto simp: game_json_def game_fields_def game_ok_def game_received_def decode_simps ints_floats)
  finally show ?thesis .
qed

lemma chat_roundtrip:
  assumes "chat_ok m" and "chat_marshal m = Some bs"
  shows "chat_unmarshal bs = Some m"
proof -
  have "wf_json (chat_json m)"
    using assms(1) by (auto simp: chat_json_def chat_ok_def)
  then have "chat_unmarshal bs = decode_struct chat_fields (chat_json m)
      \<lparr>cm_FromUserID = 0, cm_ToUserID = 0, cm_Channel = 0, cm_Content = [], cm_Timestamp = 0\<rparr>"
    using assms(2) unmarshal_marshal by (auto simp: chat_marshal_def chat_unmarshal_def)
  also have "\<dots> = Some m"
    using assms(1) by (auto simp: chat_json_def chat_fields_def chat_ok_def decode_simps)
  finally show ?thesis .
qed

lemma string_entries_JString: "string_entries (map (apsnd JString) xs) = Some xs"
  by (induction xs) auto

lemma sort_key_rev:
  assumes "sorted (map fst xs)" and "distinct (map fst xs)"
  shows "sort_key fst (AList.clearjunk (rev xs)) = xs"
proof -
  have "distinct (map fst (rev xs))" using assms(2) by (simp flip: rev_map)
  then have c: "AList.clearjunk (rev xs) = rev xs" by (simp add: distinct_clearjunk_id)
  have inj: "inj_on fst (set (sort_key fst (rev xs)) \<union> set xs)" using assms(2) by (simp add: distinct_map)
  have d: "distinct (map fst (sort_key fst (rev xs)))" using assms(2) by (simp add: distinct_map)
  show ?thesis unfolding c
    by (rule map_sorted_distinct_set_unique [OF inj]) (use assms d in \<open>simp_all add: sorted_sort_key\<close>)
qed

lemma service_roundtrip:
  assumes "service_ok i" and "service_marshal i = Some bs"
  shows "service_unmarshal bs = Some i"
proof -
  have "wf_json (service_json i)"
    using assms(1) by (auto simp: service_json_def service_ok_def typed_strings_def split: option.splits)
  then have "service_unmarshal bs = decode_struct service_fields (service_json i)
      \<lparr>si_NodeID = [], si_NodeType = [], si_Address = [], si_Port = 0, si_Load = 0, si_Status = [], si_Metadata = None,
       si_UpdateTime = 0\<rparr>"
    using assms(2) unmarshal_marshal by (auto simp: service_marshal_def service_unmarshal_def)
  also have "decode_struct service_fields (service_json i)
      \<lparr>si_NodeID = [], si_NodeType = [], si_Address = [], si_Port = 0, si_Load = 0, si_Status = [], si_Metadata = None,
       si_UpdateTime = 0\<rparr> = Some i"
    using assms(1) by (cases "si_Metadata i") (auto simp: service_json_def service_fields_def service_ok_def decode_simps
        get_strings_def typed_strings_def string_entries_JString sort_key_rev sort_key_id_if_sorted)
  finally show ?thesis .
qed

section \<open>What comes out is typed\<close>

lemma decode_struct_keeps:
  assumes "decode_struct fs j r = Some r'" and "P r" and "strings_ok j"
    and "\<And>k f v r r'. (k, f) \<in> set fs \<Longrightarrow> strings_ok v \<Longrightarrow> f v r = Some r' \<Longrightarrow> P r \<Longrightarrow> P r'"
  shows "P r'"
proof -
  have field: "P b" if ff: "find_field fs k = Some f" and fv: "strings_ok v" "f v a = Some b" "P a" for k f v a b
  proof -
    obtain k' where "(k', f) \<in> set fs"
    proof (cases "map_of fs k")
      case None
      then obtain x where "List.find (\<lambda>f. fold_key (fst f) = fold_key k) fs = Some x" "f = snd x"
        using ff by (auto simp: find_field_def)
      then have "(fst x, f) \<in> set fs" using find_Some_mem by fastforce
      then show ?thesis by (rule that)
    next
      case (Some g)
      then have "(k, f) \<in> set fs" using ff map_of_SomeD [of fs k g] by (simp add: find_field_def)
      then show ?thesis by (rule that)
    qed
    then show ?thesis using assms(4) fv by blast
  qed
  have "fold (decode_member fs) kvs (Some a) = Some b \<Longrightarrow> \<forall>kv \<in> set kvs. strings_ok (snd kv) \<Longrightarrow> P a \<Longrightarrow> P b" for kvs a b
  proof (induction kvs arbitrary: a)
    case (Cons kv kvs)
    have none: "fold (decode_member fs) xs None = None" for xs
      by (induction xs) (simp_all add: decode_member_def)
    obtain c where c: "decode_member fs kv (Some a) = Some c"
      using Cons.prems(1) none by (cases "decode_member fs kv (Some a)") simp_all
    then have "P c" using Cons.prems(2,3) field by (auto simp: decode_member_def split: option.splits)
    then show ?case using Cons.IH Cons.prems(1,2) c by simp
  qed simp
  then show ?thesis using assms(1-3) by (auto simp: decode_struct_def split: json.splits)
qed

text \<open>What each kind of field stores.\<close>

lemma get_string_typed: "get_string upd j r = Some r' \<Longrightarrow> strings_ok j \<Longrightarrow> (\<exists>s. utf8_ok s \<and> r' = upd s r) \<or> r' = r"
  by (auto simp: get_string_def split: json.splits)

lemma get_int_typed: "get_int w upd j r = Some r' \<Longrightarrow> (\<exists>n. - w \<le> n \<and> n < w \<and> r' = upd n r) \<or> r' = r"
  by (auto simp: get_int_def split: json.splits option.splits if_splits)

lemma get_u64_typed: "get_u64 upd j r = Some r' \<Longrightarrow> (\<exists>w. r' = upd w r) \<or> r' = r"
  by (auto simp: get_u64_def split: json.splits option.splits if_splits)

lemma string_entries_typed:
  "string_entries kvs = Some xs \<Longrightarrow> strings_ok (JObj kvs) \<Longrightarrow> \<forall>(k, v) \<in> set xs. utf8_ok k \<and> utf8_ok v"
  by (induction kvs arbitrary: xs rule: string_entries.induct) auto

lemma get_strings_typed:
  assumes "get_strings sel upd j r = Some r'" and "strings_ok j" and "pred_option typed_strings (sel r)"
  shows "\<exists>m. pred_option typed_strings m \<and> r' = upd m r"
proof (cases j)
  case (JObj kvs)
  let ?old = "case_option [] id (sel r)"
  obtain xs where xs: "string_entries kvs = Some xs" "r' = upd (Some (sort_key fst (AList.clearjunk (rev xs @ ?old)))) r"
    using assms(1) by (auto simp: get_strings_def JObj)
  have old: "\<forall>(k, v) \<in> set ?old. utf8_ok k \<and> utf8_ok v" using assms(3) by (cases "sel r") (auto simp: typed_strings_def)
  have "set (AList.clearjunk ys) \<subseteq> set ys" for ys :: "(string \<times> string) list"
    by (induction ys rule: clearjunk.induct) (auto simp: AList.delete_eq)
  then have "\<forall>(k, v) \<in> set (AList.clearjunk (rev xs @ ?old)). utf8_ok k \<and> utf8_ok v"
    using string_entries_typed [OF xs(1)] assms(2) old by (fastforce simp: JObj)
  moreover have "distinct (map fst (sort_key fst (AList.clearjunk (rev xs @ ?old))))"
    using distinct_clearjunk [of "rev xs @ ?old"] by (simp add: distinct_map)
  ultimately show ?thesis using xs(2)
    by (intro exI [of _ "Some (sort_key fst (AList.clearjunk (rev xs @ ?old)))"]) (auto simp: typed_strings_def sorted_sort_key)
next
  case JNull
  then show ?thesis using assms(1) by (intro exI [of _ None]) (auto simp: get_strings_def)
qed (use assms(1) in \<open>simp_all add: get_strings_def\<close>)

lemma utf8_ok_Nil [simp]: "utf8_ok []"
  by simp

lemma unmarshal_struct_keeps:
  assumes "P zero" and "\<And>k f v r r'. (k, f) \<in> set fs \<Longrightarrow> strings_ok v \<Longrightarrow> f v r = Some r' \<Longrightarrow> P r \<Longrightarrow> P r'"
  shows "pred_option P (unmarshal_struct fs zero bs)"
proof (cases "unmarshal_struct fs zero bs")
  case (Some r)
  then obtain j where j: "json_parse (string_of bs) = Some j" "decode_struct fs j zero = Some r"
    by (auto simp: unmarshal_struct_def split: option.splits)
  show ?thesis using decode_struct_keeps [where P = P, OF j(2) assms(1) json_parse_ok [OF j(1)] assms(2)] Some by simp
qed simp

lemmas field_typed = get_string_typed get_int_typed get_u64_typed

lemma service_unmarshal_typed: "pred_option service_ok (service_unmarshal bs)"
  unfolding service_unmarshal_def
proof (rule unmarshal_struct_keeps)
  fix k f v and r r' :: service_info
  assume "(k, f) \<in> set service_fields" "strings_ok v" "f v r = Some r'" "service_ok r"
  then show "service_ok r'"
    using get_strings_typed [of si_Metadata "\<lambda>xs i. i\<lparr>si_Metadata := xs\<rparr>" v r r']
    by (auto simp: service_fields_def service_ok_def typed_strings_def int64_def dest!: field_typed)
qed (simp add: service_ok_def int64_def)


definition wire_system :: "json system_message" where
  "wire_system = \<lparr>sm_Type = ''unicast'', sm_Target = [], sm_Command = [CHR 0x22, CHR 0x5C, CHR 0x0A, CHR 0xE4, CHR 0xBD, CHR 0xA0],
     sm_Args = [''key'' \<mapsto> JArr [JNull, JBool True, JInt (- 5)]], sm_Timestamp = - (2 ^ 63)\<rparr>"

definition wire_game :: "json game_message" where
  "wire_game = \<lparr>gm_Type = ''move'', gm_RoomID = 2 ^ 64 - 1, gm_UserID = 0, gm_Data = Map.empty, gm_Timestamp = 2 ^ 63 - 1\<rparr>"

definition wire_chat :: chat_message where
  "wire_chat = \<lparr>cm_FromUserID = 7, cm_ToUserID = 8, cm_Channel = - 1, cm_Content = ''<b>'', cm_Timestamp = 5\<rparr>"

definition wire_service :: service_info where
  "wire_service = \<lparr>si_NodeID = ''game1'', si_NodeType = ''game'', si_Address = ''127.0.0.1'', si_Port = 9000, si_Load = 0,
     si_Status = ''online'', si_Metadata = Some [(''a'', ''1''), (''b'', [])], si_UpdateTime = 3\<rparr>"

lemma show_int_eq: "show_int k = show_int n \<longleftrightarrow> k = n"
  by (metis option.inject parse_int_show)

lemma demo_wire_ok: "system_ok wire_system" "game_ok wire_game" "chat_ok wire_chat" "service_ok wire_service"
  by (simp_all add: wire_system_def wire_game_def wire_chat_def wire_service_def system_ok_def game_ok_def chat_ok_def
      service_ok_def typed_strings_def values_ok_def int64_def rune_len.simps in_range_def less_list_code less_char_def show_int_eq)


section \<open>Messages through the queue\<close>

lemma new_message_ok:
  assumes "utf8_ok t" and "utf8_ok target" and "utf8_ok command" and "values_ok args" and "int64 (unix now)"
  shows "system_ok (NewSystemMessage now t target command args)"
  using assms by (simp add: NewSystemMessage_def system_ok_def)



end
