(* ===== verification/Center.thy ===== *)
theory Center
  imports Complex_Main Server Wire
begin

text \<open>
  The center server, \<open>internal/server/center_server.go\<close>: the cluster's services as etcd lists
  them, and commands sent to nodes through the message queue. A request reads the clock once here;
  the code reads it per service, within the request. The error results of sending are dropped, as
  in the code.
\<close>

section \<open>Texts\<close>

text \<open>The responses' Chinese texts are UTF-8; all of their characters take three bytes.\<close>

definition utf8 :: "nat list \<Rightarrow> string" where
  "utf8 cs = concat (map (\<lambda>c. [char_of (224 + c div 4096), char_of (128 + c div 64 mod 64), char_of (128 + c mod 64)]) cs)"

definition txt_no_type :: string where
  "txt_no_type =
     utf8 [0x6D88, 0x606F, 0x7C7B, 0x578B, 0x4E0D, 0x80FD, 0x4E3A, 0x7A7A]"

definition txt_no_content :: string where
  "txt_no_content =
     utf8 [0x6D88, 0x606F, 0x5185, 0x5BB9, 0x4E0D, 0x80FD, 0x4E3A, 0x7A7A]"

definition txt_broadcast :: string where
  "txt_broadcast =
     utf8 [0x5E7F, 0x64AD, 0x6D88, 0x606F, 0x53D1, 0x9001, 0x6210, 0x529F]"

definition txt_no_target :: string where
  "txt_no_target =
     utf8 [0x670D, 0x52A1] @ ''ID'' @ utf8 [0x6216, 0x670D, 0x52A1, 0x7C7B, 0x578B, 0x4E0D, 0x80FD,
     0x4E3A, 0x7A7A]"

definition txt_lookup_failed :: string where
  "txt_lookup_failed =
     utf8 [0x83B7, 0x53D6, 0x76EE, 0x6807, 0x670D, 0x52A1, 0x5931, 0x8D25]"

definition txt_not_found :: string where
  "txt_not_found =
     utf8 [0x672A, 0x627E, 0x5230, 0x76EE, 0x6807, 0x670D, 0x52A1]"

definition txt_shutdown_sent :: string where
  "txt_shutdown_sent =
     utf8 [0x5173, 0x95ED, 0x547D, 0x4EE4, 0x5DF2, 0x53D1, 0x9001, 0x7ED9] @ '' ''"

definition txt_restart_sent :: string where
  "txt_restart_sent =
     utf8 [0x91CD, 0x542F, 0x547D, 0x4EE4, 0x5DF2, 0x53D1, 0x9001, 0x7ED9] @ '' ''"

definition txt_services :: string where
  "txt_services =
     '' '' @ utf8 [0x4E2A, 0x670D, 0x52A1]"

definition txt_shutdown_reason :: string where
  "txt_shutdown_reason =
     utf8 [0x7BA1, 0x7406, 0x5458, 0x5173, 0x95ED]"

definition txt_restart_reason :: string where
  "txt_restart_reason =
     utf8 [0x7BA1, 0x7406, 0x5458, 0x91CD, 0x542F]"

section \<open>Looking up services\<close>

definition service_types :: "string list" where
  "service_types = [''gateway'', ''login'', ''lobby'', ''game'', ''friend'', ''chat'', ''mail'', ''gm'']"

definition center_services ::
  "('v, 'd) etcd \<Rightarrow> string \<Rightarrow> ('b, 's, 'h, 'n, 'd) base_server \<Rightarrow>
   service_info list option \<times> ('b, 's, 'h, 'n, 'd) base_server" where
  "center_services et t cs =
     (let (res, d) = GetServices et t (bs_registry cs) (bs_etcd cs) in (res, cs\<lparr>bs_etcd := d\<rparr>))"

text \<open>All services of the types; a type whose query fails is left out.\<close>

fun collect_services ::
  "('v, 'd) etcd \<Rightarrow> string list \<Rightarrow> ('b, 's, 'h, 'n, 'd) base_server \<Rightarrow>
   service_info list \<times> ('b, 's, 'h, 'n, 'd) base_server" where
  "collect_services et [] cs = ([], cs)"
| "collect_services et (t # ts) cs =
     (let (res, cs1) = center_services et t cs; (rest, cs2) = collect_services et ts cs1
      in (case res of None \<Rightarrow> rest | Some services \<Rightarrow> services @ rest, cs2))"

text \<open>The health check logs the number of services of each type.\<close>

fun performHealthChecks ::
  "('v, 'd) etcd \<Rightarrow> string list \<Rightarrow> ('b, 's, 'h, 'n, 'd) base_server \<Rightarrow>
   (string \<times> nat option) list \<times> ('b, 's, 'h, 'n, 'd) base_server" where
  "performHealthChecks et [] cs = ([], cs)"
| "performHealthChecks et (t # ts) cs =
     (let (res, cs1) = center_services et t cs; (rest, cs2) = performHealthChecks et ts cs1
      in ((t, map_option length res) # rest, cs2))"

definition managementLoop_tick ::
  "('v, 'd) etcd \<Rightarrow> ('b, 's, 'h, 'n, 'd) base_server \<Rightarrow> (string \<times> nat option) list \<times> ('b, 's, 'h, 'n, 'd) base_server" where
  "managementLoop_tick et cs = (if bs_cancelled cs then ([], cs) else performHealthChecks et service_types cs)"

section \<open>The state of the cluster\<close>

record service_entry =
  se_ServiceId :: string
  se_ServiceType :: string
  se_Address :: string
  se_Port :: int
  se_Status :: string
  se_LastHeartbeat :: u32

record service_list =
  sl_Services :: "service_entry list"
  sl_Total :: int

definition service_entry_of :: "time \<Rightarrow> service_info \<Rightarrow> service_entry" where
  "service_entry_of now service =
     \<lparr>se_ServiceId = si_NodeID service, se_ServiceType = si_NodeType service, se_Address = si_Address service,
      se_Port = i32 (si_Port service),
      se_Status = (if i64 (unix now - si_UpdateTime service) > 60 then ''offline'' else ''online''),
      se_LastHeartbeat = word_of_int (si_UpdateTime service)\<rparr>"

definition GetServiceList ::
  "('v, 'd) etcd \<Rightarrow> time \<Rightarrow> ('b, 's, 'h, 'n, 'd) base_server \<Rightarrow> service_list \<times> ('b, 's, 'h, 'n, 'd) base_server" where
  "GetServiceList et now cs =
     (let (allServices, cs1) = collect_services et (service_types @ [''center'']) cs;
          protoServices = map (service_entry_of now) allServices
      in (\<lparr>sl_Services = protoServices, sl_Total = i32 (int (length protoServices))\<rparr>, cs1))"

record 'i cluster_status =
  cl_TotalServices :: int
  cl_OnlineServices :: int
  cl_ServiceStats :: "string \<rightharpoonup> int"
  cl_SystemInfo :: 'i
  cl_Code :: int
  cl_Message :: string

text \<open>The loop over the services: total, online and online per type, as 32-bit integers.\<close>

fun count_services ::
  "time \<Rightarrow> service_info list \<Rightarrow> int \<times> int \<times> (string \<rightharpoonup> int) \<Rightarrow> int \<times> int \<times> (string \<rightharpoonup> int)" where
  "count_services now [] acc = acc"
| "count_services now (service # ss) (allCount, online, stats) =
     (let (online1, stats1) =
        (if i64 (unix now - si_UpdateTime service) \<le> 60
         then (i32 (online + 1), stats(si_NodeType service \<mapsto>
           i32 ((case stats (si_NodeType service) of None \<Rightarrow> 0 | Some c \<Rightarrow> c) + 1)))
         else (online, stats))
      in count_services now ss (i32 (allCount + 1), online1, stats1))"

text \<open>\<open>systemInfo\<close>: what \<open>getSystemInfo\<close> reads from the Go runtime.\<close>

definition GetClusterStatus ::
  "('v, 'd) etcd \<Rightarrow> time \<Rightarrow> 'i \<Rightarrow> ('b, 's, 'h, 'n, 'd) base_server \<Rightarrow>
   'i cluster_status \<times> ('b, 's, 'h, 'n, 'd) base_server" where
  "GetClusterStatus et now systemInfo cs =
     (let (allServices, cs1) = collect_services et (service_types @ [''center'']) cs;
          (totalCount, onlineCount, serviceStats) = count_services now allServices (0, 0, Map.empty)
      in (\<lparr>cl_TotalServices = totalCount, cl_OnlineServices = onlineCount, cl_ServiceStats = serviceStats,
           cl_SystemInfo = systemInfo, cl_Code = 0, cl_Message = ''success''\<rparr>, cs1))"

text \<open>
  \<open>getSystemInfo\<close>, with the allocated and the reserved memory of the runtime and the two times it
  reads: the memory in percent, without the rounding of float32, and the seconds since an hour
  before the first reading.
\<close>

record center_system_info =
  cy_CpuUsage :: rat
  cy_MemoryUsage :: rat
  cy_DiskUsage :: rat
  cy_Uptime :: u32

definition center_getSystemInfo :: "nat \<Rightarrow> nat \<Rightarrow> time \<Rightarrow> time \<Rightarrow> center_system_info" where
  "center_getSystemInfo alloc reserved now1 now2 =
     (let memoryUsage = rat_of_nat alloc / rat_of_nat reserved * 100
      in \<lparr>cy_CpuUsage = 0, cy_MemoryUsage = (if memoryUsage > 100 then 100 else memoryUsage), cy_DiskUsage = 0,
          cy_Uptime = word_of_int (time_sub now2 (now1 - 3600 * second) div second)\<rparr>)"

text \<open>Within a second the reported uptime is an hour, whenever the node was started.\<close>

lemma uptime_is_an_hour:
  assumes "now1 \<le> now2" and "now2 < now1 + second"
  shows "cy_Uptime (center_getSystemInfo alloc reserved now1 now2) = 3600"
proof -
  have "time_sub now2 (now1 - 3600 * second) = now2 - now1 + 3600 * second"
    using assms by (simp add: time_sub_def)
  moreover have "(now2 - now1 + 3600 * second) div second = 3600"
    using assms by (intro int_div_pos_eq [where r = "now2 - now1"]) simp_all
  ultimately show ?thesis by (simp add: center_getSystemInfo_def Let_def)
qed

section \<open>Commands\<close>

record common_response =
  cr_Code :: int
  cr_Message :: string
  cr_Data :: bytes

definition failed :: "int \<Rightarrow> string \<Rightarrow> common_response" where
  "failed code text = \<lparr>cr_Code = code, cr_Message = text, cr_Data = []\<rparr>"

text \<open>
  \<open>center_codec\<close>: \<open>json.Marshal\<close> of a message and of the data of a response. When the
  latter fails the data is empty.
\<close>

record center_codec =
  co_message :: "json system_message \<Rightarrow> bytes option"
  co_data :: "(string \<rightharpoonup> json) \<Rightarrow> bytes option"

definition response_data :: "center_codec \<Rightarrow> (string \<rightharpoonup> json) \<Rightarrow> bytes" where
  "response_data co m = (case co_data co m of None \<Rightarrow> [] | Some bs \<Rightarrow> bs)"

definition center_send ::
  "'n nsq \<Rightarrow> center_codec \<Rightarrow> time \<Rightarrow> string \<Rightarrow> string \<Rightarrow> (string \<rightharpoonup> json) \<Rightarrow>
   ('b, 's, 'h, 'n, 'd) base_server \<Rightarrow> ('b, 's, 'h, 'n, 'd) base_server outcome" where
  "center_send nl co now nodeID command args cs =
     obind (SendToNode nl (co_message co) now nodeID command args (bs_nsqManager cs) (bs_nsq cs))
       (\<lambda>(_, nm, n). Ret (cs\<lparr>bs_nsqManager := nm, bs_nsq := n\<rparr>))"

text \<open>The loop that sends a command to every service updated within \<open>limit\<close> seconds.\<close>

fun send_to_fresh ::
  "'n nsq \<Rightarrow> center_codec \<Rightarrow> time \<Rightarrow> int \<Rightarrow> string \<Rightarrow> (string \<rightharpoonup> json) \<Rightarrow> service_info list \<Rightarrow> int \<Rightarrow>
   ('b, 's, 'h, 'n, 'd) base_server \<Rightarrow> (int \<times> ('b, 's, 'h, 'n, 'd) base_server) outcome" where
  "send_to_fresh nl co now limit command args [] sent_count cs = Ret (sent_count, cs)"
| "send_to_fresh nl co now limit command args (service # ss) sent_count cs =
     (if i64 (unix now - si_UpdateTime service) \<le> limit
      then obind (center_send nl co now (si_NodeID service) command args cs)
             (send_to_fresh nl co now limit command args ss (i64 (sent_count + 1)))
      else send_to_fresh nl co now limit command args ss sent_count cs)"

fun broadcast_to_types ::
  "'n nsq \<Rightarrow> ('v, 'd) etcd \<Rightarrow> center_codec \<Rightarrow> time \<Rightarrow> string \<Rightarrow> (string \<rightharpoonup> json) \<Rightarrow> string list \<Rightarrow> int \<Rightarrow>
   ('b, 's, 'h, 'n, 'd) base_server \<Rightarrow> (int \<times> ('b, 's, 'h, 'n, 'd) base_server) outcome" where
  "broadcast_to_types nl et co now command args [] sent_count cs = Ret (sent_count, cs)"
| "broadcast_to_types nl et co now command args (t # ts) sent_count cs =
     (case center_services et t cs of
        (None, cs1) \<Rightarrow> broadcast_to_types nl et co now command args ts sent_count cs1
      | (Some services, cs1) \<Rightarrow>
          obind (send_to_fresh nl co now 60 command args services sent_count cs1)
            (\<lambda>(count1, cs2). broadcast_to_types nl et co now command args ts count1 cs2))"

record broadcast_request =
  br_MessageType :: string
  br_Content :: string
  br_TargetServices :: "string list"

definition center_BroadcastMessage ::
  "'n nsq \<Rightarrow> ('v, 'd) etcd \<Rightarrow> center_codec \<Rightarrow> time \<Rightarrow> broadcast_request \<Rightarrow> ('b, 's, 'h, 'n, 'd) base_server \<Rightarrow>
   (common_response \<times> ('b, 's, 'h, 'n, 'd) base_server) outcome" where
  "center_BroadcastMessage nl et co now req cs =
     (if br_MessageType req = '''' then Ret (failed 1001 txt_no_type, cs)
      else if br_Content req = '''' then Ret (failed 1002 txt_no_content, cs)
      else (let messageData = [''type'' \<mapsto> JString (br_MessageType req), ''content'' \<mapsto> JString (br_Content req),
              ''timestamp'' \<mapsto> JInt (unix now), ''from'' \<mapsto> JString ''center_server'']
            in obind
              (if br_TargetServices req \<noteq> []
               then broadcast_to_types nl et co now (br_MessageType req) messageData (br_TargetServices req) 0 cs
               else obind (BroadcastSystemMessage nl (co_message co) now (br_MessageType req) messageData
                             (bs_nsqManager cs) (bs_nsq cs))
                      (\<lambda>(_, nm, n). Ret (- 1, cs\<lparr>bs_nsqManager := nm, bs_nsq := n\<rparr>)))
              (\<lambda>(targetCount, cs1). Ret (\<lparr>cr_Code = 0, cr_Message = txt_broadcast,
                 cr_Data = response_data co [''target_count'' \<mapsto> JInt targetCount,
                   ''message_type'' \<mapsto> JString (br_MessageType req)]\<rparr>, cs1))))"

text \<open>The service with the id among those of each type: at most one per type.\<close>

fun find_services ::
  "('v, 'd) etcd \<Rightarrow> string \<Rightarrow> string list \<Rightarrow> ('b, 's, 'h, 'n, 'd) base_server \<Rightarrow>
   service_info list \<times> ('b, 's, 'h, 'n, 'd) base_server" where
  "find_services et nodeID [] cs = ([], cs)"
| "find_services et nodeID (t # ts) cs =
     (let (res, cs1) = center_services et t cs; (rest, cs2) = find_services et nodeID ts cs1
      in (case res of
            None \<Rightarrow> rest
          | Some services \<Rightarrow>
              (case List.find (\<lambda>s. si_NodeID s = nodeID) services of None \<Rightarrow> rest | Some s \<Rightarrow> s # rest), cs2))"

text \<open>\<open>ShutdownService\<close> and \<open>RestartService\<close> are the same code but for the command and two texts.\<close>

definition service_operation ::
  "'n nsq \<Rightarrow> ('v, 'd) etcd \<Rightarrow> center_codec \<Rightarrow> time \<Rightarrow> string \<Rightarrow> string \<Rightarrow> string \<Rightarrow> string \<Rightarrow> string \<Rightarrow>
   ('b, 's, 'h, 'n, 'd) base_server \<Rightarrow> (common_response \<times> ('b, 's, 'h, 'n, 'd) base_server) outcome" where
  "service_operation nl et co now command reason sent_text serviceId serviceType cs =
     (if serviceId = '''' \<and> serviceType = '''' then Ret (failed 1001 txt_no_target, cs)
      else (let (found, cs1) =
              (if serviceId \<noteq> ''''
               then (let (ss, cs1) = find_services et serviceId service_types cs in (Some ss, cs1))
               else center_services et serviceType cs)
            in case found of
                 None \<Rightarrow> Ret (failed 1002 txt_lookup_failed, cs1)
               | Some [] \<Rightarrow> Ret (failed 1003 txt_not_found, cs1)
               | Some targetServices \<Rightarrow>
                   obind (send_to_fresh nl co now 120 command
                            [''reason'' \<mapsto> JString reason, ''timestamp'' \<mapsto> JInt (unix now)] targetServices 0 cs1)
                     (\<lambda>(successCount, cs2). Ret (\<lparr>cr_Code = 0,
                        cr_Message = sent_text @ show_int successCount @ txt_services,
                        cr_Data = response_data co [''target_count'' \<mapsto> JInt successCount]\<rparr>, cs2))))"

definition ShutdownService ::
  "'n nsq \<Rightarrow> ('v, 'd) etcd \<Rightarrow> center_codec \<Rightarrow> time \<Rightarrow> string \<Rightarrow> string \<Rightarrow> ('b, 's, 'h, 'n, 'd) base_server \<Rightarrow>
   (common_response \<times> ('b, 's, 'h, 'n, 'd) base_server) outcome" where
  "ShutdownService nl et co now serviceId serviceType cs =
     service_operation nl et co now ''shutdown'' txt_shutdown_reason txt_shutdown_sent serviceId serviceType cs"

definition RestartService ::
  "'n nsq \<Rightarrow> ('v, 'd) etcd \<Rightarrow> center_codec \<Rightarrow> time \<Rightarrow> string \<Rightarrow> string \<Rightarrow> ('b, 's, 'h, 'n, 'd) base_server \<Rightarrow>
   (common_response \<times> ('b, 's, 'h, 'n, 'd) base_server) outcome" where
  "RestartService nl et co now serviceId serviceType cs =
     service_operation nl et co now ''restart'' txt_restart_reason txt_restart_sent serviceId serviceType cs"

section \<open>The two views of the cluster agree\<close>

lemma i32_add_cong: "i32 (i32 a + b) = i32 (a + b)"
  unfolding i32_def by (simp add: mod_simps algebra_simps)

definition fresh :: "time \<Rightarrow> service_info \<Rightarrow> bool" where
  "fresh now s \<longleftrightarrow> i64 (unix now - si_UpdateTime s) \<le> 60"

definition tally :: "(string \<Rightarrow> int) \<Rightarrow> (string \<rightharpoonup> int)" where
  "tally f = (\<lambda>t. if f t = 0 then None else Some (i32 (f t)))"

abbreviation of_node_type :: "string \<Rightarrow> service_info list \<Rightarrow> int" where
  "of_node_type t ss \<equiv> int (length (filter (\<lambda>s. si_NodeType s = t) ss))"

lemma count_services:
  assumes "\<And>t. 0 \<le> f t"
  shows "count_services now ss (i32 a, i32 b, tally f) =
    (i32 (a + int (length ss)), i32 (b + int (length (filter (fresh now) ss))),
     tally (\<lambda>t. f t + of_node_type t (filter (fresh now) ss)))"
  using assms
proof (induction ss arbitrary: a b f)
  case Nil
  then show ?case by simp
next
  case (Cons s ss)
  let ?t = "si_NodeType s"
  have nn: "0 \<le> (f(?t := f ?t + 1)) u" for u using Cons.prems [of u] Cons.prems [of ?t] by simp
  have st: "(tally f)(?t \<mapsto> i32 ((case tally f ?t of None \<Rightarrow> 0 | Some c \<Rightarrow> c) + 1)) = tally (f(?t := f ?t + 1))"
  proof
    fix u
    show "((tally f)(?t \<mapsto> i32 ((case tally f ?t of None \<Rightarrow> 0 | Some c \<Rightarrow> c) + 1))) u = tally (f(?t := f ?t + 1)) u"
      using Cons.prems [of ?t] by (simp add: tally_def i32_add_cong)
  qed
  show ?case
  proof (cases "fresh now s")
    case True
    then have le: "i64 (unix now - si_UpdateTime s) \<le> 60" by (simp add: fresh_def)
    have step: "count_services now (s # ss) (i32 a, i32 b, tally f) =
        count_services now ss (i32 (a + 1), i32 (b + 1), tally (f(?t := f ?t + 1)))"
      unfolding count_services.simps if_P [OF le] st Let_def prod.case i32_add_cong ..
    have ta: "tally (\<lambda>t. (f(?t := f ?t + 1)) t + of_node_type t (filter (fresh now) ss)) =
        tally (\<lambda>t. f t + of_node_type t (filter (fresh now) (s # ss)))"
      by (rule arg_cong [where f = tally]) (use True in \<open>auto simp: fun_eq_iff\<close>)
    have le: "a + 1 + int (length ss) = a + int (length (s # ss))"
      "b + 1 + int (length (filter (fresh now) ss)) = b + int (length (filter (fresh now) (s # ss)))" using True by simp_all
    show ?thesis unfolding step Cons.IH [OF nn, of "a + 1" "b + 1"] ta le ..
  next
    case False
    then have le: "\<not> i64 (unix now - si_UpdateTime s) \<le> 60" by (simp add: fresh_def)
    have "count_services now (s # ss) (i32 a, i32 b, tally f) = count_services now ss (i32 (a + 1), i32 b, tally f)"
      unfolding count_services.simps if_not_P [OF le] Let_def prod.case i32_add_cong ..
    then show ?thesis using Cons.IH [OF Cons.prems, of "a + 1" b] False by (simp add: algebra_simps)
  qed
qed

lemma online_iff: "se_Status (service_entry_of now s) = ''online'' \<longleftrightarrow> fresh now s"
  by (auto simp: service_entry_of_def fresh_def)

text \<open>
  C19. GetServiceList and GetClusterStatus, computed by two different loops, agree: asked at
  the same moment, the totals are the length of the list, the online count and the count per
  type are those of the entries the list shows as online, each as a 32-bit integer, and a type
  without any is absent.
\<close>

theorem cluster_status_consistent:
  "let (l, cs1) = GetServiceList et now cs; (st, cs2) = GetClusterStatus et now info cs;
       online = filter (\<lambda>e. se_Status e = ''online'') (sl_Services l);
       of_type = (\<lambda>t. length (filter (\<lambda>e. se_ServiceType e = t) online))
   in cs1 = cs2 \<and> cl_TotalServices st = sl_Total l \<and> sl_Total l = i32 (int (length (sl_Services l))) \<and>
      cl_OnlineServices st = i32 (int (length online)) \<and>
      (\<forall>t. cl_ServiceStats st t = (if of_type t = 0 then None else Some (i32 (int (of_type t)))))"
proof -
  obtain ss cs1 where c: "collect_services et (service_types @ [''center'']) cs = (ss, cs1)" by fastforce
  have z: "tally (\<lambda>_. 0) = Map.empty" by (simp add: tally_def)
  have n: "count_services now ss (0, 0, Map.empty) =
      (i32 (int (length ss)), i32 (int (length (filter (fresh now) ss))),
       tally (\<lambda>t. of_node_type t (filter (fresh now) ss)))"
    using count_services [of "\<lambda>_. 0" now ss 0 0] by (simp add: z)
  have on: "filter (\<lambda>e. se_Status e = ''online'') (map (service_entry_of now) ss) =
      map (service_entry_of now) (filter (fresh now) ss)"
    by (simp add: filter_map o_def online_iff)
  have ty: "length (filter (\<lambda>e. se_ServiceType e = t) (map (service_entry_of now) xs)) =
      length (filter (\<lambda>s. si_NodeType s = t) xs)" for t xs
    by (simp add: filter_map o_def service_entry_of_def)
  show ?thesis
    unfolding GetServiceList_def GetClusterStatus_def c Let_def prod.case n service_list.simps cluster_status.simps on ty tally_def
    by simp
qed

section \<open>What the commands do at the nodes\<close>

context nsq_client
begin

lemma send_to_fresh_delivers:
  assumes "send_to_fresh nl co now limit command args ss c cs = Ret (c', cs')"
  shows "\<exists>ms. delivered (bs_nsq cs') = delivered (bs_nsq cs) @ ms \<and> (\<forall>(t, bs) \<in> set ms. \<exists>s \<in> set ss.
    co_message co (NewSystemMessage now ''unicast'' (si_NodeID s) command args) = Some bs)"
  using assms
proof (induction ss arbitrary: c cs)
  case Nil
  then show ?case by simp
next
  case (Cons s ss)
  show ?case
  proof (cases "i64 (unix now - si_UpdateTime s) \<le> limit")
    case True
    with Cons.prems obtain cs1 where s1: "center_send nl co now (si_NodeID s) command args cs = Ret cs1"
      and rest: "send_to_fresh nl co now limit command args ss (i64 (c + 1)) cs1 = Ret (c', cs')" by auto
    obtain ms2 where ms2: "delivered (bs_nsq cs') = delivered (bs_nsq cs1) @ ms2" "\<forall>(t, bs) \<in> set ms2. \<exists>s \<in> set ss.
        co_message co (NewSystemMessage now ''unicast'' (si_NodeID s) command args) = Some bs"
      using Cons.IH [OF rest] by blast
    obtain e nm n where "SendToNode nl (co_message co) now (si_NodeID s) command args (bs_nsqManager cs) (bs_nsq cs) = Ret (e, nm, n)"
      and cs1: "cs1 = cs\<lparr>bs_nsqManager := nm, bs_nsq := n\<rparr>"
      using s1 unfolding center_send_def by auto
    then obtain ms1 where ms1: "delivered n = delivered (bs_nsq cs) @ ms1" "\<forall>(t, bs) \<in> set ms1. t = ''system_messages'' \<and>
        co_message co (NewSystemMessage now ''unicast'' (si_NodeID s) command args) = Some bs"
      using send_delivers by blast
    have "delivered (bs_nsq cs') = delivered (bs_nsq cs) @ ms1 @ ms2" using ms1(1) ms2(1) cs1 by simp
    moreover have "\<forall>(t, bs) \<in> set (ms1 @ ms2). \<exists>s' \<in> set (s # ss).
        co_message co (NewSystemMessage now ''unicast'' (si_NodeID s') command args) = Some bs"
      using ms1(2) ms2(2) unfolding set_append set_simps by blast
    ultimately show ?thesis by blast
  next
    case False
    then show ?thesis using Cons.IH [of c cs] Cons.prems by fastforce
  qed
qed

end

lemma center_services_nsq: "center_services et t cs = (res, cs') \<Longrightarrow> bs_nsq cs' = bs_nsq cs \<and> bs_nsqManager cs' = bs_nsqManager cs"
  by (auto simp: center_services_def split: prod.splits)

lemma find_services_nsq:
  "find_services et n ts cs = (ss, cs') \<Longrightarrow>
     bs_nsq cs' = bs_nsq cs \<and> bs_nsqManager cs' = bs_nsqManager cs \<and> (\<forall>s \<in> set ss. si_NodeID s = n)"
proof (induction ts arbitrary: cs ss)
  case (Cons t ts)
  obtain res cs1 where c: "center_services et t cs = (res, cs1)" by fastforce
  obtain rest where f: "find_services et n ts cs1 = (rest, cs')"
    using Cons.prems c by (auto split: prod.splits)
  have "ss = (case res of None \<Rightarrow> rest | Some services \<Rightarrow>
      (case List.find (\<lambda>s. si_NodeID s = n) services of None \<Rightarrow> rest | Some s \<Rightarrow> s # rest))"
    using Cons.prems c f by simp
  then show ?case using Cons.IH [OF f] center_services_nsq [OF c]
    by (auto simp: find_Some_iff split: option.splits)
qed simp

text \<open>A command by id: answered without sending, or sent to the services found under this id.\<close>

lemma service_operation_by_id:
  assumes "service_operation nl et co now command reason sent_text n st cs = Ret (r, cs')" and "n \<noteq> []"
  obtains (none) ss cs1 where "find_services et n service_types cs = (ss, cs1)" "cs' = cs1" "ss = []" "r = failed 1003 txt_not_found"
  | (sent) ss cs1 k where "find_services et n service_types cs = (ss, cs1)"
    "send_to_fresh nl co now 120 command [''reason'' \<mapsto> JString reason, ''timestamp'' \<mapsto> JInt (unix now)] ss 0 cs1 = Ret (k, cs')"
    "cr_Code r = 0" "cr_Message r = sent_text @ show_int k @ txt_services"
proof -
  obtain ss cs1 where f: "find_services et n service_types cs = (ss, cs1)" by fastforce
  note so = assms(1) [unfolded service_operation_def f Let_def prod.case]
  show ?thesis
  proof (cases ss)
    case Nil
    then show ?thesis using none [OF f] so assms(2) by simp
  next
    case (Cons s ss')
    then show ?thesis using sent [OF f] so assms(2) by auto
  qed
qed

text \<open>The message that a command by id sends.\<close>

definition command_message :: "time \<Rightarrow> string \<Rightarrow> string \<Rightarrow> string \<Rightarrow> json system_message" where
  "command_message now n command reason =
     NewSystemMessage now ''unicast'' n command [''reason'' \<mapsto> JString reason, ''timestamp'' \<mapsto> JInt (unix now)]"

text \<open>What a command by id answers: not found, or the number of services it was sent to.\<close>

definition answers :: "common_response \<Rightarrow> time \<Rightarrow> string \<Rightarrow> service_info list \<Rightarrow> bool" where
  "answers r now sent_text found \<longleftrightarrow>
     (if found = [] then r = failed 1003 txt_not_found
      else cr_Code r = 0 \<and> cr_Message r = sent_text @
        show_int (int (length (filter (\<lambda>s. i64 (unix now - si_UpdateTime s) \<le> 120) found))) @ txt_services)"

lemma send_to_fresh_count:
  assumes "send_to_fresh nl co now limit command args ss c cs = Ret (c', cs')" and "0 \<le> c" and "c + int (length ss) < 2 ^ 63"
  shows "c' = c + int (length (filter (\<lambda>s. i64 (unix now - si_UpdateTime s) \<le> limit) ss))"
  using assms
proof (induction ss arbitrary: c cs)
  case (Cons s ss)
  show ?case
  proof (cases "i64 (unix now - si_UpdateTime s) \<le> limit")
    case True
    have i: "i64 (c + 1) = c + 1" using Cons.prems(2,3) by simp
    obtain cs1 where "send_to_fresh nl co now limit command args ss (c + 1) cs1 = Ret (c', cs')"
      using Cons.prems(1) True by (auto simp: i)
    from Cons.IH [OF this] show ?thesis using Cons.prems(2,3) True by simp
  next
    case False
    then show ?thesis using Cons.IH [of c cs] Cons.prems by simp
  qed
qed simp

lemma find_services_length: "length (fst (find_services et n ts cs)) \<le> length ts"
proof (induction ts arbitrary: cs)
  case (Cons t ts)
  obtain res cs1 where c: "center_services et t cs = (res, cs1)" by fastforce
  obtain rest cs2 where f: "find_services et n ts cs1 = (rest, cs2)" by fastforce
  show ?case using Cons.IH [of cs1] by (simp add: c f split: option.split)
qed simp

lemma service_operation_answers:
  assumes "service_operation nl et co now command reason sent_text n st cs = Ret (r, cs')" and "n \<noteq> []"
  shows "answers r now sent_text (fst (find_services et n service_types cs))"
  using assms
proof (cases rule: service_operation_by_id)
  case (none ss cs1)
  then show ?thesis by (simp add: answers_def)
next
  case (sent ss cs1 k)
  have "length ss \<le> 8" using find_services_length [of et n service_types cs] sent(1) by (simp add: service_types_def)
  then have "k = int (length (filter (\<lambda>s. i64 (unix now - si_UpdateTime s) \<le> 120) ss))"
    using send_to_fresh_count [OF sent(2)] by simp
  moreover have "ss \<noteq> []" using sent assms by (auto simp: service_operation_def failed_def)
  ultimately show ?thesis using sent by (simp add: answers_def)
qed

context nsq_client
begin

lemma send_to_fresh_accepted:
  assumes "send_to_fresh nl co now limit command args ss c cs = Ret (c', cs')" and "\<And>p t d n. fst (nl_Publish nl p t d n)"
    and "s \<in> set ss" and "i64 (unix now - si_UpdateTime s) \<le> limit"
    and "co_message co (NewSystemMessage now ''unicast'' (si_NodeID s) command args) = Some bs"
  shows "\<exists>ms. delivered (bs_nsq cs') = delivered (bs_nsq cs) @ ms \<and> (''system_messages'', bs) \<in> set ms"
  using assms(1,3,4)
proof (induction ss arbitrary: c cs)
  case (Cons a ss)
  show ?case
  proof (cases "i64 (unix now - si_UpdateTime a) \<le> limit")
    case True
    with Cons.prems obtain cs1 where s1: "center_send nl co now (si_NodeID a) command args cs = Ret cs1"
      and rest: "send_to_fresh nl co now limit command args ss (i64 (c + 1)) cs1 = Ret (c', cs')" by auto
    obtain e nm n where snd: "SendToNode nl (co_message co) now (si_NodeID a) command args (bs_nsqManager cs) (bs_nsq cs) = Ret (e, nm, n)"
      and cs1: "cs1 = cs\<lparr>bs_nsqManager := nm, bs_nsq := n\<rparr>"
      using s1 unfolding center_send_def by auto
    obtain ms1 where ms1: "delivered n = delivered (bs_nsq cs) @ ms1" using send_delivers [OF snd] by blast
    show ?thesis
    proof (cases "s = a")
      case True
      then have "Publish nl ''system_messages'' bs (bs_nsqManager cs) (bs_nsq cs) = Ret (e, nm, n)"
        using snd assms(5) by (simp add: SendToNode_def PublishSystemMessage_def PublishJSON_def)
      from publish_accepted [OF this assms(2)] obtain k where
        k: "1 \<le> k" "delivered n = delivered (bs_nsq cs) @ replicate k (''system_messages'', bs)" by blast
      obtain ms2 where "delivered (bs_nsq cs') = delivered (bs_nsq cs1) @ ms2" using send_to_fresh_delivers [OF rest] by blast
      then show ?thesis using k cs1
        by (intro exI [of _ "replicate k (''system_messages'', bs) @ ms2"]) simp
    next
      case False
      then obtain ms2 where "delivered (bs_nsq cs') = delivered (bs_nsq cs1) @ ms2" "(''system_messages'', bs) \<in> set ms2"
        using Cons.IH [OF rest] Cons.prems by auto
      then show ?thesis using ms1 cs1 by (intro exI [of _ "ms1 @ ms2"]) simp
    qed
  next
    case False
    then have "s \<in> set ss" using Cons.prems by auto
    then show ?thesis using Cons.IH [of c cs] Cons.prems False by simp
  qed
qed simp

end

text \<open>
  What a command by id publishes: messages for this id only, and one at least if NSQ accepts every
  message and a service found under the id is fresh enough.
\<close>

lemma command_messages:
  assumes "nsq_client nl delivered handles"
    and "\<And>bs. co_message co (command_message now n command reason) = Some bs \<Longrightarrow>
      unmarshal bs = Some (NewSystemMessage now ''unicast'' n command args)"
    and "service_operation nl et co now command reason sent_text n st cs = Ret (r, cs')" and "n \<noteq> []"
    and "co_message co (command_message now n command reason) \<noteq> None"
  shows "\<exists>ms. delivered (bs_nsq cs') = delivered (bs_nsq cs) @ ms \<and> (\<forall>(t, bs) \<in> set ms.
      unmarshal bs = Some (NewSystemMessage now ''unicast'' n command args)) \<and>
    ((\<forall>p t d n. fst (nl_Publish nl p t d n)) \<and>
     (\<exists>s \<in> set (fst (find_services et n service_types cs)). i64 (unix now - si_UpdateTime s) \<le> 120) \<longrightarrow> ms \<noteq> [])"
  using assms(3,4)
proof (cases rule: service_operation_by_id)
  case (none ss cs1)
  then show ?thesis using find_services_nsq [OF none(1)] by (intro exI [of _ "[]"]) simp
next
  case (sent ss cs1 k)
  have same: "bs_nsq cs1 = bs_nsq cs" "\<forall>s \<in> set ss. si_NodeID s = n" using find_services_nsq [OF sent(1)] by simp_all
  obtain ms where ms: "delivered (bs_nsq cs') = delivered (bs_nsq cs) @ ms" "\<forall>(t, bs) \<in> set ms. \<exists>s \<in> set ss.
      co_message co (NewSystemMessage now ''unicast'' (si_NodeID s) command
        [''reason'' \<mapsto> JString reason, ''timestamp'' \<mapsto> JInt (unix now)]) = Some bs"
    using nsq_client.send_to_fresh_delivers [OF assms(1) sent(2)] same(1) by auto
  then have "\<forall>(t, bs) \<in> set ms. unmarshal bs = Some (NewSystemMessage now ''unicast'' n command args)"
    using same(2) assms(2) [unfolded command_message_def] by fastforce
  moreover have "ms \<noteq> []" if acc: "\<forall>p t d n. fst (nl_Publish nl p t d n)" and s: "s \<in> set ss" "i64 (unix now - si_UpdateTime s) \<le> 120" for s
  proof -
    obtain bs where "co_message co (command_message now n command reason) = Some bs" using assms(5) by auto
    then have "co_message co (NewSystemMessage now ''unicast'' (si_NodeID s) command
        [''reason'' \<mapsto> JString reason, ''timestamp'' \<mapsto> JInt (unix now)]) = Some bs"
      using same(2) s(1) by (simp add: command_message_def)
    from nsq_client.send_to_fresh_accepted [OF assms(1) sent(2) _ s this] acc same(1) ms(1)
    show ?thesis by auto
  qed
  ultimately show ?thesis using ms(1) sent(1) by auto
qed

lemma common_handler_at:
  assumes "unmarshal bs = Some (NewSystemMessage now ''unicast'' n command args)" and "n \<noteq> []"
  shows "sys_HandleMessage unmarshal (common_handler et now' m) bs w =
    (if m \<noteq> n then (None, w)
     else (case sh_handlers (common_handler et now' m) command of
             None \<Rightarrow> (None, w) | Some h \<Rightarrow> h (NewSystemMessage now ''unicast'' n command args) w))"
  using assms by (auto simp: sys_HandleMessage_def common_handler_def sys_RegisterHandler_def
      NewSystemMessageHandler_def NewSystemMessage_def)

lemma common_commands:
  "sh_handlers (common_handler et now m) ''shutdown'' = Some HandleShutdown"
  "sh_handlers (common_handler et now m) ''restart'' = None"
  by (simp_all add: common_handler_def sys_RegisterHandler_def NewSystemMessageHandler_def)

text \<open>What a node does with a message that its codec reads as a command by id.\<close>

lemma shutdown_at:
  assumes "unmarshal bs = Some (NewSystemMessage now ''unicast'' n ''shutdown'' args)" and "n \<noteq> []"
  shows "sys_HandleMessage unmarshal (common_handler et now' m) bs (Ret w) =
    (None, Ret (if m = n then w\<lparr>bs_stopPending := True\<rparr> else w))"
  by (simp add: common_handler_at [where unmarshal = unmarshal and bs = bs, OF assms] common_commands HandleShutdown_def)

lemma restart_at:
  assumes "unmarshal bs = Some (NewSystemMessage now ''unicast'' n ''restart'' args)" and "n \<noteq> []"
  shows "sys_HandleMessage unmarshal (common_handler et now' m) bs (Ret w) = (None, Ret w)"
  by (simp add: common_handler_at [where unmarshal = unmarshal and bs = bs, OF assms] common_commands)

text \<open>Over the JSON the program sends: \<open>json_codec\<close> is the center's codec on the model of \<open>encoding/json\<close>.\<close>

definition data_marshal :: "(string \<rightharpoonup> json) \<Rightarrow> bytes option" where
  "data_marshal m = Some (bytes_of (jprint (put_values m)))"

definition json_codec :: center_codec where
  "json_codec = \<lparr>co_message = system_marshal, co_data = data_marshal\<rparr>"

lemma utf8_utf8: "\<forall>c \<in> set cs. 2048 \<le> c \<and> c < 55296 \<Longrightarrow> utf8_ok (utf8 cs)"
proof (induction cs)
  case (Cons c cs)
  have "utf8 (c # cs) = utf8_encode c @ utf8 cs" using Cons.prems by (simp add: utf8_def utf8_encode_def)
  then show ?case using Cons utf8_encode_ok [of c] by (simp add: utf8_ok_append)
qed (simp add: utf8_def)

lemma reasons_utf8: "utf8_ok txt_shutdown_reason" "utf8_ok txt_restart_reason"
  unfolding txt_shutdown_reason_def txt_restart_reason_def by (rule utf8_utf8; simp)+

lemma command_message_json:
  assumes "utf8_ok n" and "utf8_ok command" and "utf8_ok reason" and "int64 (unix now)"
    and "co_message json_codec (command_message now n command reason) = Some bs"
  shows "system_unmarshal bs = Some (NewSystemMessage now ''unicast'' n command
    (received [''reason'' \<mapsto> JString reason, ''timestamp'' \<mapsto> JInt (unix now)]))"
proof -
  have "system_ok (command_message now n command reason)"
    using assms(1-4) by (auto simp: command_message_def NewSystemMessage_def system_ok_def values_ok_def int64_def split: if_splits)
  from system_roundtrip [OF this] show ?thesis using assms(5) by (simp add: json_codec_def command_message_def)
qed

lemma command_message_some: "co_message json_codec m \<noteq> None"
  by (simp add: json_codec_def system_marshal_def)

text \<open>
  C21. Composition of center, JSON, queue and nodes: ShutdownService by id publishes only
  messages that make the addressed node stop and that every other node ignores, and at least
  one if NSQ accepts every message and a service of that id updated within 120 seconds is
  found. RestartService does the same but for the command, which no node has a handler for:
  whatever it publishes, no node does anything. Both answer alike: "not found" when no service
  of the id is found, else success, with the number of those found that are updated within 120
  seconds.
\<close>

theorem commands_over_json:
  assumes "nsq_client nl delivered handles" and "utf8_ok n" and "n \<noteq> []" and "int64 (unix now)"
    and "ShutdownService nl et json_codec now n st cs = Ret (r1, cs1)"
    and "RestartService nl et json_codec now n st cs = Ret (r2, cs2)"
  shows "\<exists>ms1 ms2. delivered (bs_nsq cs1) = delivered (bs_nsq cs) @ ms1 \<and>
    delivered (bs_nsq cs2) = delivered (bs_nsq cs) @ ms2 \<and>
    (\<forall>(t, bs) \<in> set ms1. sys_HandleMessage system_unmarshal (common_handler et' now' m) bs (Ret w) =
       (None, Ret (if m = n then w\<lparr>bs_stopPending := True\<rparr> else w))) \<and>
    (\<forall>(t, bs) \<in> set ms2. sys_HandleMessage system_unmarshal (common_handler et' now' m) bs (Ret w) = (None, Ret w)) \<and>
    answers r1 now txt_shutdown_sent (fst (find_services et n service_types cs)) \<and>
    answers r2 now txt_restart_sent (fst (find_services et n service_types cs)) \<and>
    ((\<forall>p t d n. fst (nl_Publish nl p t d n)) \<and>
     (\<exists>s \<in> set (fst (find_services et n service_types cs)). i64 (unix now - si_UpdateTime s) \<le> 120) \<longrightarrow> ms1 \<noteq> [])"
proof -
  note ops = ShutdownService_def RestartService_def
  have u: "utf8_ok ''shutdown''" "utf8_ok ''restart''" by (simp_all add: rune_len.simps)
  obtain ms1 where ms1: "delivered (bs_nsq cs1) = delivered (bs_nsq cs) @ ms1"
    "\<forall>(t, bs) \<in> set ms1. system_unmarshal bs = Some (NewSystemMessage now ''unicast'' n ''shutdown''
       (received [''reason'' \<mapsto> JString txt_shutdown_reason, ''timestamp'' \<mapsto> JInt (unix now)]))"
    "(\<forall>p t d n. fst (nl_Publish nl p t d n)) \<and>
     (\<exists>s \<in> set (fst (find_services et n service_types cs)). i64 (unix now - si_UpdateTime s) \<le> 120) \<longrightarrow> ms1 \<noteq> []"
    using command_messages [where unmarshal = system_unmarshal, OF assms(1) command_message_json [OF assms(2) u(1) reasons_utf8(1) assms(4)]
        assms(5) [unfolded ops] assms(3) command_message_some] by blast
  obtain ms2 where ms2: "delivered (bs_nsq cs2) = delivered (bs_nsq cs) @ ms2"
    "\<forall>(t, bs) \<in> set ms2. system_unmarshal bs = Some (NewSystemMessage now ''unicast'' n ''restart''
       (received [''reason'' \<mapsto> JString txt_restart_reason, ''timestamp'' \<mapsto> JInt (unix now)]))"
    using command_messages [where unmarshal = system_unmarshal, OF assms(1) command_message_json [OF assms(2) u(2) reasons_utf8(2) assms(4)]
        assms(6) [unfolded ops] assms(3) command_message_some] by blast
  have "\<forall>(t, bs) \<in> set ms1. sys_HandleMessage system_unmarshal (common_handler et' now' m) bs (Ret w) =
      (None, Ret (if m = n then w\<lparr>bs_stopPending := True\<rparr> else w))"
    using ms1(2) shutdown_at [where unmarshal = system_unmarshal, OF _ assms(3)] by blast
  moreover have "\<forall>(t, bs) \<in> set ms2. sys_HandleMessage system_unmarshal (common_handler et' now' m) bs (Ret w) = (None, Ret w)"
    using ms2(2) restart_at [where unmarshal = system_unmarshal, OF _ assms(3)] by blast
  ultimately show ?thesis
    using ms1(1,3) ms2(1) service_operation_answers [OF assms(5) [unfolded ops] assms(3)]
      service_operation_answers [OF assms(6) [unfolded ops] assms(3)] by blast
qed

definition demo_center :: "(unit, unit, unit, mem_nsq, (string \<times> service_info) list) base_server" where
  "demo_center = demo_base\<lparr>bs_nodeType := ''center'', bs_nodeID := ''center1'',
     bs_nsq := \<lparr>mq_down = [], mq_addr = [''a'', ''b''], mq_log = []\<rparr>,
     bs_etcd := [(''/lufy/services/gateway/gateway1'', own_info 0 demo_base)]\<rparr>"

lemma demo_find: "find_services mem_etcd ''gateway1'' service_types demo_center = ([own_info 0 demo_base], demo_center)"
  by (simp add: service_types_def center_services_def GetServices_def demo_center_def demo_base_def demo_registry_def own_info_def
      service_key_def mem_etcd_def has_prefix_def decode_all_def List.map_filter_simps)

theorem commands_over_json_witness:
  "\<exists>r1 cs1 r2 cs2 b1 b2. ShutdownService mem_nsq_lib mem_etcd json_codec 0 ''gateway1'' [] demo_center = Ret (r1, cs1) \<and>
     RestartService mem_nsq_lib mem_etcd json_codec 0 ''gateway1'' [] demo_center = Ret (r2, cs2) \<and>
     cr_Code r1 = 0 \<and> cr_Code r2 = 0 \<and> mq_log (bs_nsq cs1) = [(''system_messages'', b1)] \<and>
     mq_log (bs_nsq cs2) = [(''system_messages'', b2)] \<and>
     sys_HandleMessage system_unmarshal (common_handler mem_etcd (\<lambda>_. 0) ''gateway1'') b1 (Ret demo_base) =
       (None, Ret (demo_base\<lparr>bs_stopPending := True\<rparr>)) \<and>
     sys_HandleMessage system_unmarshal (common_handler mem_etcd (\<lambda>_. 0) ''gateway1'') b2 (Ret demo_base) = (None, Ret demo_base)"
proof -
  have u: "mq_up 1 \<lparr>mq_down = [], mq_addr = [''a'', ''b''], mq_log = l\<rparr>" for l by (simp add: mq_up_def)
  have fr: "si_UpdateTime (own_info 0 demo_base) = 0" by (simp add: own_info_def unix_def)
  have id: "si_NodeID (own_info 0 demo_base) = ''gateway1''" by (simp add: own_info_def demo_base_def)
  have z: "unix 0 = 0" by (simp add: unix_def)
  have n: "bs_nsqManager demo_center = demo_nsq_manager" "bs_nsq demo_center = \<lparr>mq_down = [], mq_addr = [''a'', ''b''], mq_log = []\<rparr>"
    by (simp_all add: demo_center_def demo_base_def)
  have pub: "Publish mem_nsq_lib ''system_messages'' bs demo_nsq_manager (bs_nsq demo_center) =
      Ret (None, demo_nsq_manager, \<lparr>mq_down = [], mq_addr = [''a'', ''b''], mq_log = [(''system_messages'', bs)]\<rparr>)" for bs
    unfolding n by (simp add: Publish_def demo_nsq_manager_def demo_nsq_config_def mem_nsq_lib_def mq_up_def)
  obtain b1 where c1: "co_message json_codec (NewSystemMessage 0 ''unicast'' ''gateway1'' ''shutdown''
      [''reason'' \<mapsto> JString txt_shutdown_reason, ''timestamp'' \<mapsto> JInt 0]) = Some b1"
    by (simp add: json_codec_def system_marshal_def)
  obtain b2 where c2: "co_message json_codec (NewSystemMessage 0 ''unicast'' ''gateway1'' ''restart''
      [''reason'' \<mapsto> JString txt_restart_reason, ''timestamp'' \<mapsto> JInt 0]) = Some b2"
    by (simp add: json_codec_def system_marshal_def)
  note ops = service_operation_def demo_find Let_def center_send_def SendToNode_def PublishSystemMessage_def PublishJSON_def
    fr id z n(1) c1 c2 pub
  obtain r1 cs1 where s: "ShutdownService mem_nsq_lib mem_etcd json_codec 0 ''gateway1'' [] demo_center = Ret (r1, cs1)"
    and s': "cr_Code r1 = 0" "mq_log (bs_nsq cs1) = [(''system_messages'', b1)]"
    by (simp add: ShutdownService_def ops)
  obtain r2 cs2 where r: "RestartService mem_nsq_lib mem_etcd json_codec 0 ''gateway1'' [] demo_center = Ret (r2, cs2)"
    and r': "cr_Code r2 = 0" "mq_log (bs_nsq cs2) = [(''system_messages'', b2)]"
    by (simp add: RestartService_def ops)
  have g: "utf8_ok ''gateway1''" by (simp add: rune_len.simps)
  have z': "int64 (unix 0)" by (simp add: z int64_def)
  show ?thesis
    using commands_over_json [OF mem_nsq.nsq_client_axioms g _ z' s r,
        where et' = mem_etcd and now' = "\<lambda>_. 0" and m = "''gateway1''" and w = demo_base] s s' r r' n
    by simp
qed

section \<open>A running node seen from the center\<close>

lemma etcd_abs_prefix:
  assumes "rg_keyPrefix rg = rg_keyPrefix rg'" and "view d = view d'"
  shows "etcd_abs et view (rg, d) = etcd_abs et view (rg', d')"
  using assms by (simp add: etcd_abs_def service_key_def fun_eq_iff)

lemma plain_types: "t \<in> set (service_types @ [''center'']) \<Longrightarrow> plain t"
  by (auto simp: service_types_def)

context etcd_client
begin

abbreviation stored :: "('b, 's, 'h, 'n, 'd) base_server \<Rightarrow> services" where
  "stored cs \<equiv> etcd_abs et view (bs_registry cs, bs_etcd cs)"

abbreviation center_ok :: "('b, 's, 'h, 'n, 'd) base_server \<Rightarrow> bool" where
  "center_ok cs \<equiv> etcd_ok et view (bs_registry cs, bs_etcd cs)"

lemma center_services_view:
  assumes "center_services et t cs = (res, cs')" and "center_ok cs" and "plain t"
  shows "center_ok cs'" and "stored cs' = stored cs" and "\<And>xs. res = Some xs \<Longrightarrow> set xs = of_type (stored cs) t"
proof -
  obtain d where g: "GetServices et t (bs_registry cs) (bs_etcd cs) = (res, d)" and cs': "cs' = cs\<lparr>bs_etcd := d\<rparr>"
    using assms(1) by (auto simp: center_services_def split: prod.splits)
  have v: "view d = view (bs_etcd cs)" and s: "\<And>xs. res = Some xs \<Longrightarrow> set xs = of_type (stored cs) t"
    using GetServices_view [OF g assms(2,3)] by auto
  show "center_ok cs'" using assms(2) v by (simp add: cs' etcd_ok_def)
  show "stored cs' = stored cs" unfolding cs' by (rule etcd_abs_prefix) (simp_all add: v)
  show "\<And>xs. res = Some xs \<Longrightarrow> set xs = of_type (stored cs) t" by (rule s)
qed

lemma find_services_view:
  assumes "find_services et n ts cs = (ss, cs')" and "center_ok cs" and "\<And>t. t \<in> set ts \<Longrightarrow> plain t" and "s \<in> set ss"
  shows "\<exists>t \<in> set ts. stored cs (t, n) = Some s"
  using assms
proof (induction ts arbitrary: cs ss)
  case (Cons t ts)
  obtain res cs1 where c: "center_services et t cs = (res, cs1)" by fastforce
  obtain rest where f: "find_services et n ts cs1 = (rest, cs')" using Cons.prems(1) c by (auto split: prod.splits)
  have v: "center_ok cs1" "stored cs1 = stored cs" "\<And>xs. res = Some xs \<Longrightarrow> set xs = of_type (stored cs) t"
    using center_services_view [OF c Cons.prems(2)] Cons.prems(3) by simp_all
  have ss: "ss = (case res of None \<Rightarrow> rest | Some services \<Rightarrow>
      (case List.find (\<lambda>s. si_NodeID s = n) services of None \<Rightarrow> rest | Some s \<Rightarrow> s # rest))"
    using Cons.prems(1) c f by simp
  show ?case
  proof (cases "s \<in> set rest")
    case True
    have "\<exists>t \<in> set ts. stored cs1 (t, n) = Some s" by (rule Cons.IH [OF f v(1) _ True]) (use Cons.prems(3) in simp)
    then show ?thesis using v(2) by simp
  next
    case False
    then obtain services where "res = Some services" "List.find (\<lambda>s. si_NodeID s = n) services = Some s"
      using ss Cons.prems(4) by (auto split: option.splits)
    then have "s \<in> of_type (stored cs) t" "si_NodeID s = n" using v(3) by (auto simp: find_Some_iff)
    then show ?thesis by (auto simp: of_type_def)
  qed
qed simp

lemma collect_services_view:
  assumes "collect_services et ts cs = (ss, cs')" and "center_ok cs" and "\<And>t. t \<in> set ts \<Longrightarrow> plain t" and "s \<in> set ss"
  shows "\<exists>t. stored cs (t, si_NodeID s) = Some s"
  using assms
proof (induction ts arbitrary: cs ss)
  case (Cons t ts)
  obtain res cs1 where c: "center_services et t cs = (res, cs1)" by fastforce
  obtain rest where f: "collect_services et ts cs1 = (rest, cs')" using Cons.prems(1) c by (auto split: prod.splits)
  have v: "center_ok cs1" "stored cs1 = stored cs" "\<And>xs. res = Some xs \<Longrightarrow> set xs = of_type (stored cs) t"
    using center_services_view [OF c Cons.prems(2)] Cons.prems(3) by simp_all
  have ss: "ss = (case res of None \<Rightarrow> rest | Some services \<Rightarrow> services @ rest)" using Cons.prems(1) c f by simp
  show ?case
  proof (cases "s \<in> set rest")
    case True
    have "\<exists>t. stored cs1 (t, si_NodeID s) = Some s" by (rule Cons.IH [OF f v(1) _ True]) (use Cons.prems(3) in simp)
    then show ?thesis using v(2) by simp
  next
    case False
    then obtain services where "res = Some services" "s \<in> set services" using ss Cons.prems(4) by (auto split: option.splits)
    then have "s \<in> of_type (stored cs) t" using v(3) by simp
    then show ?thesis by (auto simp: of_type_def)
  qed
qed simp

text \<open>If etcd answers every query, an entry of one of the types is found.\<close>

abbreviation readable :: "('b, 's, 'h, 'n, 'd) base_server \<Rightarrow> bool" where
  "readable cs \<equiv> \<forall>p d. fst (et_GetPrefix et (rg_ctxDone (bs_registry cs)) p d) \<noteq> None"

lemma center_services_readable:
  assumes "center_services et t cs = (res, cs')" and "readable cs"
  shows "readable cs'" and "res \<noteq> None"
  using assms by (auto simp: center_services_def GetServices_def split: prod.splits) (metis fst_conv)

lemma stored_member: "stored cs (t, n) = Some s \<Longrightarrow> center_ok cs \<Longrightarrow> s \<in> of_type (stored cs) t \<and> si_NodeID s = n"
  using reg.keyed [of "(bs_registry cs, bs_etcd cs)"] by (auto simp: keyed_def of_type_def)

lemma find_services_found:
  assumes "find_services et n ts cs = (ss, cs')" and "center_ok cs" and "\<And>t. t \<in> set ts \<Longrightarrow> plain t" and "readable cs"
    and "t \<in> set ts" and "stored cs (t, n) = Some s"
  shows "ss \<noteq> []"
  using assms
proof (induction ts arbitrary: cs ss)
  case (Cons a ts)
  obtain res cs1 where c: "center_services et a cs = (res, cs1)" by fastforce
  obtain rest where f: "find_services et n ts cs1 = (rest, cs')" using Cons.prems(1) c by (auto split: prod.splits)
  have v: "center_ok cs1" "stored cs1 = stored cs" "\<And>xs. res = Some xs \<Longrightarrow> set xs = of_type (stored cs) a"
    using center_services_view [OF c Cons.prems(2)] Cons.prems(3) by simp_all
  obtain xs where xs: "res = Some xs" and r1: "readable cs1" using center_services_readable [OF c Cons.prems(4)] by blast
  have ss: "ss = (case List.find (\<lambda>s. si_NodeID s = n) xs of None \<Rightarrow> rest | Some s \<Rightarrow> s # rest)"
    using Cons.prems(1) c f xs by simp
  show ?case
  proof (cases "t = a")
    case True
    then have "s \<in> set xs" "si_NodeID s = n" using stored_member [OF Cons.prems(6,2)] v(3) [OF xs] by simp_all
    then have "List.find (\<lambda>s. si_NodeID s = n) xs \<noteq> None" by (auto simp: find_None_iff)
    then show ?thesis using ss by auto
  next
    case False
    have "rest \<noteq> []" by (rule Cons.IH [OF f v(1) _ r1]) (use Cons.prems False v(2) in auto)
    then show ?thesis using ss by (auto split: option.splits)
  qed
qed simp

lemma collect_services_found:
  assumes "collect_services et ts cs = (ss, cs')" and "center_ok cs" and "\<And>t. t \<in> set ts \<Longrightarrow> plain t" and "readable cs"
    and "t \<in> set ts" and "stored cs (t, n) = Some s"
  shows "s \<in> set ss"
  using assms
proof (induction ts arbitrary: cs ss)
  case (Cons a ts)
  obtain res cs1 where c: "center_services et a cs = (res, cs1)" by fastforce
  obtain rest where f: "collect_services et ts cs1 = (rest, cs')" using Cons.prems(1) c by (auto split: prod.splits)
  have v: "center_ok cs1" "stored cs1 = stored cs" "\<And>xs. res = Some xs \<Longrightarrow> set xs = of_type (stored cs) a"
    using center_services_view [OF c Cons.prems(2)] Cons.prems(3) by simp_all
  obtain xs where xs: "res = Some xs" and r1: "readable cs1" using center_services_readable [OF c Cons.prems(4)] by blast
  have ss: "ss = xs @ rest" using Cons.prems(1) c f xs by simp
  show ?case
  proof (cases "t = a")
    case True
    then show ?thesis using stored_member [OF Cons.prems(6,2)] v(3) [OF xs] ss by simp
  next
    case False
    have "s \<in> set rest" by (rule Cons.IH [OF f v(1) _ r1]) (use Cons.prems False v(2) in auto)
    then show ?thesis using ss by simp
  qed
qed simp

text \<open>What etcd holds of a node after it started, whatever its load updates did.\<close>

lemma started_stored:
  assumes "center_ok bs" and "plain (bs_nodeType bs)"
    and "base_Start et now1 now2 True bs = Ret (None, bs1)" and "\<not> rg_locked (bs_registry bs)" and "\<not> bs_loopStuck bs"
    and "rg_keyPrefix rg = rg_keyPrefix (bs_registry bs)" and "d = bs_etcd (fold (loadUpdate_tick et) ticks bs1)"
    and "\<And>t. t \<noteq> bs_nodeType bs \<Longrightarrow> stored bs (t, bs_nodeID bs) = None"
  shows "etcd_abs et view (rg, d) (t, bs_nodeID bs) =
    (if t = bs_nodeType bs then Some ((own_info now1 bs)\<lparr>si_UpdateTime := unix now2\<rparr>) else None)"
proof -
  obtain err rg1 d1 where reg: "Register et now2 (own_info now1 bs) (bs_registry bs) (bs_etcd bs) = (Ret None, rg1, d1)"
    and bs1: "bs1 = bs\<lparr>bs_listening := True, bs_registry := rg1, bs_etcd := d1,
      bs_loops := Suc (bs_loops bs), bs_status := ''running''\<rparr>"
    by (rule base_Start_registers [OF assms(3)]) simp_all
  have d: "d = d1" using ticks_keep_etcd [OF assms(3-5)] by (simp add: assms(7) bs1)
  obtain f where "rg1 = (bs_registry bs)\<lparr>rg_services := f\<rparr>" using Register_view [OF reg] by blast
  then have "etcd_abs et view (rg, d) = etcd_abs et view (rg1, d1)" using assms(6) d by (intro etcd_abs_prefix) simp_all
  moreover have "etcd_abs et view (rg1, d1) =
      (stored bs)((bs_nodeType bs, bs_nodeID bs) \<mapsto> (own_info now1 bs)\<lparr>si_UpdateTime := unix now2\<rparr>)"
    using reg.register_law [of now2 "own_info now1 bs" "(bs_registry bs, bs_etcd bs)" "Ret None" "(rg1, d1)"] reg assms(1,2)
    by (simp add: etcd_register_def own_info_def)
  ultimately show ?thesis using assms(8) by auto
qed

end

lemma stale_not_sent:
  "\<forall>s \<in> set ss. \<not> i64 (unix now - si_UpdateTime s) \<le> limit \<Longrightarrow>
     send_to_fresh nl co now limit command args ss c cs = Ret (c, cs)"
  by (induction ss) simp_all



end
