(* ===== verification/MongoManager.thy ===== *)
theory MongoManager
  imports Prelude
begin

text \<open>
  The MongoDB manager, \<open>internal/database/mongodb/manager.go\<close>: the client options of the three
  modes, the connection, and its end. The driver is a parameter; \<open>client_options\<close> lists what
  the code sets on the driver's options, \<open>None\<close> for what it does not set.
\<close>

section \<open>Configuration\<close>

record mongo_config =
  mg_URI :: string
  mg_Database :: string
  mg_ReplicaSet :: bool
  mg_ReplicaSetName :: string
  mg_Hosts :: "string list"
  mg_AuthSource :: string
  mg_Username :: string
  mg_Password :: string
  mg_ShardedCluster :: bool
  mg_MongosHosts :: "string list"
  mg_ConnectTimeout :: duration
  mg_MaxPoolSize :: u64
  mg_MinPoolSize :: u64
  mg_MaxConnIdleTime :: duration
  mg_ReadPreference :: string
  mg_WriteConcern :: string
  mg_ReadConcern :: string
  mg_TLSEnabled :: bool
  mg_TLSCertFile :: string
  mg_TLSKeyFile :: string
  mg_TLSCAFile :: string

datatype read_pref = Primary | PrimaryPreferred | Secondary | SecondaryPreferred | Nearest

datatype write_concern = WMajority | W int

record credential =
  cr_Username :: string
  cr_Password :: string
  cr_AuthSource :: string

record client_options =
  co_URI :: string
  co_ConnectTimeout :: duration
  co_MaxPoolSize :: u64
  co_MinPoolSize :: u64
  co_MaxConnIdleTime :: duration
  co_Auth :: "credential option"
  co_ReplicaSet :: "string option"
  co_ReadPreference :: "read_pref option"
  co_WriteConcern :: "write_concern option"

datatype mongo_error = HostsNotConfigured | SetNameNotConfigured | MongosNotConfigured
  | UnknownReadPreference string | UnknownWriteConcern string | MongoConnectFailed | MongoPingFailed

text \<open>\<open>strconv.Atoi\<close>: a sign, digits and nothing else, within 64 bits.\<close>

definition Atoi :: "string \<Rightarrow> int option" where
  "Atoi s =
     (let neg = (s \<noteq> [] \<and> hd s = CHR ''-'');
          ds = (if s \<noteq> [] \<and> hd s \<in> {CHR ''-'', CHR ''+''} then tl s else s);
          n = (if neg then - int (parse_digits ds) else int (parse_digits ds))
      in if ds = [] \<or> \<not> list_all is_digit ds \<or> n < - (2 ^ 63) \<or> n \<ge> 2 ^ 63 then None else Some n)"

definition parseIntOrDefault :: "string \<Rightarrow> int \<Rightarrow> int" where
  "parseIntOrDefault s defaultValue = (case Atoi s of Some val \<Rightarrow> val | None \<Rightarrow> defaultValue)"

definition parseReadPreference :: "string \<Rightarrow> mongo_error + read_pref" where
  "parseReadPreference pref =
     (if pref = ''primary'' then Inr Primary
      else if pref = ''primaryPreferred'' then Inr PrimaryPreferred
      else if pref = ''secondary'' then Inr Secondary
      else if pref = ''secondaryPreferred'' then Inr SecondaryPreferred
      else if pref = ''nearest'' then Inr Nearest
      else Inl (UnknownReadPreference pref))"

definition parseWriteConcern :: "string \<Rightarrow> mongo_error + write_concern" where
  "parseWriteConcern concern =
     (if concern = ''majority'' then Inr WMajority
      else if concern = ''1'' then Inr (W 1)
      else if concern = ''2'' then Inr (W 2)
      else if concern = ''3'' then Inr (W 3)
      else (let w = parseIntOrDefault concern (- 1) in
            if w > 0 then Inr (W w) else Inl (UnknownWriteConcern concern)))"

section \<open>Options\<close>

fun join_hosts :: "string list \<Rightarrow> string" where
  "join_hosts [] = ''''"
| "join_hosts [h] = h"
| "join_hosts (h # hs) = h @ '','' @ join_hosts hs"

text \<open>The options all three modes set.\<close>

definition base_options :: "string \<Rightarrow> mongo_config \<Rightarrow> client_options" where
  "base_options uri config =
     \<lparr>co_URI = uri, co_ConnectTimeout = mg_ConnectTimeout config, co_MaxPoolSize = mg_MaxPoolSize config,
      co_MinPoolSize = mg_MinPoolSize config, co_MaxConnIdleTime = mg_MaxConnIdleTime config, co_Auth = None,
      co_ReplicaSet = None, co_ReadPreference = None, co_WriteConcern = None\<rparr>"

definition has_credentials :: "mongo_config \<Rightarrow> bool" where
  "has_credentials config \<longleftrightarrow> mg_Username config \<noteq> '''' \<and> mg_Password config \<noteq> ''''"

definition buildSingleOptions :: "mongo_config \<Rightarrow> mongo_error + client_options" where
  "buildSingleOptions config =
     (let opts = base_options (mg_URI config) config in
      Inr (if has_credentials config
           then opts\<lparr>co_Auth := Some \<lparr>cr_Username = mg_Username config, cr_Password = mg_Password config,
                                     cr_AuthSource = mg_AuthSource config\<rparr>\<rparr>
           else opts))"

text \<open>The scheme, the credentials and the hosts of a URI.\<close>

definition uri_head :: "mongo_config \<Rightarrow> string list \<Rightarrow> string" where
  "uri_head config hosts =
     ''mongodb://'' @ (if has_credentials config then mg_Username config @ '':'' @ mg_Password config @ ''@'' else '''') @
     join_hosts hosts"

definition buildReplicaSetOptions :: "mongo_config \<Rightarrow> mongo_error + client_options" where
  "buildReplicaSetOptions config =
     (if mg_Hosts config = [] then Inl HostsNotConfigured
      else if mg_ReplicaSetName config = '''' then Inl SetNameNotConfigured
      else (let uri = uri_head config (mg_Hosts config) @ ''/'' @ mg_Database config @ ''?replicaSet='' @ mg_ReplicaSetName config @
                  (if mg_AuthSource config \<noteq> '''' then ''&authSource='' @ mg_AuthSource config else '''');
                opts = (base_options uri config)\<lparr>co_ReplicaSet := Some (mg_ReplicaSetName config)\<rparr>
            in case (if mg_ReadPreference config = '''' then Inr opts
                     else case parseReadPreference (mg_ReadPreference config) of
                            Inl e \<Rightarrow> Inl e | Inr p \<Rightarrow> Inr (opts\<lparr>co_ReadPreference := Some p\<rparr>)) of
                 Inl e \<Rightarrow> Inl e
               | Inr opts1 \<Rightarrow>
                   if mg_WriteConcern config = '''' then Inr opts1
                   else (case parseWriteConcern (mg_WriteConcern config) of
                           Inl e \<Rightarrow> Inl e | Inr w \<Rightarrow> Inr (opts1\<lparr>co_WriteConcern := Some w\<rparr>))))"

definition buildShardedClusterOptions :: "mongo_config \<Rightarrow> mongo_error + client_options" where
  "buildShardedClusterOptions config =
     (if mg_MongosHosts config = [] then Inl MongosNotConfigured
      else Inr (base_options (uri_head config (mg_MongosHosts config) @ ''/'' @ mg_Database config @
             (if mg_AuthSource config \<noteq> '''' then ''?authSource='' @ mg_AuthSource config else '''')) config))"

section \<open>The manager\<close>

text \<open>\<open>'c\<close>: a client of the driver; \<open>'m\<close>: the state the driver acts on.\<close>

record ('c, 'm) mongo_lib =
  ml_Connect :: "client_options \<Rightarrow> 'm \<Rightarrow> 'c option \<times> 'm"
  ml_Ping :: "'c \<Rightarrow> 'm \<Rightarrow> bool \<times> 'm"
  ml_Disconnect :: "'c \<Rightarrow> 'm \<Rightarrow> bool \<times> 'm"

record 'c mongo_manager =
  mo_client :: 'c
  mo_database :: string
  mo_config :: mongo_config
  mo_mode :: string

definition mongo_options :: "mongo_config \<Rightarrow> string \<times> (mongo_error + client_options)" where
  "mongo_options config =
     (if mg_ShardedCluster config then (''sharded'', buildShardedClusterOptions config)
      else if mg_ReplicaSet config then (''replica_set'', buildReplicaSetOptions config)
      else (''single'', buildSingleOptions config))"

definition NewMongoManager ::
  "('c, 'm) mongo_lib \<Rightarrow> mongo_config \<Rightarrow> 'm \<Rightarrow> (mongo_error + 'c mongo_manager) \<times> 'm" where
  "NewMongoManager ml config m =
     (case mongo_options config of
        (mode, Inl e) \<Rightarrow> (Inl e, m)
      | (mode, Inr opts) \<Rightarrow>
          (case ml_Connect ml opts m of
             (None, m1) \<Rightarrow> (Inl MongoConnectFailed, m1)
           | (Some client, m1) \<Rightarrow>
               (case ml_Ping ml client m1 of
                  (False, m2) \<Rightarrow> (Inl MongoPingFailed, snd (ml_Disconnect ml client m2))
                | (True, m2) \<Rightarrow> (Inr \<lparr>mo_client = client, mo_database = mg_Database config, mo_config = config,
                                    mo_mode = mode\<rparr>, m2))))"

definition GetCollection :: "string \<Rightarrow> 'c mongo_manager \<Rightarrow> string \<times> string" where
  "GetCollection name mm = (mo_database mm, name)"

definition mongo_Close :: "('c, 'm) mongo_lib \<Rightarrow> 'c mongo_manager \<Rightarrow> 'm \<Rightarrow> bool \<times> 'm" where
  "mongo_Close ml mm m = ml_Disconnect ml (mo_client mm) m"

section \<open>Connections\<close>

text \<open>
  What the driver documents of a client's life: \<open>Connect\<close> opens a new one or nothing,
  \<open>Disconnect\<close> closes it. \<open>opened\<close>: the clients that hold connections.
\<close>

locale mongo_client =
  fixes ml :: "('c, 'm) mongo_lib" and opened :: "'m \<Rightarrow> 'c set"
  assumes connect: "ml_Connect ml opts m = (Some c, m') \<Longrightarrow> c \<notin> opened m \<and> opened m' = insert c (opened m)"
    and no_connect: "ml_Connect ml opts m = (None, m') \<Longrightarrow> opened m' = opened m"
    and ping: "ml_Ping ml c m = (ok, m') \<Longrightarrow> opened m' = opened m"
    and disconnect: "ml_Disconnect ml c m = (ok, m') \<Longrightarrow> opened m' = opened m - {c}"
begin

lemma new_manager_opened:
  assumes "NewMongoManager ml config m = (r, m')"
  shows "case r of Inl e \<Rightarrow> opened m' = opened m
    | Inr mm \<Rightarrow> mo_client mm \<notin> opened m \<and> opened m' = insert (mo_client mm) (opened m)"
proof (cases "snd (mongo_options config)")
  case (Inl e)
  then show ?thesis using assms by (auto simp: NewMongoManager_def split: prod.splits)
next
  case (Inr opts)
  then obtain mode where o: "mongo_options config = (mode, Inr opts)" by (metis prod.collapse)
  obtain c m1 where c: "ml_Connect ml opts m = (c, m1)" by fastforce
  note new = assms [unfolded NewMongoManager_def o prod.case sum.case c]
  show ?thesis
  proof (cases c)
    case None
    then show ?thesis using new c no_connect by auto
  next
    case (Some client)
    obtain ok m2 where p: "ml_Ping ml client m1 = (ok, m2)" by fastforce
    obtain ok2 m3 where d: "ml_Disconnect ml client m2 = (ok2, m3)" by fastforce
    show ?thesis using new c connect [of opts m client m1] ping [OF p] disconnect [OF d] Some p d
      by (cases ok) auto
  qed
qed

lemma close_opened: "opened (snd (mongo_Close ml mm m)) = opened m - {mo_client mm}"
  using disconnect [of "mo_client mm" m] by (cases "ml_Disconnect ml (mo_client mm) m") (simp add: mongo_Close_def)

end

text \<open>A driver in memory: clients are numbers; a server that does not answer pings is down.\<close>

record mem_mongo_server =
  ms_clients :: "nat list"
  ms_next :: nat
  ms_down :: bool

definition mem_mongo_lib :: "(nat, mem_mongo_server) mongo_lib" where
  "mem_mongo_lib = \<lparr>ml_Connect = (\<lambda>opts m. if ms_next m \<in> set (ms_clients m) then (None, m)
       else (Some (ms_next m), m\<lparr>ms_clients := ms_next m # ms_clients m, ms_next := Suc (ms_next m)\<rparr>)),
     ml_Ping = (\<lambda>c m. (\<not> ms_down m, m)),
     ml_Disconnect = (\<lambda>c m. (c \<in> set (ms_clients m), m\<lparr>ms_clients := filter (\<lambda>x. x \<noteq> c) (ms_clients m)\<rparr>))\<rparr>"

interpretation mem_mongo_client: mongo_client mem_mongo_lib "\<lambda>m. set (ms_clients m)"
  by unfold_locales (auto simp: mem_mongo_lib_def split: if_splits)

section \<open>Properties\<close>

lemma Atoi_show_int:
  assumes "0 < n" and "n < 2 ^ 63"
  shows "Atoi (show_int n) = Some n"
proof -
  have d: "list_all is_digit (show_nat (nat n))" by (rule show_nat_digits)
  then have "is_digit (hd (show_nat (nat n)))" by (cases "show_nat (nat n)") simp_all
  then have "hd (show_nat (nat n)) \<notin> {CHR ''-'', CHR ''+''}" by (auto simp: is_digit_def)
  then show ?thesis using assms d by (simp add: Atoi_def show_int_def Let_def)
qed

lemma Atoi_small: "Atoi ''1'' = Some 1" "Atoi ''2'' = Some 2" "Atoi ''3'' = Some 3" "Atoi ''majority'' = None"
  by (simp_all add: Atoi_def parse_digits_def digit_val_def is_digit_def)

text \<open>
  parseWriteConcern accepts exactly "majority" and the decimal forms, with an optional sign, of
  the positive 64-bit integers, each as this number of nodes; everything else, zero and
  negative numbers included, is an error.
\<close>

theorem write_concern_parsed:
  "parseWriteConcern s = Inr w \<longleftrightarrow>
     (case w of WMajority \<Rightarrow> s = ''majority'' | W n \<Rightarrow> 0 < n \<and> Atoi s = Some n)"
proof -
  have "parseWriteConcern s =
      (if s = ''majority'' then Inr WMajority
       else case Atoi s of Some n \<Rightarrow> if 0 < n then Inr (W n) else Inl (UnknownWriteConcern s) | None \<Rightarrow> Inl (UnknownWriteConcern s))"
    by (simp add: parseWriteConcern_def parseIntOrDefault_def Atoi_small Let_def split: option.split)
  then show ?thesis using Atoi_small(4) by (cases w) (auto split: option.splits)
qed

text \<open>The URI does not escape the credentials.\<close>

lemma uri_head_ambiguous:
  assumes "u \<noteq> []" and "w \<noteq> []"
  shows "uri_head (config\<lparr>mg_Username := u @ '':'' @ v, mg_Password := w\<rparr>) hosts =
    uri_head (config\<lparr>mg_Username := u, mg_Password := v @ '':'' @ w\<rparr>) hosts"
  using assms by (simp add: uri_head_def has_credentials_def)

text \<open>
  The URIs of the replica set and of the sharded mode do not escape the credentials: a user
  name with a colon gives the same options as the shorter name with a longer password.
\<close>

theorem mongo_credentials_ambiguous:
  assumes "u \<noteq> []" and "w \<noteq> []"
  shows "buildReplicaSetOptions (config\<lparr>mg_Username := u @ '':'' @ v, mg_Password := w\<rparr>) =
      buildReplicaSetOptions (config\<lparr>mg_Username := u, mg_Password := v @ '':'' @ w\<rparr>) \<and>
    buildShardedClusterOptions (config\<lparr>mg_Username := u @ '':'' @ v, mg_Password := w\<rparr>) =
      buildShardedClusterOptions (config\<lparr>mg_Username := u, mg_Password := v @ '':'' @ w\<rparr>)"
  using uri_head_ambiguous [OF assms, where config = config and v = v]
  by (simp add: buildReplicaSetOptions_def buildShardedClusterOptions_def base_options_def Let_def del: append.simps cong: if_cong sum.case_cong)

definition demo_mongo_config :: mongo_config where
  "demo_mongo_config = \<lparr>mg_URI = ''mongodb://localhost:27017'', mg_Database = ''game'', mg_ReplicaSet = True,
     mg_ReplicaSetName = ''rs0'', mg_Hosts = [''a:1'', ''b:2''], mg_AuthSource = '''', mg_Username = '''', mg_Password = '''',
     mg_ShardedCluster = False, mg_MongosHosts = [], mg_ConnectTimeout = 0, mg_MaxPoolSize = 10, mg_MinPoolSize = 1,
     mg_MaxConnIdleTime = 0, mg_ReadPreference = ''nearest'', mg_WriteConcern = ''majority'', mg_ReadConcern = '''',
     mg_TLSEnabled = False, mg_TLSCertFile = '''', mg_TLSKeyFile = '''', mg_TLSCAFile = ''''\<rparr>"

theorem mongo_credentials_ambiguous_witness:
  "buildReplicaSetOptions (demo_mongo_config\<lparr>mg_Username := ''a:b'', mg_Password := ''c''\<rparr>) =
     buildReplicaSetOptions (demo_mongo_config\<lparr>mg_Username := ''a'', mg_Password := ''b:c''\<rparr>) \<and>
   map_sum id co_URI (buildReplicaSetOptions (demo_mongo_config\<lparr>mg_Username := ''a'', mg_Password := ''b:c''\<rparr>)) =
     Inr ''mongodb://a:b:c@a:1,b:2/game?replicaSet=rs0''"
proof -
  have "map_sum id co_URI (buildReplicaSetOptions (demo_mongo_config\<lparr>mg_Username := ''a'', mg_Password := ''b:c''\<rparr>)) =
     Inr ''mongodb://a:b:c@a:1,b:2/game?replicaSet=rs0''"
    by (simp add: buildReplicaSetOptions_def demo_mongo_config_def uri_head_def has_credentials_def base_options_def
        parseReadPreference_def parseWriteConcern_def Let_def)
  then show ?thesis using mongo_credentials_ambiguous [where u = "''a''" and w = "''c''" and v = "''b''" and config = demo_mongo_config] by simp
qed

text \<open>
  On a driver that does what it documents, NewMongoManager either fails and leaves no
  connection open, also when only the ping failed, or returns a manager of the configured mode
  with exactly one new client, which Close closes.
\<close>

theorem mongo_connection_lifetime:
  assumes "mongo_client ml opened" and "NewMongoManager ml config m = (r, m')"
  shows "case r of
      Inl e \<Rightarrow> opened m' = opened m
    | Inr mm \<Rightarrow> opened m' = insert (mo_client mm) (opened m) \<and> opened (snd (mongo_Close ml mm m')) = opened m \<and>
        mo_mode mm = (if mg_ShardedCluster config then ''sharded'' else if mg_ReplicaSet config then ''replica_set'' else ''single'')"
proof (cases r)
  case (Inl e)
  then show ?thesis using mongo_client.new_manager_opened [OF assms] by simp
next
  case (Inr mm)
  then have "mo_mode mm = fst (mongo_options config)"
    using assms(2) by (auto simp: NewMongoManager_def split: prod.splits sum.splits option.splits bool.splits)
  then show ?thesis using mongo_client.new_manager_opened [OF assms] mongo_client.close_opened [OF assms(1), of mm m'] Inr
    by (auto simp: mongo_options_def)
qed

theorem mongo_connection_lifetime_witness:
  "let (r, m') = NewMongoManager mem_mongo_lib demo_mongo_config \<lparr>ms_clients = [], ms_next = 0, ms_down = True\<rparr>
   in r = Inl MongoPingFailed \<and> ms_clients m' = []"
proof -
  obtain r m' where n: "NewMongoManager mem_mongo_lib demo_mongo_config \<lparr>ms_clients = [], ms_next = 0, ms_down = True\<rparr> = (r, m')"
    by fastforce
  then have "r = Inl MongoPingFailed"
    by (simp add: NewMongoManager_def mongo_options_def demo_mongo_config_def buildReplicaSetOptions_def
        parseReadPreference_def parseWriteConcern_def mem_mongo_lib_def Let_def)
  then show ?thesis using mongo_connection_lifetime [OF mem_mongo_client.mongo_client_axioms n] n by simp
qed

end
