(* ===== verification/Startup.thy ===== *)
theory Startup
  imports Server RedisCache MongoManager Balancer
begin

text \<open>
  How a node comes up: \<open>NewBaseServer\<close> with \<open>initComponents\<close>
  (\<open>internal/server/server.go\<close>), the constructors of the four servers, and the gateway's own
  \<open>Start\<close>. A constructor that fails calls \<open>logger.Fatal\<close>, which ends the process, so
  its failures are values of \<open>fatal\<close> without a state.
\<close>

section \<open>Components\<close>

text \<open>The clients of the four back ends, and the parts of the configuration file they get.\<close>

record ('r, 'c, 'm, 'n, 'v, 'd) backends =
  bk_redis :: "'r exec"
  bk_mongo :: "('c, 'm) mongo_lib"
  bk_nsq :: "'n nsq"
  bk_etcd :: "('v, 'd) etcd"

record component_config =
  cp_Redis :: redis_config
  cp_MongoDB :: mongo_config
  cp_NSQ :: nsq_config

datatype init_error = ConfigFailed config_error | RedisInitFailed redis_error | MongoInitFailed mongo_error
  | NSQInitFailed mq_error | ETCDInitFailed reg_error

record ('b, 's, 'h, 'c, 'n, 'd) server_parts =
  sp_base :: "('b, 's, 'h, 'n, 'd) base_server"
  sp_redis :: redis_manager
  sp_mongo :: "'c mongo_manager"
  sp_discovery :: discovery
  sp_limiter :: "'b limit_manager"

definition new_base ::
  "server_config \<Rightarrow> string \<Rightarrow> string \<Rightarrow> 'h nsq_manager \<Rightarrow> registry \<Rightarrow> 'n \<Rightarrow> 'd \<Rightarrow> ('b, 's, 'h, 'n, 'd) base_server" where
  "new_base config nodeType nodeID nm rg n d =
     \<lparr>bs_config = config, bs_nodeType = nodeType, bs_nodeID = nodeID, bs_status = ''initializing'',
      bs_actorSystem = NewActorSystem (nodeType @ ''-'' @ nodeID), bs_tcpServer = None, bs_nsqManager = nm,
      bs_registry = rg, bs_listening = False, bs_cancelled = False, bs_loops = 0, bs_loopStuck = False,
      bs_stopPending = False, bs_nsq = n, bs_etcd = d\<rparr>"

text \<open>In order: Redis, MongoDB, NSQ, etcd, discovery (which watches its own type), the limiter.\<close>

definition initComponents ::
  "('r, 'c, 'm, 'n, 'v, 'd) backends \<Rightarrow> component_config \<Rightarrow> server_config \<Rightarrow> string \<Rightarrow> string \<Rightarrow> 'r \<Rightarrow> 'm \<Rightarrow> 'n \<Rightarrow> 'd \<Rightarrow>
   (init_error + ('b, 's, 'h, 'c, 'n, 'd) server_parts) outcome" where
  "initComponents bk cp config nodeType nodeID r m n d =
     obind (fst (NewRedisManager (bk_redis bk) (cp_Redis cp) r)) (\<lambda>redis. case redis of
       Inl e \<Rightarrow> Ret (Inl (RedisInitFailed e))
     | Inr rm \<Rightarrow> (case fst (NewMongoManager (bk_mongo bk) (cp_MongoDB cp) m) of
       Inl e \<Rightarrow> Ret (Inl (MongoInitFailed e))
     | Inr mm \<Rightarrow> (case NewNSQManager (bk_nsq bk) (cp_NSQ cp) n of
       (Inl e, n1) \<Rightarrow> Ret (Inl (NSQInitFailed e))
     | (Inr nm, n1) \<Rightarrow> (case NewETCDRegistry (bk_etcd bk) d of
       (Inl e, d1) \<Rightarrow> Ret (Inl (ETCDInitFailed e))
     | (Inr rg, d1) \<Rightarrow> obind (Watch nodeType 0 rg) (\<lambda>rg1.
         Ret (Inr \<lparr>sp_base = new_base config nodeType nodeID nm rg1 n1 d1, sp_redis = rm, sp_mongo = mm,
                   sp_discovery = NewServiceDiscovery nodeType, sp_limiter = NewRateLimitManager\<rparr>))))))"

definition NewBaseServer ::
  "('r, 'c, 'm, 'n, 'v, 'd) backends \<Rightarrow> (server_config \<times> component_config) option \<Rightarrow> string \<Rightarrow> string \<Rightarrow>
   'r \<Rightarrow> 'm \<Rightarrow> 'n \<Rightarrow> 'd \<Rightarrow> (init_error + ('b, 's, 'h, 'c, 'n, 'd) server_parts) outcome" where
  "NewBaseServer bk file nodeType nodeID r m n d =
     (case file of
        None \<Rightarrow> Ret (Inl (ConfigFailed ReadFailed))
      | Some (cfg, cp) \<Rightarrow>
          (case loadConfig (Some cfg) nodeType nodeID of
             Inl e \<Rightarrow> Ret (Inl (ConfigFailed e))
           | Inr config \<Rightarrow> initComponents bk cp config nodeType nodeID r m n d))"

section \<open>The four servers\<close>

datatype fatal = BaseServerFailed init_error | CommonServicesFailed mq_error | SpawnFailed actor_error
  | LoginNotFound | LoginDialFailed | UnknownNodeType

text \<open>The base server with the common services, from which center, lobby and login start.\<close>

definition common_server ::
  "('r, 'c, 'm, 'n, 'v, 'd) backends \<Rightarrow> (string \<Rightarrow> 'h) \<Rightarrow> (server_config \<times> component_config) option \<Rightarrow> string \<Rightarrow> string \<Rightarrow>
   'r \<Rightarrow> 'm \<Rightarrow> 'n \<Rightarrow> 'd \<Rightarrow> (fatal + ('b, 's, 'h, 'c, 'n, 'd) server_parts) outcome" where
  "common_server bk wrap file nodeType nodeID r m n d =
     obind (NewBaseServer bk file nodeType nodeID r m n d) (\<lambda>res. case res of
       Inl e \<Rightarrow> Ret (Inl (BaseServerFailed e))
     | Inr sp \<Rightarrow> (case RegisterCommonServices (bk_nsq bk) wrap (sp_base sp) of
         (Some e, _) \<Rightarrow> Ret (Inl (CommonServicesFailed e))
       | (None, bs) \<Rightarrow> Ret (Inr (sp\<lparr>sp_base := bs\<rparr>))))"

definition NewCenterServer ::
  "('r, 'c, 'm, 'n, 'v, 'd) backends \<Rightarrow> (string \<Rightarrow> 'h) \<Rightarrow> (server_config \<times> component_config) option \<Rightarrow> string \<Rightarrow>
   'r \<Rightarrow> 'm \<Rightarrow> 'n \<Rightarrow> 'd \<Rightarrow> (fatal + ('b, 's, 'h, 'c, 'n, 'd) server_parts) outcome" where
  "NewCenterServer bk wrap file nodeID r m n d = common_server bk wrap file ''center'' nodeID r m n d"

text \<open>With the first room id.\<close>

definition boot_LobbyServer ::
  "('r, 'c, 'm, 'n, 'v, 'd) backends \<Rightarrow> (string \<Rightarrow> 'h) \<Rightarrow> (server_config \<times> component_config) option \<Rightarrow> string \<Rightarrow>
   'r \<Rightarrow> 'm \<Rightarrow> 'n \<Rightarrow> 'd \<Rightarrow> (fatal + ('b, 's, 'h, 'c, 'n, 'd) server_parts \<times> u64) outcome" where
  "boot_LobbyServer bk wrap file nodeID r m n d =
     obind (common_server bk wrap file ''lobby'' nodeID r m n d) (\<lambda>res. Ret (map_sum id (\<lambda>sp. (sp, 1000)) res))"

text \<open>An actor with its state is spawned in the node's actor system.\<close>

definition spawn_in ::
  "'s base_actor outcome \<Rightarrow> ('b, 's, 'h, 'n, 'd) base_server \<Rightarrow> (fatal + ('b, 's, 'h, 'n, 'd) base_server) outcome" where
  "spawn_in made bs =
     obind made (\<lambda>a. case SpawnActor service_ops a (bs_actorSystem bs) of
       (Some e, _) \<Rightarrow> Ret (Inl (SpawnFailed e))
     | (None, sys) \<Rightarrow> Ret (Inr (bs\<lparr>bs_actorSystem := sys\<rparr>)))"

definition NewLoginServer ::
  "('r, 'c, 'm, 'n, 'v, 'd) backends \<Rightarrow> (string \<Rightarrow> 'h) \<Rightarrow> 's \<Rightarrow> (server_config \<times> component_config) option \<Rightarrow> string \<Rightarrow>
   'r \<Rightarrow> 'm \<Rightarrow> 'n \<Rightarrow> 'd \<Rightarrow> (fatal + ('b, 's, 'h, 'c, 'n, 'd) server_parts) outcome" where
  "NewLoginServer bk wrap s0 file nodeID r m n d =
     obind (common_server bk wrap file ''login'' nodeID r m n d) (\<lambda>res. case res of
       Inl e \<Rightarrow> Ret (Inl e)
     | Inr sp \<Rightarrow> obind (spawn_in (NewLoginActor s0) (sp_base sp)) (\<lambda>b. Ret (map_sum id (\<lambda>bs. sp\<lparr>sp_base := bs\<rparr>) b)))"

text \<open>
  The gateway: its TCP server before the common services; last, the address of a login node, which
  discovery must find. \<open>dial\<close> tells whether the gRPC client can be made.
\<close>

definition find_login ::
  "('v, 'd) etcd \<Rightarrow> (string \<Rightarrow> bool) \<Rightarrow> ('b, 's, 'h, 'c, 'n, 'd) server_parts \<Rightarrow>
   (fatal + ('b, 's, 'h, 'c, 'n, 'd) server_parts \<times> string) outcome" where
  "find_login et dial sp =
     (case sd_GetService (etcd_services et) weighted_select ''login'' (sp_discovery sp) ()
        (bs_registry (sp_base sp), bs_etcd (sp_base sp)) of
        (res, sd, _, rg, d) \<Rightarrow> obind res (\<lambda>loginService. case loginService of
          None \<Rightarrow> Ret (Inl LoginNotFound)
        | Some i \<Rightarrow> (let serviceAddr = si_Address i @ '':'' @ show_int (si_Port i) in
            if \<not> dial serviceAddr then Ret (Inl LoginDialFailed)
            else Ret (Inr (sp\<lparr>sp_base := (sp_base sp)\<lparr>bs_registry := rg, bs_etcd := d\<rparr>, sp_discovery := sd\<rparr>, serviceAddr)))))"

definition NewGatewayServer ::
  "('r, 'c, 'm, 'n, 'v, 'd) backends \<Rightarrow> (string \<Rightarrow> 'h) \<Rightarrow> (string \<Rightarrow> bool) \<Rightarrow> sockets \<Rightarrow> conn_heap \<Rightarrow> 's \<Rightarrow>
   (server_config \<times> component_config) option \<Rightarrow> string \<Rightarrow> 'r \<Rightarrow> 'm \<Rightarrow> 'n \<Rightarrow> 'd \<Rightarrow>
   (fatal + ('b, 's, 'h, 'c, 'n, 'd) server_parts \<times> string) outcome" where
  "NewGatewayServer bk wrap dial socks h s0 file nodeID r m n d =
     obind (NewBaseServer bk file ''gateway'' nodeID r m n d) (\<lambda>res. case res of
       Inl e \<Rightarrow> Ret (Inl (BaseServerFailed e))
     | Inr sp \<Rightarrow>
         obind (NewTCPServer (sc_MaxConnections (bs_config (sp_base sp))) (sp_limiter sp) socks h) (\<lambda>tcpServer.
         case RegisterCommonServices (bk_nsq bk) wrap ((sp_base sp)\<lparr>bs_tcpServer := Some tcpServer\<rparr>) of
           (Some e, _) \<Rightarrow> Ret (Inl (CommonServicesFailed e))
         | (None, bs) \<Rightarrow> obind (spawn_in (NewGatewayActor s0) bs) (\<lambda>b. case b of
               Inl e \<Rightarrow> Ret (Inl e)
             | Inr bs1 \<Rightarrow> find_login (bk_etcd bk) dial (sp\<lparr>sp_base := bs1\<rparr>))))"

section \<open>Starting a gateway\<close>

datatype gateway_start_error = BaseStartFailed server_error | TCPStartFailed net_error

definition gateway_Start ::
  "('v, 'd) etcd \<Rightarrow> time \<Rightarrow> time \<Rightarrow> bool \<Rightarrow> bool \<Rightarrow> ('b, 's, 'h, 'n, 'd) base_server \<Rightarrow>
   (gateway_start_error option \<times> ('b, 's, 'h, 'n, 'd) base_server) outcome" where
  "gateway_Start et now1 now2 rpc_free tcp_free gs =
     obind (base_Start et now1 now2 rpc_free gs) (\<lambda>(err, bs). case err of
       Some e \<Rightarrow> Ret (Some (BaseStartFailed e), bs)
     | None \<Rightarrow> (case bs_tcpServer bs of
         None \<Rightarrow> Panic NilDereference
       | Some tcp \<Rightarrow> (let (e, tcp1) = server_Start tcp_free tcp
                      in Ret (map_option TCPStartFailed e, bs\<lparr>bs_tcpServer := Some tcp1\<rparr>))))"

definition gateway_Stop ::
  "'n nsq \<Rightarrow> ('v, 'd) etcd \<Rightarrow> (string \<Rightarrow> 's actor_ops) \<Rightarrow> string list \<Rightarrow> accepted option \<Rightarrow>
   ('b, 's, 'h, 'n, 'd) base_server \<Rightarrow> ('b, 's, 'h, 'n, 'd) base_server outcome" where
  "gateway_Stop nl et ops keys in_accept gs = base_Stop nl et ops keys in_accept gs"

section \<open>Properties\<close>

text \<open>What a constructed base server is made of.\<close>

lemma NewBaseServer_cases:
  fixes sp :: "('b, 's, 'h, 'c, 'n, 'd) server_parts"
  assumes "NewBaseServer bk file nodeType nodeID r m n d = Ret (Inr sp)"
  obtains cfg cp config nm rg n1 d1 where "file = Some (cfg, cp)" and "loadConfig (Some cfg) nodeType nodeID = Inr config"
    and "NewETCDRegistry (bk_etcd bk) d = (Inr rg, d1)"
    and "sp_base sp = new_base config nodeType nodeID nm
      (rg\<lparr>rg_watchers := (rg_watchers rg)(nodeType := rg_watchers rg nodeType @ [0])\<rparr>) n1 d1"
    and "sp_discovery sp = NewServiceDiscovery nodeType"
proof -
  obtain cfg cp where f: "file = Some (cfg, cp)"
    using assms by (cases "file") (auto simp: NewBaseServer_def)
  obtain config where c: "loadConfig (Some cfg) nodeType nodeID = Inr config"
    using assms f by (cases "loadConfig (Some cfg) nodeType nodeID") (simp_all add: NewBaseServer_def)
  have i: "initComponents bk cp config nodeType nodeID r m n d = Ret (Inr sp)"
    using assms f c by (simp add: NewBaseServer_def)
  then obtain redis where redis: "(case redis of
       Inl e \<Rightarrow> Ret (Inl (RedisInitFailed e))
     | Inr rm \<Rightarrow> (case fst (NewMongoManager (bk_mongo bk) (cp_MongoDB cp) m) of
       Inl e \<Rightarrow> Ret (Inl (MongoInitFailed e))
     | Inr mm \<Rightarrow> (case NewNSQManager (bk_nsq bk) (cp_NSQ cp) n of
       (Inl e, n1) \<Rightarrow> Ret (Inl (NSQInitFailed e))
     | (Inr nm, n1) \<Rightarrow> (case NewETCDRegistry (bk_etcd bk) d of
       (Inl e, d1) \<Rightarrow> Ret (Inl (ETCDInitFailed e))
     | (Inr rg, d1) \<Rightarrow> obind (Watch nodeType 0 rg) (\<lambda>rg1.
         Ret (Inr \<lparr>sp_base = new_base config nodeType nodeID nm rg1 n1 d1, sp_redis = rm, sp_mongo = mm,
                   sp_discovery = NewServiceDiscovery nodeType, sp_limiter = NewRateLimitManager\<rparr>)))))) = Ret (Inr sp)"
    unfolding initComponents_def obind_Ret by blast
  then obtain rm where rm: "redis = Inr rm" by (cases redis) simp_all
  obtain mm where mm: "fst (NewMongoManager (bk_mongo bk) (cp_MongoDB cp) m) = Inr mm"
    using redis rm by (cases "fst (NewMongoManager (bk_mongo bk) (cp_MongoDB cp) m)") simp_all
  obtain x :: "mq_error + 'h nsq_manager" and n1 where x: "NewNSQManager (bk_nsq bk) (cp_NSQ cp) n = (x, n1)" by fastforce
  then obtain nm where nm: "x = Inr nm" using redis rm mm by (cases x) simp_all
  obtain y d1 where y: "NewETCDRegistry (bk_etcd bk) d = (y, d1)" by fastforce
  then obtain rg where p: "NewETCDRegistry (bk_etcd bk) d = (Inr rg, d1)" using redis rm mm x nm by (cases y) simp_all
  have "obind (Watch nodeType 0 rg) (\<lambda>rg1.
       Ret (Inr \<lparr>sp_base = new_base config nodeType nodeID nm rg1 n1 d1, sp_redis = rm, sp_mongo = mm,
                 sp_discovery = NewServiceDiscovery nodeType, sp_limiter = NewRateLimitManager\<rparr>)) =
       (Ret (Inr sp) :: (init_error + _) outcome)"
    using redis by (simp add: rm mm x nm p)
  then show thesis using that f c p by (auto simp: Watch_def split: if_splits)
qed

text \<open>A new registry has the common prefix, its mutex is free, and it knows no service.\<close>

lemma NewETCDRegistry_fresh:
  assumes "NewETCDRegistry et d = (Inr rg, d1)"
  shows "rg_keyPrefix rg = ''/lufy/services/'' \<and> \<not> rg_locked rg \<and> rg_services rg = Map.empty"
  using assms by (auto simp: NewETCDRegistry_def createLease_def Let_def split: prod.splits option.splits if_splits)

definition loaded_port :: "server_config \<Rightarrow> string \<Rightarrow> string \<Rightarrow> int \<Rightarrow> bool" where
  "loaded_port cfg nodeType nodeID port \<longleftrightarrow>
     (\<exists>ports k. sc_Nodes cfg nodeType = Some ports \<and> k = parse_digits (trailing_digits nodeID) \<and>
        1 \<le> k \<and> k \<le> length ports \<and> port = ports ! (k - 1))"

lemma loadConfig_port:
  assumes "loadConfig (Some cfg) nodeType nodeID = Inr config"
  shows "loaded_port cfg nodeType nodeID (sc_TCPPort config) \<and> sc_RPCPort config = i64 (sc_TCPPort config + 1000)"
proof -
  let ?k = "parse_digits (trailing_digits nodeID)"
  obtain ports where p: "sc_Nodes cfg nodeType = Some ports" "\<not> (int ?k - 1 < 0 \<or> int (length ports) \<le> int ?k - 1)"
    "config = cfg\<lparr>sc_TCPPort := ports ! nat (int ?k - 1), sc_RPCPort := i64 (ports ! nat (int ?k - 1) + 1000),
       sc_HTTPPort := i64 (ports ! nat (int ?k - 1) + 2000)\<rparr>"
    using assms by (auto simp: loadConfig_def Let_def split: if_splits option.splits)
  have "nat (int ?k - 1) = ?k - 1" by simp
  then show ?thesis using p by (auto simp: loaded_port_def)
qed

text \<open>A start either fails to register, or the node is running and etcd has its description.\<close>

lemma base_Start_abs:
  assumes "etcd_client et view" and "etcd_ok et view (bs_registry bs, bs_etcd bs)" and "plain (bs_nodeType bs)"
    and "base_Start et now1 now2 True bs = Ret (err, bs')" and "bs_status bs = ''initializing''" and "\<not> bs_listening bs"
  shows "(\<exists>re. err = Some (RegisterFailed re)) \<or>
    err = None \<and> bs_status bs' = ''running'' \<and> bs_tcpServer bs' = bs_tcpServer bs \<and>
    etcd_abs et view (bs_registry bs', bs_etcd bs') =
      (etcd_abs et view (bs_registry bs, bs_etcd bs))((bs_nodeType bs, bs_nodeID bs) \<mapsto>
         (own_info now1 bs)\<lparr>si_UpdateTime := unix now2\<rparr>)"
proof -
  have st: "err \<noteq> Some AlreadyStarted" "err \<noteq> Some ListenGRPCFailed"
    using assms(4-6) by (auto simp: base_Start_def Let_def split: prod.splits option.splits)
  from assms(4) st obtain er rg1 d1 where
    reg: "Register et now2 (own_info now1 bs) (bs_registry bs) (bs_etcd bs) = (Ret er, rg1, d1)"
    and er: "err = map_option RegisterFailed er"
    and bs': "bs' = bs\<lparr>bs_listening := True, bs_registry := rg1, bs_etcd := d1,
      bs_loops := (if err = None then Suc (bs_loops bs) else bs_loops bs),
      bs_status := (if err = None then ''running'' else bs_status bs)\<rparr>"
    by (rule base_Start_registers)
  show ?thesis
  proof (cases er)
    case (Some x)
    then show ?thesis using er by simp
  next
    case None
    have "etcd_abs et view (rg1, d1) = (etcd_abs et view (bs_registry bs, bs_etcd bs))((bs_nodeType bs, bs_nodeID bs) \<mapsto>
           (own_info now1 bs)\<lparr>si_UpdateTime := unix now2\<rparr>)"
      using service_registry.register_law [OF etcd_client.registry_contract [OF assms(1)], of now2
          "own_info now1 bs" "(bs_registry bs, bs_etcd bs)" "Ret None" "(rg1, d1)"] reg None assms(2,3)
      by (simp add: etcd_register_def own_info_def)
    then show ?thesis using None er bs' by simp
  qed
qed

text \<open>Whether etcd will take a description: it can be encoded and the put is answered.\<close>

definition etcd_takes :: "('v, 'd) etcd \<Rightarrow> registry \<Rightarrow> service_info \<Rightarrow> 'd \<Rightarrow> bool" where
  "etcd_takes et rg i d \<longleftrightarrow> (\<exists>v. et_marshal et i = Some v \<and>
     fst (et_Put et (rg_ctxDone rg) (service_key rg (si_NodeType i) (si_NodeID i)) v (rg_leaseID rg) d))"

lemma Register_takes:
  assumes "\<not> rg_locked rg" and "Register et now i rg d = (r, rg', d')"
  obtains er where "r = Ret er" and "er = None \<longleftrightarrow> etcd_takes et rg (i\<lparr>si_UpdateTime := unix now\<rparr>) d"
  using assms by (auto simp: Register_def etcd_takes_def Let_def split: option.splits prod.splits if_splits)

lemma base_Start_takes:
  assumes "base_Start et now1 now2 True bs = Ret (err, bs')" and "bs_status bs = ''initializing''" and "\<not> bs_listening bs"
    and "\<not> rg_locked (bs_registry bs)"
  shows "(err = None \<longleftrightarrow> etcd_takes et (bs_registry bs) ((own_info now1 bs)\<lparr>si_UpdateTime := unix now2\<rparr>) (bs_etcd bs)) \<and>
    (err \<noteq> None \<longrightarrow> bs_status bs' = ''initializing'')"
proof -
  obtain r rg d where reg: "Register et now2 (own_info now1 bs) (bs_registry bs) (bs_etcd bs) = (r, rg, d)" by (metis prod_cases3)
  obtain er where r: "r = Ret er"
    "er = None \<longleftrightarrow> etcd_takes et (bs_registry bs) ((own_info now1 bs)\<lparr>si_UpdateTime := unix now2\<rparr>) (bs_etcd bs)"
    by (rule Register_takes [OF assms(4) reg])
  note start = assms(1) [unfolded base_Start_def Let_def own_info_def [symmetric] reg prod.case r(1)]
  show ?thesis using start r(2) assms(2,3) by (cases er) auto
qed

text \<open>
  C39. Composition of configuration, construction, start, registry and etcd: the start of a
  node that NewBaseServer constructed has three outcomes. With the RPC port taken it fails and
  changes nothing; with etcd not taking the description it fails to register and is not
  running; else the node runs and etcd holds, under its type and id and besides what was there,
  its description, online, with the RPC port 1000 above the port that the number at the end of
  its id selects in the configuration.
\<close>

theorem node_boots:
  assumes "etcd_client (bk_etcd bk) view" and "plain nodeType"
    and "NewBaseServer bk file nodeType nodeID r m n d = Ret (Inr sp)"
    and "etcd_ok (bk_etcd bk) view (bs_registry (sp_base sp), bs_etcd (sp_base sp))"
    and "base_Start (bk_etcd bk) now1 now2 port_free (sp_base sp) = Ret (e, bs)"
  shows "\<exists>cfg cp port. file = Some (cfg, cp) \<and> loaded_port cfg nodeType nodeID port \<and>
    (let i = \<lparr>si_NodeID = nodeID, si_NodeType = nodeType, si_Address = ''127.0.0.1'', si_Port = i64 (port + 1000),
              si_Load = 0, si_Status = ''online'', si_Metadata = Some [], si_UpdateTime = unix now2\<rparr>;
         takes = etcd_takes (bk_etcd bk) (bs_registry (sp_base sp)) i (bs_etcd (sp_base sp))
     in if \<not> port_free then e = Some ListenGRPCFailed \<and> bs = sp_base sp
        else if \<not> takes then (\<exists>re. e = Some (RegisterFailed re)) \<and> bs_status bs = ''initializing''
        else e = None \<and> bs_status bs = ''running'' \<and>
          etcd_abs (bk_etcd bk) view (bs_registry bs, bs_etcd bs) =
            (etcd_abs (bk_etcd bk) view (bs_registry (sp_base sp), bs_etcd (sp_base sp)))((nodeType, nodeID) \<mapsto> i))"
proof -
  from assms(3) obtain cfg cp config nm rg n1 d1 where f: "file = Some (cfg, cp)"
    and config: "loadConfig (Some cfg) nodeType nodeID = Inr config"
    and rg: "NewETCDRegistry (bk_etcd bk) d = (Inr rg, d1)"
    and base: "sp_base sp = new_base config nodeType nodeID nm
      (rg\<lparr>rg_watchers := (rg_watchers rg)(nodeType := rg_watchers rg nodeType @ [0])\<rparr>) n1 d1"
    by (rule NewBaseServer_cases)
  let ?bs = "sp_base sp"
  let ?i = "\<lparr>si_NodeID = nodeID, si_NodeType = nodeType, si_Address = ''127.0.0.1'', si_Port = i64 (sc_TCPPort config + 1000),
    si_Load = 0, si_Status = ''online'', si_Metadata = Some [], si_UpdateTime = unix now2\<rparr>"
  have new: "bs_nodeType ?bs = nodeType" "bs_nodeID ?bs = nodeID" "bs_status ?bs = ''initializing''" "\<not> bs_listening ?bs"
    "bs_config ?bs = config" "\<not> rg_locked (bs_registry ?bs)"
    using NewETCDRegistry_fresh [OF rg] by (simp_all add: base new_base_def)
  have i: "(own_info now1 ?bs)\<lparr>si_UpdateTime := unix now2\<rparr> = ?i"
    using loadConfig_port [OF config] by (simp add: own_info_def new)
  show ?thesis
  proof (intro exI conjI)
    show "file = Some (cfg, cp)" by (rule f)
    show "loaded_port cfg nodeType nodeID (sc_TCPPort config)" using loadConfig_port [OF config] by simp
    show "let i = ?i; takes = etcd_takes (bk_etcd bk) (bs_registry ?bs) i (bs_etcd ?bs)
      in if \<not> port_free then e = Some ListenGRPCFailed \<and> bs = ?bs
        else if \<not> takes then (\<exists>re. e = Some (RegisterFailed re)) \<and> bs_status bs = ''initializing''
        else e = None \<and> bs_status bs = ''running'' \<and>
          etcd_abs (bk_etcd bk) view (bs_registry bs, bs_etcd bs) =
            (etcd_abs (bk_etcd bk) view (bs_registry ?bs, bs_etcd ?bs))((nodeType, nodeID) \<mapsto> i)"
    proof (cases port_free)
      case True
      have start: "base_Start (bk_etcd bk) now1 now2 True ?bs = Ret (e, bs)" using assms(5) True by simp
      show ?thesis
        using base_Start_takes [OF start new(3,4,6), unfolded i] base_Start_abs [OF assms(1,4) _ start new(3,4), unfolded new(1,2) i]
          assms(2) True by (auto simp: Let_def)
    next
      case False
      then show ?thesis using assms(5) new(3) by (simp add: base_Start_def)
    qed
  qed
qed

text \<open>Construction never touches etcd's keys, so the new registry sees what was there.\<close>

lemma etcd_ok_watchers:
  "etcd_ok et view (rg\<lparr>rg_watchers := f\<rparr>, d) \<longleftrightarrow> etcd_ok et view (rg, d)"
  "etcd_abs et view (rg\<lparr>rg_watchers := f\<rparr>, d) = etcd_abs et view (rg, d)"
  by (simp_all add: etcd_ok_def etcd_abs_def service_key_def fun_eq_iff)

text \<open>The later steps of a constructor leave alone what the start of the node reads.\<close>

definition same_node :: "('b, 's, 'h, 'n, 'd) base_server \<Rightarrow> ('b, 's, 'h, 'n, 'd) base_server \<Rightarrow> bool" where
  "same_node bs bs' \<longleftrightarrow> bs_registry bs' = bs_registry bs \<and> bs_etcd bs' = bs_etcd bs \<and> bs_status bs' = bs_status bs \<and>
     bs_tcpServer bs' = bs_tcpServer bs \<and> bs_nodeID bs' = bs_nodeID bs \<and> bs_loopStuck bs' = bs_loopStuck bs \<and>
     bs_listening bs' = bs_listening bs"

lemma RegisterCommonServices_frame:
  assumes "RegisterCommonServices nl wrap bs = (e, bs')"
  shows "same_node bs bs'"
  using assms by (auto simp: RegisterCommonServices_def same_node_def split: prod.splits)

lemma spawn_in_frame:
  assumes "spawn_in made bs = Ret (Inr bs')"
  shows "same_node bs bs'"
proof -
  obtain a where a: "made = Ret a"
    and r: "(case SpawnActor service_ops a (bs_actorSystem bs) of
       (Some e, _) \<Rightarrow> Ret (Inl (SpawnFailed e)) | (None, sys) \<Rightarrow> Ret (Inr (bs\<lparr>bs_actorSystem := sys\<rparr>))) = Ret (Inr bs')"
    using assms unfolding spawn_in_def obind_Ret by blast
  obtain e sys where "SpawnActor service_ops a (bs_actorSystem bs) = (e, sys)" by fastforce
  then show ?thesis using r by (cases e) (auto simp: same_node_def)
qed

text \<open>The stages of \<open>NewGatewayServer\<close>, as one fact for the proofs about it.\<close>

lemma NewGatewayServer_cases:
  fixes gs :: "('b, 's, 'h, 'c, 'n, 'd) server_parts"
  assumes "NewGatewayServer bk wrap dial socks h s0 file nodeID r m n d = Ret (Inr (gs, addr))"
  obtains sp :: "('b, 's, 'h, 'c, 'n, 'd) server_parts" and tcp bs where
    "NewBaseServer bk file ''gateway'' nodeID r m n d = Ret (Inr sp)"
    and "same_node ((sp_base sp)\<lparr>bs_tcpServer := Some tcp\<rparr>) bs"
    and "find_login (bk_etcd bk) dial (sp\<lparr>sp_base := bs\<rparr>) = Ret (Inr (gs, addr))"
proof -
  obtain res :: "init_error + ('b, 's, 'h, 'c, 'n, 'd) server_parts"
    where res: "NewBaseServer bk file ''gateway'' nodeID r m n d = Ret res"
    and rest: "(case res of
       Inl e \<Rightarrow> Ret (Inl (BaseServerFailed e))
     | Inr sp \<Rightarrow>
         obind (NewTCPServer (sc_MaxConnections (bs_config (sp_base sp))) (sp_limiter sp) socks h) (\<lambda>tcpServer.
         case RegisterCommonServices (bk_nsq bk) wrap ((sp_base sp)\<lparr>bs_tcpServer := Some tcpServer\<rparr>) of
           (Some e, _) \<Rightarrow> Ret (Inl (CommonServicesFailed e))
         | (None, bs) \<Rightarrow> obind (spawn_in (NewGatewayActor s0) bs) (\<lambda>b. case b of
               Inl e \<Rightarrow> Ret (Inl e)
             | Inr bs1 \<Rightarrow> find_login (bk_etcd bk) dial (sp\<lparr>sp_base := bs1\<rparr>)))) = Ret (Inr (gs, addr))"
    using assms unfolding NewGatewayServer_def obind_Ret by blast
  obtain sp where sp: "res = Inr sp" using rest by (cases res) simp_all
  obtain tcp where rest1: "(case RegisterCommonServices (bk_nsq bk) wrap ((sp_base sp)\<lparr>bs_tcpServer := Some tcp\<rparr>) of
           (Some e, _) \<Rightarrow> Ret (Inl (CommonServicesFailed e))
         | (None, bs) \<Rightarrow> obind (spawn_in (NewGatewayActor s0) bs) (\<lambda>b. case b of
               Inl e \<Rightarrow> Ret (Inl e)
             | Inr bs1 \<Rightarrow> find_login (bk_etcd bk) dial (sp\<lparr>sp_base := bs1\<rparr>))) = Ret (Inr (gs, addr))"
    using rest unfolding sp sum.case obind_Ret by blast
  obtain e bs where c: "RegisterCommonServices (bk_nsq bk) wrap ((sp_base sp)\<lparr>bs_tcpServer := Some tcp\<rparr>) = (e, bs)" by fastforce
  have e: "e = None" using rest1 c by (cases e) simp_all
  obtain b where b: "spawn_in (NewGatewayActor s0) bs = Ret b"
    and rest2: "(case b of Inl e \<Rightarrow> Ret (Inl e) | Inr bs1 \<Rightarrow> find_login (bk_etcd bk) dial (sp\<lparr>sp_base := bs1\<rparr>)) = Ret (Inr (gs, addr))"
    using rest1 unfolding c e prod.case option.case obind_Ret by blast
  obtain bs1 where bs1: "b = Inr bs1" using rest2 by (cases b) simp_all
  have "same_node ((sp_base sp)\<lparr>bs_tcpServer := Some tcp\<rparr>) bs1"
    using RegisterCommonServices_frame [OF c] spawn_in_frame [OF b [unfolded bs1]] by (simp add: same_node_def)
  then show thesis using that [OF res [unfolded sp]] rest2 bs1 by simp
qed

text \<open>
  C37. NewGatewayServer returns a server only if etcd holds a login node at that moment: the
  address it dials is that of a registered login service, and the server then has its TCP
  server and waits for Start. Without a login node the constructor ends the process.
\<close>

theorem gateway_needs_login:
  assumes "etcd_client (bk_etcd bk) view" and "NewETCDRegistry (bk_etcd bk) d = (Inr rg, d1)" and "etcd_ok (bk_etcd bk) view (rg, d1)"
    and "NewGatewayServer bk wrap dial socks h s0 file nodeID r m n d = Ret (Inr (gs, addr))"
  shows "\<exists>i. etcd_abs (bk_etcd bk) view (rg, d1) (''login'', si_NodeID i) = Some i \<and>
    addr = si_Address i @ '':'' @ show_int (si_Port i) \<and> dial addr \<and>
    bs_status (sp_base gs) = ''initializing'' \<and> bs_tcpServer (sp_base gs) \<noteq> None"
proof -
  let ?et = "bk_etcd bk"
  obtain sp tcp bs where sp: "NewBaseServer bk file ''gateway'' nodeID r m n d = Ret (Inr sp)"
    and bs: "same_node ((sp_base sp)\<lparr>bs_tcpServer := Some tcp\<rparr>) bs"
    and l: "find_login ?et dial (sp\<lparr>sp_base := bs\<rparr>) = Ret (Inr (gs, addr))"
    by (rule NewGatewayServer_cases [OF assms(4)])
  obtain nm config n1 f where sb: "sp_base sp = new_base config ''gateway'' nodeID nm (rg\<lparr>rg_watchers := f\<rparr>) n1 d1"
    and sd: "sp_discovery sp = NewServiceDiscovery ''gateway''"
    by (rule NewBaseServer_cases [OF sp]) (use assms(2) in auto)
  have fr: "bs_registry bs = rg\<lparr>rg_watchers := f\<rparr>" "bs_etcd bs = d1" "bs_status bs = ''initializing''" "bs_tcpServer bs = Some tcp"
    using bs by (simp_all add: same_node_def sb new_base_def)
  obtain found sd' u rg' d' where g: "sd_GetService (etcd_services ?et) weighted_select ''login'' (NewServiceDiscovery ''gateway'') ()
      (rg\<lparr>rg_watchers := f\<rparr>, d1) = (found, sd', u, rg', d')" by (metis prod_cases5)
  obtain i where i: "found = Ret (Some i)" "addr = si_Address i @ '':'' @ show_int (si_Port i)" "dial addr"
    "gs = (sp\<lparr>sp_base := bs\<lparr>bs_registry := rg', bs_etcd := d'\<rparr>, sp_discovery := sd'\<rparr>)"
    using l g sd fr by (auto simp: find_login_def Let_def split: option.splits if_splits)
  have "etcd_abs ?et view (rg\<lparr>rg_watchers := f\<rparr>, d1) (''login'', si_NodeID i) = Some i"
    using service_registry.discovery_sound [OF etcd_client.registry_contract [OF assms(1)] weighted.load_balancer_axioms,
        where s = "(rg\<lparr>rg_watchers := f\<rparr>, d1)" and t = "''login''" and b = "()" and sd = "NewServiceDiscovery ''gateway''"] g i(1) assms(3)
    by (simp add: etcd_ok_watchers NewServiceDiscovery_def)
  then show ?thesis using i fr by (auto simp: etcd_ok_watchers)
qed

text \<open>
  A gateway whose TCP port is taken registers first: Start returns the error, yet the node is
  running and etcd holds it as online, and nothing takes it out again.
\<close>

theorem gateway_registered_before_listening:
  assumes "etcd_client et view" and "etcd_ok et view (bs_registry gs, bs_etcd gs)" and "plain (bs_nodeType gs)"
    and "bs_status gs = ''initializing''" and "\<not> bs_listening gs" and "bs_tcpServer gs = Some tcp"
    and "gateway_Start et now1 now2 True False gs = Ret (e, gs')"
  shows "(\<exists>re. e = Some (BaseStartFailed (RegisterFailed re))) \<or>
    e = Some (TCPStartFailed ListenFailed) \<and> bs_status gs' = ''running'' \<and> bs_tcpServer gs' = Some tcp \<and>
    (\<exists>i. etcd_abs et view (bs_registry gs', bs_etcd gs') (bs_nodeType gs, bs_nodeID gs) = Some i \<and> si_Status i = ''online'')"
proof -
  obtain err bs where b: "base_Start et now1 now2 True gs = Ret (err, bs)"
    and rest: "(case err of
       Some e \<Rightarrow> Ret (Some (BaseStartFailed e), bs)
     | None \<Rightarrow> (case bs_tcpServer bs of
         None \<Rightarrow> Panic NilDereference
       | Some tcp \<Rightarrow> (let (e, tcp1) = server_Start False tcp
                      in Ret (map_option TCPStartFailed e, bs\<lparr>bs_tcpServer := Some tcp1\<rparr>)))) = Ret (e, gs')"
    using assms(7) unfolding gateway_Start_def obind_Ret by auto
  show ?thesis
  proof (cases err)
    case (Some x)
    then show ?thesis using rest base_Start_abs [OF assms(1-3) b assms(4,5)] by auto
  next
    case None
    then show ?thesis using rest base_Start_abs [OF assms(1-3) b assms(4,5)] assms(6)
      by (auto simp: server_Start_def own_info_def)
  qed
qed

text \<open>A node on back ends in memory.\<close>

definition demo_backends :: "((string \<times> string) list, nat, mem_mongo_server, mem_nsq, service_info, (string \<times> service_info) list) backends" where
  "demo_backends = \<lparr>bk_redis = mem_exec, bk_mongo = mem_mongo_lib, bk_nsq = mem_nsq_lib, bk_etcd = mem_etcd\<rparr>"

definition demo_redis_config :: redis_config where
  "demo_redis_config = \<lparr>rc_PoolSize = 10, rc_MaxRetries = 3, rc_DialTimeout = 0, rc_ReadTimeout = 0, rc_WriteTimeout = 0,
     rc_IdleTimeout = 0, rc_Addr = ''localhost:6379'', rc_Password = '''', rc_DB = 0, rc_ClusterMode = False, rc_ClusterAddrs = [],
     rc_SentinelMode = False, rc_SentinelAddrs = [], rc_SentinelMaster = '''', rc_MaxRedirects = 0, rc_ReadOnly = False,
     rc_RouteByLatency = False, rc_RouteRandomly = False\<rparr>"

definition demo_file :: "server_config \<times> component_config" where
  "demo_file = (demo_config, \<lparr>cp_Redis = demo_redis_config, cp_MongoDB = demo_mongo_config, cp_NSQ = demo_nsq_config\<rparr>)"

definition up_mongo :: mem_mongo_server where
  "up_mongo = \<lparr>ms_clients = [], ms_next = 0, ms_down = False\<rparr>"

definition idle_nsq :: mem_nsq where
  "idle_nsq = \<lparr>mq_down = [], mq_addr = [], mq_log = []\<rparr>"

definition gateway2_config :: server_config where
  "gateway2_config = demo_config\<lparr>sc_TCPPort := 8002, sc_RPCPort := 9002, sc_HTTPPort := 10002\<rparr>"

definition gateway2_registry :: registry where
  "gateway2_registry = demo_registry\<lparr>rg_watchers := (\<lambda>t. [])(''gateway'' := [0])\<rparr>"

definition gateway2_nsq :: "unit nsq_manager" where
  "gateway2_nsq = \<lparr>nm_config = demo_nsq_config, nm_mode = ''cluster'', nm_producers = [0, 1, 2], nm_producer = Some 0,
     nm_consumers = Map.empty, nm_handlers = Map.empty, nm_currentProducer = 0, nm_cancelled = False\<rparr>"

type_synonym demo_parts = "(unit, unit, unit, nat, mem_nsq, (string \<times> service_info) list) server_parts"

lemma demo_NewBaseServer:
  obtains n1 and sp :: demo_parts where
    "NewBaseServer demo_backends (Some demo_file) ''gateway'' ''gateway2'' [] up_mongo idle_nsq d = Ret (Inr sp)"
    and "sp_base sp = new_base gateway2_config ''gateway'' ''gateway2'' gateway2_nsq gateway2_registry n1 d" and "mq_down n1 = []"
    and "sp_discovery sp = NewServiceDiscovery ''gateway''" and "sp_limiter sp = NewRateLimitManager"
proof -
  have p: "trailing_digits ''gateway2'' = ''2''" "parse_digits ''2'' = 2" by code_simp+
  have c: "loadConfig (Some demo_config) ''gateway'' ''gateway2'' = Inr gateway2_config"
    by (simp add: loadConfig_def p demo_config_def gateway2_config_def)
  obtain rm where r: "fst (NewRedisManager mem_exec demo_redis_config []) = Ret (Inr rm)"
    by (simp add: NewRedisManager_def demo_redis_config_def initSingleMode_def)
  obtain mm where m: "fst (NewMongoManager mem_mongo_lib demo_mongo_config up_mongo) = Inr mm"
    by (simp add: NewMongoManager_def mongo_options_def demo_mongo_config_def buildReplicaSetOptions_def
        parseReadPreference_def parseWriteConcern_def mem_mongo_lib_def up_mongo_def Let_def)
  obtain n1 where n: "NewNSQManager mem_nsq_lib demo_nsq_config idle_nsq = (Inr gateway2_nsq, n1)"
    by (simp add: NewNSQManager_def nsq_initClusterMode_def demo_nsq_config_def mem_nsq_lib_def idle_nsq_def mq_up_def
        gateway2_nsq_def Let_def)
  have "mq_down (snd (NewNSQManager mem_nsq_lib demo_nsq_config idle_nsq :: (mq_error + unit nsq_manager) \<times> mem_nsq)) = []"
    by (simp add: NewNSQManager_def nsq_initClusterMode_def demo_nsq_config_def mem_nsq_lib_def idle_nsq_def mq_up_def Let_def)
  then have up: "mq_down n1 = []" by (simp add: n)
  have e: "NewETCDRegistry mem_etcd d = (Inr demo_registry, d)"
    by (simp add: NewETCDRegistry_def createLease_def mem_etcd_def demo_registry_def)
  have w: "Watch ''gateway'' 0 demo_registry = Ret gateway2_registry"
    by (simp add: Watch_def demo_registry_def gateway2_registry_def fun_eq_iff)
  have "NewBaseServer demo_backends (Some demo_file) ''gateway'' ''gateway2'' [] up_mongo idle_nsq d =
     Ret (Inr (\<lparr>sp_base = new_base gateway2_config ''gateway'' ''gateway2'' gateway2_nsq gateway2_registry n1 d, sp_redis = rm, sp_mongo = mm,
               sp_discovery = NewServiceDiscovery ''gateway'', sp_limiter = NewRateLimitManager\<rparr> :: demo_parts))"
    by (simp add: NewBaseServer_def demo_file_def c initComponents_def demo_backends_def r m n e w)
  from that [OF this, of n1] up show thesis by simp
qed

text \<open>\<open>gateway2\<close> comes up on an empty etcd and is registered with its RPC port.\<close>

theorem node_boots_witness:
  "\<exists>(sp :: demo_parts) bs. NewBaseServer demo_backends (Some demo_file) ''gateway'' ''gateway2'' [] up_mongo idle_nsq [] = Ret (Inr sp) \<and>
     base_Start mem_etcd 0 0 True (sp_base sp) = Ret (None, bs) \<and>
     map_option si_Port (etcd_abs mem_etcd map_of (bs_registry bs, bs_etcd bs) (''gateway'', ''gateway2'')) = Some 9002"
proof -
  obtain n1 and sp :: demo_parts
    where n: "NewBaseServer demo_backends (Some demo_file) ''gateway'' ''gateway2'' [] up_mongo idle_nsq [] = Ret (Inr sp)"
    and sp: "sp_base sp = new_base gateway2_config ''gateway'' ''gateway2'' gateway2_nsq gateway2_registry n1 []"
    by (rule demo_NewBaseServer)
  have et: "bk_etcd demo_backends = mem_etcd" by (simp add: demo_backends_def)
  have ok: "etcd_ok (bk_etcd demo_backends) map_of (bs_registry (sp_base sp), bs_etcd (sp_base sp))"
    by (simp add: sp new_base_def etcd_ok_def gateway2_registry_def demo_registry_def)
  have ax: "etcd_client (bk_etcd demo_backends) map_of" by (simp add: et mem_etcd.etcd_client_axioms)
  obtain bs where b: "base_Start (bk_etcd demo_backends) 0 0 True (sp_base sp) = Ret (None, bs)"
    by (simp add: et sp new_base_def base_Start_def mem_etcd_def Register_def gateway2_registry_def demo_registry_def
        service_key_def Let_def)
  have p: "trailing_digits ''gateway2'' = ''2''" "parse_digits ''2'' = 2" by code_simp+
  have "loaded_port demo_config ''gateway'' ''gateway2'' q \<longleftrightarrow> q = 8002" for q
    by (auto simp: loaded_port_def p demo_config_def)
  then show ?thesis using node_boots [OF ax _ n ok b] n b by (auto simp: demo_file_def et Let_def split: if_splits)
qed

definition login1 :: service_info where
  "login1 = (demo_service ''login1'' ''online'' 0)\<lparr>si_NodeType := ''login'', si_Address := ''127.0.0.1'', si_Port := 9101\<rparr>"

definition login_etcd :: "(string \<times> service_info) list" where
  "login_etcd = [(''/lufy/services/login/login1'', login1)]"

text \<open>The gateway comes up once a login node is there, and not before.\<close>

lemma demo_gateway:
  "\<exists>gs :: demo_parts. NewGatewayServer demo_backends (\<lambda>i. ()) (\<lambda>a. True) quiet_socks [] () (Some demo_file) ''gateway2'' [] up_mongo
     idle_nsq d = find_login mem_etcd (\<lambda>a. True) gs \<and>
   sp_discovery gs = NewServiceDiscovery ''gateway'' \<and> bs_registry (sp_base gs) = gateway2_registry \<and> bs_etcd (sp_base gs) = d \<and>
   bs_status (sp_base gs) = ''initializing'' \<and> \<not> bs_listening (sp_base gs) \<and> bs_tcpServer (sp_base gs) \<noteq> None"
proof -
  obtain n1 and sp :: demo_parts
    where n: "NewBaseServer demo_backends (Some demo_file) ''gateway'' ''gateway2'' [] up_mongo idle_nsq d = Ret (Inr sp)"
    and sp: "sp_base sp = new_base gateway2_config ''gateway'' ''gateway2'' gateway2_nsq gateway2_registry n1 d" and up: "mq_down n1 = []"
    and sd: "sp_discovery sp = NewServiceDiscovery ''gateway''"
    by (rule demo_NewBaseServer)
  obtain tcp where t: "NewTCPServer (sc_MaxConnections (bs_config (sp_base sp))) (sp_limiter sp) quiet_socks [] = Ret tcp"
    by (simp add: sp new_base_def gateway2_config_def demo_config_def NewTCPServer_def NewConnectionPool_def NewGenericPool_def)
  let ?bs = "(sp_base sp)\<lparr>bs_tcpServer := Some tcp\<rparr>"
  obtain e nm n2 where sub: "SubscribeSystemMessages mem_nsq_lib ''gateway2'' () gateway2_nsq n1 = (e, nm, n2)" by (metis prod_cases3)
  then have "e = None" using up
    by (auto simp: SubscribeSystemMessages_def Subscribe_def gateway2_nsq_def demo_nsq_config_def mem_nsq_lib_def Let_def)
  then have c: "RegisterCommonServices mem_nsq_lib (\<lambda>i. ()) ?bs = (None, ?bs\<lparr>bs_nsqManager := nm, bs_nsq := n2\<rparr>)"
    using sub by (simp add: RegisterCommonServices_def sp new_base_def)
  let ?bs1 = "?bs\<lparr>bs_nsqManager := nm, bs_nsq := n2\<rparr>"
  obtain a where a: "NewGatewayActor () = Ret a" by (simp add: NewGatewayActor_def NewBaseActor_def)
  obtain sys where s: "SpawnActor service_ops a (bs_actorSystem ?bs1) = (None, sys)"
    by (simp add: SpawnActor_def GetActor_def sp new_base_def NewActorSystem_def service_ops_def)
  have spawn: "spawn_in (NewGatewayActor ()) ?bs1 = Ret (Inr (?bs1\<lparr>bs_actorSystem := sys\<rparr>))"
    using s by (simp add: spawn_in_def a)
  let ?gs = "sp\<lparr>sp_base := ?bs1\<lparr>bs_actorSystem := sys\<rparr>\<rparr>"
  have bk: "bk_nsq demo_backends = mem_nsq_lib" "bk_etcd demo_backends = mem_etcd" by (simp_all add: demo_backends_def)
  have "NewGatewayServer demo_backends (\<lambda>i. ()) (\<lambda>a. True) quiet_socks [] () (Some demo_file) ''gateway2'' [] up_mongo idle_nsq d =
      find_login mem_etcd (\<lambda>a. True) ?gs"
    by (simp only: NewGatewayServer_def n obind.simps sum.case t bk c prod.case option.case spawn)
  then show ?thesis using sd by (intro exI [of _ ?gs]) (simp add: sp new_base_def)
qed

lemma demo_find_login:
  assumes "sp_discovery gs = NewServiceDiscovery ''gateway''" and "bs_registry (sp_base gs) = gateway2_registry"
  shows "bs_etcd (sp_base gs) = login_etcd \<Longrightarrow> \<exists>gs'. find_login mem_etcd (\<lambda>a. True) gs = Ret (Inr (gs', ''127.0.0.1:9101'')) \<and>
      same_node (sp_base gs) (sp_base gs')"
    and "bs_etcd (sp_base gs) = [] \<Longrightarrow> find_login mem_etcd (\<lambda>a. True) gs = Ret (Inl LoginNotFound)"
proof -
  have g: "GetServices mem_etcd ''login'' gateway2_registry d = (Some (if d = login_etcd then [login1] else []), d)"
    if "d = login_etcd \<or> d = []" for d
    using that by (auto simp: GetServices_def gateway2_registry_def demo_registry_def service_key_def mem_etcd_def has_prefix_def
        decode_all_def login_etcd_def List.map_filter_simps)
  have p: "show_int 9101 = ''9101''" by (simp add: show_int_def show_nat.simps digit_def char_of_eq_iff)
  show "bs_etcd (sp_base gs) = login_etcd \<Longrightarrow> \<exists>gs'. find_login mem_etcd (\<lambda>a. True) gs = Ret (Inr (gs', ''127.0.0.1:9101'')) \<and>
      same_node (sp_base gs) (sp_base gs')"
    using g by (simp add: find_login_def sd_GetService_def etcd_services_def assms NewServiceDiscovery_def weighted_select_def
        weighted_Select_def login1_def demo_service_def max_int_def same_node_def p Let_def)
  show "bs_etcd (sp_base gs) = [] \<Longrightarrow> find_login mem_etcd (\<lambda>a. True) gs = Ret (Inl LoginNotFound)"
    using g by (simp add: find_login_def sd_GetService_def etcd_services_def assms NewServiceDiscovery_def weighted_select_def
        weighted_Select_def login_etcd_def)
qed

lemma demo_gateway_up:
  "\<exists>gs :: demo_parts. NewGatewayServer demo_backends (\<lambda>i. ()) (\<lambda>a. True) quiet_socks [] () (Some demo_file) ''gateway2'' [] up_mongo
     idle_nsq login_etcd = Ret (Inr (gs, ''127.0.0.1:9101'')) \<and> bs_status (sp_base gs) = ''initializing'' \<and>
   \<not> bs_listening (sp_base gs) \<and> bs_tcpServer (sp_base gs) \<noteq> None \<and> bs_registry (sp_base gs) = gateway2_registry"
proof -
  obtain gs :: demo_parts where g: "NewGatewayServer demo_backends (\<lambda>i. ()) (\<lambda>a. True) quiet_socks [] () (Some demo_file) ''gateway2'' []
     up_mongo idle_nsq login_etcd = find_login mem_etcd (\<lambda>a. True) gs"
    and gs: "sp_discovery gs = NewServiceDiscovery ''gateway''" "bs_registry (sp_base gs) = gateway2_registry"
      "bs_etcd (sp_base gs) = login_etcd" "bs_status (sp_base gs) = ''initializing''" "\<not> bs_listening (sp_base gs)"
      "bs_tcpServer (sp_base gs) \<noteq> None"
    using demo_gateway [of login_etcd] by metis
  obtain gs' where "find_login mem_etcd (\<lambda>a. True) gs = Ret (Inr (gs', ''127.0.0.1:9101''))" "same_node (sp_base gs) (sp_base gs')"
    using demo_find_login(1) [OF gs(1-3)] by blast
  then show ?thesis using g gs by (intro exI [of _ gs']) (simp add: same_node_def)
qed

theorem gateway_needs_login_witness:
  "\<exists>gs :: demo_parts. NewGatewayServer demo_backends (\<lambda>i. ()) (\<lambda>a. True) quiet_socks [] () (Some demo_file) ''gateway2'' [] up_mongo
     idle_nsq login_etcd = Ret (Inr (gs, ''127.0.0.1:9101'')) \<and> bs_status (sp_base gs) = ''initializing'' \<and>
     (\<exists>i. etcd_abs mem_etcd map_of (demo_registry, login_etcd) (''login'', i) \<noteq> None)"
proof -
  have et: "bk_etcd demo_backends = mem_etcd" by (simp add: demo_backends_def)
  obtain gs :: demo_parts where g: "NewGatewayServer demo_backends (\<lambda>i. ()) (\<lambda>a. True) quiet_socks [] () (Some demo_file) ''gateway2'' []
     up_mongo idle_nsq login_etcd = Ret (Inr (gs, ''127.0.0.1:9101''))"
    using demo_gateway_up by blast
  have ax: "etcd_client (bk_etcd demo_backends) map_of" by (simp add: et mem_etcd.etcd_client_axioms)
  have rg: "NewETCDRegistry (bk_etcd demo_backends) login_etcd = (Inr demo_registry, login_etcd)"
    by (simp add: et NewETCDRegistry_def createLease_def mem_etcd_def demo_registry_def)
  have ok: "etcd_ok (bk_etcd demo_backends) map_of (demo_registry, login_etcd)"
    by (auto simp: et etcd_ok_def demo_registry_def login_etcd_def login1_def demo_service_def mem_etcd_def service_key_def
        split: if_splits)
  show ?thesis using gateway_needs_login [OF ax rg ok g] g by (auto simp: et)
qed

text \<open>The RPC port is free and the TCP port is taken.\<close>

theorem gateway_registered_before_listening_witness:
  "\<exists>tcp gs'. NewTCPServer 10 (NewRateLimitManager :: unit limit_manager) quiet_socks [] = Ret tcp \<and>
     gateway_Start mem_etcd 0 0 True False (demo_base\<lparr>bs_tcpServer := Some tcp\<rparr>) = Ret (Some (TCPStartFailed ListenFailed), gs') \<and>
     etcd_abs mem_etcd map_of (bs_registry gs', bs_etcd gs') (''gateway'', ''gateway1'') \<noteq> None"
proof -
  obtain tcp where t: "NewTCPServer 10 (NewRateLimitManager :: unit limit_manager) quiet_socks [] = Ret tcp"
    by (simp add: NewTCPServer_def NewConnectionPool_def NewGenericPool_def)
  let ?gs = "demo_base\<lparr>bs_tcpServer := Some tcp\<rparr>"
  have g: "bs_registry ?gs = demo_registry" "bs_etcd ?gs = []" "bs_nodeType ?gs = ''gateway''" "bs_nodeID ?gs = ''gateway1''"
    "bs_status ?gs = ''initializing''" "\<not> bs_listening ?gs" "bs_tcpServer ?gs = Some tcp"
    by (simp_all add: demo_base_def)
  obtain gs' where s: "gateway_Start mem_etcd 0 0 True False ?gs = Ret (Some (TCPStartFailed ListenFailed), gs')"
    by (simp add: gateway_Start_def base_Start_def demo_base_def mem_etcd_def Register_def demo_registry_def
        service_key_def server_Start_def Let_def)
  have ok: "etcd_ok mem_etcd map_of (bs_registry ?gs, bs_etcd ?gs)" using demo_registry_ok by (simp add: g)
  have p: "plain (bs_nodeType ?gs)" by (simp add: g)
  from gateway_registered_before_listening [OF mem_etcd.etcd_client_axioms ok p g(5-7) s]
  show ?thesis using t s g(3,4) by auto
qed

end
