(* ===== verification/Process.thy ===== *)
theory Process
  imports Startup
begin

text \<open>
  The process of a node, \<open>cmd/main.go\<close>: the flags, \<open>NewServer\<close> with its choice by node type
  (\<open>internal/server/server.go\<close>), \<open>Start\<close>, the time up to the signal, and \<open>Stop\<close>. How the
  process ends is the value of \<open>main_run\<close>. What happens between start and signal is a list of
  events: ticks of the load update and whatever else the node serves.
\<close>

section \<open>The server of a node\<close>

datatype ('b, 's, 'h, 'c, 'n, 'd) node = LoginNode "('b, 's, 'h, 'c, 'n, 'd) server_parts"
  | GatewayNode "('b, 's, 'h, 'c, 'n, 'd) server_parts" string
  | CenterNode "('b, 's, 'h, 'c, 'n, 'd) server_parts"
  | LobbyNode "('b, 's, 'h, 'c, 'n, 'd) server_parts" u64

fun node_base :: "('b, 's, 'h, 'c, 'n, 'd) node \<Rightarrow> ('b, 's, 'h, 'n, 'd) base_server" where
  "node_base (LoginNode sp) = sp_base sp"
| "node_base (GatewayNode sp _) = sp_base sp"
| "node_base (CenterNode sp) = sp_base sp"
| "node_base (LobbyNode sp _) = sp_base sp"

text \<open>
  What the operating system answers: is each port free, can the gateway dial, its sockets; and, when
  the signal comes, whether the accept loop stands in \<open>Accept\<close>.
\<close>

record host =
  ho_rpc_free :: bool
  ho_tcp_free :: bool
  ho_dial :: "string \<Rightarrow> bool"
  ho_socks :: sockets
  ho_heap :: conn_heap
  ho_accepting :: "accepted option"

definition NewServer ::
  "('r, 'c, 'm, 'n, 'v, 'd) backends \<Rightarrow> (string \<Rightarrow> 'h) \<Rightarrow> host \<Rightarrow> 's \<Rightarrow> (server_config \<times> component_config) option \<Rightarrow>
   string \<Rightarrow> string \<Rightarrow> 'r \<Rightarrow> 'm \<Rightarrow> 'n \<Rightarrow> 'd \<Rightarrow> (fatal + ('b, 's, 'h, 'c, 'n, 'd) node) outcome" where
  "NewServer bk wrap ho s0 file nodeType nodeID r m n d =
     (if nodeType = ''login'' then
        obind (NewLoginServer bk wrap s0 file nodeID r m n d) (\<lambda>x. Ret (map_sum id LoginNode x))
      else if nodeType = ''gateway'' then
        obind (NewGatewayServer bk wrap (ho_dial ho) (ho_socks ho) (ho_heap ho) s0 file nodeID r m n d)
          (\<lambda>x. Ret (map_sum id (\<lambda>(sp, addr). GatewayNode sp addr) x))
      else if nodeType = ''center'' then
        obind (NewCenterServer bk wrap file nodeID r m n d) (\<lambda>x. Ret (map_sum id CenterNode x))
      else if nodeType = ''lobby'' then
        obind (boot_LobbyServer bk wrap file nodeID r m n d) (\<lambda>x. Ret (map_sum id (\<lambda>(sp, i). LobbyNode sp i) x))
      else Ret (Inl UnknownNodeType))"

text \<open>The \<open>Start\<close> and \<open>Stop\<close> that the interface \<open>Server\<close> selects.\<close>

definition node_Start ::
  "('v, 'd) etcd \<Rightarrow> time \<Rightarrow> time \<Rightarrow> host \<Rightarrow> ('b, 's, 'h, 'c, 'n, 'd) node \<Rightarrow>
   (gateway_start_error option \<times> ('b, 's, 'h, 'n, 'd) base_server) outcome" where
  "node_Start et now1 now2 ho nd =
     (case nd of
        GatewayNode sp _ \<Rightarrow> gateway_Start et now1 now2 (ho_rpc_free ho) (ho_tcp_free ho) (sp_base sp)
      | _ \<Rightarrow> obind (base_Start et now1 now2 (ho_rpc_free ho) (node_base nd))
               (\<lambda>(err, bs). Ret (map_option BaseStartFailed err, bs)))"

definition node_Stop ::
  "'n nsq \<Rightarrow> ('v, 'd) etcd \<Rightarrow> (string \<Rightarrow> 's actor_ops) \<Rightarrow> string list \<Rightarrow> accepted option \<Rightarrow>
   ('b, 's, 'h, 'c, 'n, 'd) node \<Rightarrow> ('b, 's, 'h, 'n, 'd) base_server \<Rightarrow> ('b, 's, 'h, 'n, 'd) base_server outcome" where
  "node_Stop nl et ops keys in_accept nd bs =
     (case nd of GatewayNode _ _ \<Rightarrow> gateway_Stop nl et ops keys in_accept bs | _ \<Rightarrow> base_Stop nl et ops keys in_accept bs)"

section \<open>From the flags to the end of the process\<close>

record flags =
  fl_config :: string
  fl_node :: string
  fl_id :: string

text \<open>\<open>Hung\<close>: the main goroutine waits for ever, and only a kill ends the process.\<close>

datatype 'a process = Usage | Died fatal | DiedStarting gateway_start_error 'a | Crashed panic | Hung | Exited 'a

fun and_then :: "'x outcome \<Rightarrow> ('x \<Rightarrow> 'a process) \<Rightarrow> 'a process" where
  "and_then (Ret x) f = f x"
| "and_then (Panic e) f = Crashed e"
| "and_then Blocked f = Hung"

datatype ('b, 's, 'h, 'n, 'd) event = Tick "nat \<Rightarrow> time"
  | Serve "('b, 's, 'h, 'n, 'd) base_server \<Rightarrow> ('b, 's, 'h, 'n, 'd) base_server"

fun run_event :: "('v, 'd) etcd \<Rightarrow> ('b, 's, 'h, 'n, 'd) event \<Rightarrow> ('b, 's, 'h, 'n, 'd) base_server \<Rightarrow>
   ('b, 's, 'h, 'n, 'd) base_server" where
  "run_event et (Tick now) bs = loadUpdate_tick et now bs"
| "run_event et (Serve f) bs = f bs"

text \<open>\<open>files\<close> is the parsed configuration under a path, if it can be read.\<close>

definition main_run ::
  "('r, 'c, 'm, 'n, 'v, 'd) backends \<Rightarrow> (string \<Rightarrow> 'h) \<Rightarrow> host \<Rightarrow> 's \<Rightarrow> (string \<Rightarrow> 's actor_ops) \<Rightarrow> string list \<Rightarrow>
   (string \<rightharpoonup> server_config \<times> component_config) \<Rightarrow> flags \<Rightarrow> time \<Rightarrow> time \<Rightarrow> ('b, 's, 'h, 'n, 'd) event list \<Rightarrow>
   'r \<Rightarrow> 'm \<Rightarrow> 'n \<Rightarrow> 'd \<Rightarrow> ('b, 's, 'h, 'n, 'd) base_server process" where
  "main_run bk wrap ho s0 ops keys files fl now1 now2 evs r m n d =
     (if fl_config fl = [] \<or> fl_node fl = [] \<or> fl_id fl = [] then Usage
      else and_then (NewServer bk wrap ho s0 (files (fl_config fl)) (fl_node fl) (fl_id fl) r m n d) (\<lambda>res. case res of
        Inl e \<Rightarrow> Died e
      | Inr srv \<Rightarrow> and_then (node_Start (bk_etcd bk) now1 now2 ho srv) (\<lambda>(err, bs). case err of
          Some e \<Rightarrow> DiedStarting e bs
        | None \<Rightarrow> and_then (node_Stop (bk_nsq bk) (bk_etcd bk) ops keys (ho_accepting ho) srv (fold (run_event (bk_etcd bk)) evs bs)) Exited)))"

section \<open>Properties\<close>

text \<open>What every constructor leaves for the start: a free registry and no load update yet.\<close>

definition fresh_node :: "('b, 's, 'h, 'n, 'd) base_server \<Rightarrow> bool" where
  "fresh_node bs \<longleftrightarrow> \<not> rg_locked (bs_registry bs) \<and> \<not> bs_loopStuck bs"

lemma NewBaseServer_fresh:
  assumes "NewBaseServer bk file t i r m n d = Ret (Inr sp)"
  shows "fresh_node (sp_base sp)"
  by (rule NewBaseServer_cases [OF assms]) (auto simp: fresh_node_def new_base_def dest: NewETCDRegistry_fresh)

lemma same_node_fresh: "same_node bs bs' \<Longrightarrow> fresh_node bs \<Longrightarrow> fresh_node bs'"
  by (simp add: same_node_def fresh_node_def)

lemma common_server_fresh:
  fixes sp :: "('b, 's, 'h, 'c, 'n, 'd) server_parts"
  assumes "common_server bk wrap file t i r m n d = Ret (Inr sp)"
  shows "fresh_node (sp_base sp)"
proof -
  obtain res :: "init_error + ('b, 's, 'h, 'c, 'n, 'd) server_parts" where res: "NewBaseServer bk file t i r m n d = Ret res"
    and rest: "(case res of Inl e \<Rightarrow> Ret (Inl (BaseServerFailed e))
     | Inr sp0 \<Rightarrow> (case RegisterCommonServices (bk_nsq bk) wrap (sp_base sp0) of
         (Some e, _) \<Rightarrow> Ret (Inl (CommonServicesFailed e)) | (None, bs) \<Rightarrow> Ret (Inr (sp0\<lparr>sp_base := bs\<rparr>)))) = Ret (Inr sp)"
    using assms unfolding common_server_def obind_Ret by blast
  obtain sp0 where sp0: "res = Inr sp0" using rest by (cases res) simp_all
  obtain e bs where c: "RegisterCommonServices (bk_nsq bk) wrap (sp_base sp0) = (e, bs)" by fastforce
  then have "sp = sp0\<lparr>sp_base := bs\<rparr>" using rest sp0 by (cases e) auto
  then show ?thesis
    using same_node_fresh [OF RegisterCommonServices_frame [OF c]] NewBaseServer_fresh res sp0 by fastforce
qed

lemma NewLoginServer_fresh:
  fixes sp :: "('b, 's, 'h, 'c, 'n, 'd) server_parts"
  assumes "NewLoginServer bk wrap s0 file i r m n d = Ret (Inr sp)"
  shows "fresh_node (sp_base sp)"
proof -
  obtain res :: "fatal + ('b, 's, 'h, 'c, 'n, 'd) server_parts" where res: "common_server bk wrap file ''login'' i r m n d = Ret res"
    and rest: "(case res of Inl e \<Rightarrow> Ret (Inl e)
     | Inr sp0 \<Rightarrow> obind (spawn_in (NewLoginActor s0) (sp_base sp0)) (\<lambda>b. Ret (map_sum id (\<lambda>bs. sp0\<lparr>sp_base := bs\<rparr>) b))) = Ret (Inr sp)"
    using assms unfolding NewLoginServer_def obind_Ret by blast
  obtain sp0 where sp0: "res = Inr sp0" using rest by (cases res) simp_all
  obtain b where b: "spawn_in (NewLoginActor s0) (sp_base sp0) = Ret b" "map_sum id (\<lambda>bs. sp0\<lparr>sp_base := bs\<rparr>) b = Inr sp"
    using rest unfolding sp0 sum.case obind_Ret by auto
  then obtain bs where bs: "b = Inr bs" "sp = sp0\<lparr>sp_base := bs\<rparr>" by (cases b) auto
  show ?thesis
    using same_node_fresh [OF spawn_in_frame [OF b(1) [unfolded bs(1)]]] common_server_fresh res sp0 bs(2) by fastforce
qed

lemma find_login_fresh:
  assumes "find_login et dial sp = Ret (Inr (sp', addr))" and "fresh_node (sp_base sp)"
  shows "fresh_node (sp_base sp')"
proof -
  obtain found sd' u rg' d' where g: "sd_GetService (etcd_services et) weighted_select ''login'' (sp_discovery sp) ()
      (bs_registry (sp_base sp), bs_etcd (sp_base sp)) = (found, sd', u, rg', d')" by (metis prod_cases5)
  have "rg' = bs_registry (sp_base sp)"
    using g by (auto simp: sd_GetService_def etcd_services_def Let_def split: option.splits list.splits prod.splits)
  then show ?thesis
    using assms g by (auto simp: find_login_def Let_def fresh_node_def split: option.splits if_splits)
qed

lemma NewGatewayServer_fresh:
  assumes "NewGatewayServer bk wrap dial socks h s0 file i r m n d = Ret (Inr (gs, addr))"
  shows "fresh_node (sp_base gs)"
proof (rule NewGatewayServer_cases [OF assms])
  fix sp tcp bs
  assume "NewBaseServer bk file ''gateway'' i r m n d = Ret (Inr sp)"
    and b: "same_node ((sp_base sp)\<lparr>bs_tcpServer := Some tcp\<rparr>) bs"
    and l: "find_login (bk_etcd bk) dial (sp\<lparr>sp_base := bs\<rparr>) = Ret (Inr (gs, addr))"
  then have "fresh_node bs" using same_node_fresh [OF b] NewBaseServer_fresh by (fastforce simp: fresh_node_def)
  then show ?thesis using find_login_fresh [OF l] by simp
qed

lemma NewServer_fresh:
  assumes "NewServer bk wrap ho s0 file t i r m n d = Ret (Inr nd)"
  shows "fresh_node (node_base nd)"
proof -
  have sum: "map_sum id f x = Inr y \<longleftrightarrow> (\<exists>z. x = Inr z \<and> y = f z)" for f :: "'x \<Rightarrow> 'y" and x :: "fatal + 'x" and y
    by (cases x) auto
  show ?thesis
    using assms by (auto simp: NewServer_def NewCenterServer_def boot_LobbyServer_def sum split: if_splits
        dest: common_server_fresh NewLoginServer_fresh NewGatewayServer_fresh)
qed

text \<open>
  Between start and signal the node serves anything that leaves its registry and its own life
  cycle alone: RPCs, connections, actors, messages.
\<close>

definition leaves_registry :: "(('b, 's, 'h, 'n, 'd) base_server \<Rightarrow> ('b, 's, 'h, 'n, 'd) base_server) \<Rightarrow> bool" where
  "leaves_registry f \<longleftrightarrow> (\<forall>bs. bs_registry (f bs) = bs_registry bs \<and> bs_nodeID (f bs) = bs_nodeID bs \<and>
     bs_status (f bs) = bs_status bs \<and> bs_loops (f bs) = bs_loops bs \<and> bs_loopStuck (f bs) = bs_loopStuck bs)"

definition up_node :: "('b, 's, 'h, 'n, 'd) base_server \<Rightarrow> bool" where
  "up_node bs \<longleftrightarrow> \<not> rg_locked (bs_registry bs) \<and> \<not> bs_loopStuck bs \<and> rg_services (bs_registry bs) (bs_nodeID bs) \<noteq> None \<and>
     bs_loops bs > 0 \<and> bs_status bs = ''running''"

definition stuck_node :: "('b, 's, 'h, 'n, 'd) base_server \<Rightarrow> bool" where
  "stuck_node bs \<longleftrightarrow> rg_locked (bs_registry bs) \<and> bs_loopStuck bs \<and> bs_loops bs > 0 \<and> bs_status bs = ''running''"

lemma base_Start_up:
  assumes "base_Start et now1 now2 free bs = Ret (None, bs1)" and "fresh_node bs"
  shows "up_node bs1"
proof -
  obtain err rg d where reg: "Register et now2 (own_info now1 bs) (bs_registry bs) (bs_etcd bs) = (Ret None, rg, d)"
    and bs1: "bs1 = bs\<lparr>bs_listening := True, bs_registry := rg, bs_etcd := d,
      bs_loops := Suc (bs_loops bs), bs_status := ''running''\<rparr>"
    by (rule base_Start_registers [OF assms(1)]) simp_all
  then show ?thesis
    using Register_local [OF reg] Register_lock [OF reg] assms(2) by (simp add: up_node_def fresh_node_def own_info_def)
qed

lemma node_Start_up:
  assumes "node_Start et now1 now2 ho nd = Ret (None, bs1)" and "fresh_node (node_base nd)"
  shows "up_node bs1"
proof (cases nd)
  case (GatewayNode sp addr)
  obtain err bs where b: "base_Start et now1 now2 (ho_rpc_free ho) (sp_base sp) = Ret (err, bs)"
    and rest: "(case err of
       Some e \<Rightarrow> Ret (Some (BaseStartFailed e), bs)
     | None \<Rightarrow> (case bs_tcpServer bs of
         None \<Rightarrow> Panic NilDereference
       | Some tcp \<Rightarrow> (let (e, tcp1) = server_Start (ho_tcp_free ho) tcp
                      in Ret (map_option TCPStartFailed e, bs\<lparr>bs_tcpServer := Some tcp1\<rparr>)))) = Ret (None, bs1)"
    using assms(1) unfolding node_Start_def gateway_Start_def GatewayNode node.case obind_Ret by auto
  have "err = None" using rest by (cases err) simp_all
  then have "up_node bs" and "\<exists>t. bs1 = bs\<lparr>bs_tcpServer := t\<rparr>"
    using base_Start_up [of et now1 now2 _ "sp_base sp" bs] b assms(2) rest
    by (auto simp: GatewayNode Let_def split: option.splits prod.splits)
  then show ?thesis by (auto simp: up_node_def)
qed (use assms base_Start_up in \<open>fastforce simp: node_Start_def\<close>)+

lemma tick_sticks:
  assumes "up_node bs \<or> stuck_node bs"
  shows "stuck_node (loadUpdate_tick et now bs)"
  using assms by (auto simp: loadUpdate_tick_def up_node_def stuck_node_def UpdateLoad_def Register_def Let_def)

lemma serve_keeps:
  assumes "leaves_registry f"
  shows "up_node (f bs) = up_node bs" and "stuck_node (f bs) = stuck_node bs"
  using assms by (simp_all add: leaves_registry_def up_node_def stuck_node_def)

lemma events_keep_stuck:
  assumes "stuck_node bs" and "\<And>f. Serve f \<in> set evs \<Longrightarrow> leaves_registry f"
  shows "stuck_node (fold (run_event et) evs bs)"
  using assms
proof (induction evs arbitrary: bs)
  case (Cons ev evs)
  then show ?case by (cases ev) (simp_all add: tick_sticks serve_keeps)
qed simp

lemma events_stick:
  assumes "up_node bs" and "Tick now \<in> set evs" and "\<And>f. Serve f \<in> set evs \<Longrightarrow> leaves_registry f"
  shows "stuck_node (fold (run_event et) evs bs)"
  using assms
proof (induction evs arbitrary: bs)
  case (Cons ev evs)
  then show ?case by (cases ev) (simp_all add: tick_sticks serve_keeps events_keep_stuck)
qed simp

lemma stuck_Stop:
  assumes "stuck_node bs"
  shows "node_Stop nl et ops keys in_accept nd bs = Blocked \<or> (\<exists>p. node_Stop nl et ops keys in_accept nd bs = Panic p)"
proof -
  have "Unregister et i (bs_registry bs) d = (Blocked, bs_registry bs, d)" for i d
    using assms by (simp add: Unregister_def stuck_node_def)
  then have "node_Stop nl et ops keys in_accept nd bs \<noteq> Ret bs'" for bs'
    using assms by (auto simp: node_Stop_def gateway_Stop_def base_Stop_def stuck_node_def Let_def split: node.splits)
  then show ?thesis using outcome.exhaust by metis
qed

text \<open>
  C25. A process whose node came up and saw one load update (30 seconds) before the signal
  never ends by itself: whatever else it served without touching the registry, before or after
  the tick, main is hung in Stop or crashes there. This is about the whole of main: flags,
  NewServer for each of the four types, Start, any interleaving of ticks and other work, Stop.
\<close>

theorem main_needs_kill:
  fixes nd :: "('b, 's, 'h, 'c, 'n, 'd) node" and evs :: "('b, 's, 'h, 'n, 'd) event list"
  assumes "fl_config fl \<noteq> []" and "fl_node fl \<noteq> []" and "fl_id fl \<noteq> []"
    and "NewServer bk wrap ho s0 (files (fl_config fl)) (fl_node fl) (fl_id fl) r m n d = Ret (Inr nd)"
    and "node_Start (bk_etcd bk) now1 now2 ho nd = Ret (None, bs1)"
    and "Tick now \<in> set evs" and "\<And>f. Serve f \<in> set evs \<Longrightarrow> leaves_registry f"
  shows "main_run bk wrap ho s0 ops keys files fl now1 now2 evs r m n d = Hung \<or>
    (\<exists>p. main_run bk wrap ho s0 ops keys files fl now1 now2 evs r m n d = Crashed p)"
proof -
  let ?bs = "fold (run_event (bk_etcd bk)) evs bs1"
  have "stuck_node ?bs"
    by (rule events_stick [OF node_Start_up [OF assms(5) NewServer_fresh [OF assms(4)]] assms(6,7)])
  then have "node_Stop (bk_nsq bk) (bk_etcd bk) ops keys (ho_accepting ho) nd ?bs = Blocked \<or>
      (\<exists>p. node_Stop (bk_nsq bk) (bk_etcd bk) ops keys (ho_accepting ho) nd ?bs = Panic p)"
    by (rule stuck_Stop)
  then show ?thesis by (auto simp: main_run_def assms(1-5))
qed

lemma registry_Close_view:
  assumes "etcd_client et view" and "registry_Close et rg d = (ok, rg', d')"
  shows "rg' = rg\<lparr>rg_ctxDone := True\<rparr> \<and> view d' = view d"
proof -
  have "view (snd (et_Revoke et True l d)) = view d" for l
    using etcd_client.revoke_law [OF assms(1)] by (metis prod.collapse)
  then show ?thesis
    using assms(2) etcd_client.close_law [OF assms(1)] by (auto simp: registry_Close_def Let_def split: prod.splits if_splits) (metis snd_conv)+
qed

text \<open>Unregistering a cached service that no goroutine blocks: what the delete answers decides.\<close>

lemma Unregister_cached:
  assumes "etcd_client et view" and "etcd_ok et view (rg, d)" and "\<not> rg_locked rg" and "rg_services rg n = Some i"
    and "Unregister et n rg d = (r, rg', d')"
  shows "(if fst (et_Delete et (rg_ctxDone rg) (service_key rg (si_NodeType i) n) d)
    then r = Ret None \<and> etcd_abs et view (rg', d') = (etcd_abs et view (rg, d))((si_NodeType i, n) := None)
    else r = Ret (Some EtcdFailed) \<and> etcd_abs et view (rg', d') \<in>
      {etcd_abs et view (rg, d), (etcd_abs et view (rg, d))((si_NodeType i, n) := None)})"
proof -
  obtain ok d1 where del: "et_Delete et (rg_ctxDone rg) (service_key rg (si_NodeType i) n) d = (ok, d1)" by fastforce
  have r: "r = Ret (if ok then None else Some EtcdFailed)" using assms(3-5) del by (auto simp: Unregister_def)
  obtain f where f: "rg' = rg\<lparr>rg_services := f\<rparr>"
    and v: "view d' = view d \<and> r \<noteq> Ret None \<or> view d' = (view d)(service_key rg (si_NodeType i) n := None)"
    using etcd_client.Unregister_view [OF assms(1,5)] assms(4) by auto
  have "plain (si_NodeType i)" using etcd_ok_local [OF assms(2)] assms(4) by simp
  note gone = etcd_abs_delete [OF this, where rg = rg and f = f and view = view and et = et and d = d and d' = d' and n = n]
  from v show ?thesis using gone etcd_abs_same [where rg = rg and f = f and view = view and et = et and d = d and d' = d']
    by (auto simp: del r f)
qed


text \<open>
  \<open>gateway1\<close> stopped right after its start: without a TCP server etcd is empty again; with one whose
  loop waits for connections the process dies.
\<close>

definition quiet_tcp :: "unit tcp_server" where
  "quiet_tcp = (case started 2 NewRateLimitManager quiet_socks of Ret sv \<Rightarrow> sv)"

lemma quiet_tcp_inv: "server_inv quiet_tcp" "ts_running quiet_tcp"
proof -
  have s: "started 2 NewRateLimitManager quiet_socks = Ret quiet_tcp"
    by (simp add: quiet_tcp_def started_def NewTCPServer_def NewConnectionPool_def NewGenericPool_def)
  show "server_inv quiet_tcp" using started_inv [OF s server_run.run_start] by blast
  show "ts_running quiet_tcp"
    by (simp add: quiet_tcp_def started_def NewTCPServer_def NewConnectionPool_def NewGenericPool_def server_Start_def)
qed


text \<open>\<open>gateway2\<close>, started by its flags next to a login node, after half a minute.\<close>

definition demo_host :: host where
  "demo_host = \<lparr>ho_rpc_free = True, ho_tcp_free = True, ho_dial = (\<lambda>a. True), ho_socks = quiet_socks, ho_heap = [],
     ho_accepting = Some AcceptFailed\<rparr>"

definition demo_flags :: flags where
  "demo_flags = \<lparr>fl_config = ''config/config.yaml'', fl_node = ''gateway'', fl_id = ''gateway2''\<rparr>"

theorem main_needs_kill_witness:
  "(let run = main_run demo_backends (\<lambda>i. ()) demo_host () (\<lambda>_. service_ops) [] (\<lambda>p. Some demo_file) demo_flags 0 0
      [Serve id, Tick (\<lambda>_. 30 * second) :: (unit, unit, unit, mem_nsq, (string \<times> service_info) list) event]
      [] up_mongo idle_nsq login_etcd
    in run = Hung \<or> (\<exists>p. run = Crashed p))"
proof -
  obtain gs :: demo_parts where g: "NewGatewayServer demo_backends (\<lambda>i. ()) (\<lambda>a. True) quiet_socks [] () (Some demo_file) ''gateway2'' []
     up_mongo idle_nsq login_etcd = Ret (Inr (gs, ''127.0.0.1:9101''))"
    and gs: "bs_status (sp_base gs) = ''initializing''" "\<not> bs_listening (sp_base gs)" "bs_tcpServer (sp_base gs) \<noteq> None"
      "bs_registry (sp_base gs) = gateway2_registry"
    using demo_gateway_up by metis
  let ?nd = "GatewayNode gs ''127.0.0.1:9101''"
  have n: "NewServer demo_backends (\<lambda>i. ()) demo_host () (Some demo_file) ''gateway'' ''gateway2'' [] up_mongo idle_nsq login_etcd =
      Ret (Inr ?nd)"
    by (simp add: NewServer_def demo_host_def g)
  obtain bs1 where s: "node_Start (bk_etcd demo_backends) 0 0 demo_host ?nd = Ret (None, bs1)"
    using gs by (auto simp: node_Start_def gateway_Start_def base_Start_def demo_backends_def demo_host_def mem_etcd_def Register_def
        gateway2_registry_def demo_registry_def server_Start_def Let_def)
  show ?thesis unfolding Let_def
    by (rule main_needs_kill [OF _ _ _ _ s, where now = "\<lambda>_. 30 * second"])
      (use n in \<open>auto simp: demo_flags_def leaves_registry_def\<close>)
qed

end
