(* ===== verification/Monitoring.thy ===== *)
theory Monitoring
  imports Prelude
begin

text \<open>
  The monitoring module, \<open>internal/monitoring/monitoring.go\<close>: the metrics collector on the
  Prometheus library (a parameter), the alert manager, and the HTTP handlers. Floating-point values have an
  abstract type; what gopsutil and the Go runtime report are arguments.
\<close>

section \<open>Metrics\<close>

text \<open>
  What the code uses of the Prometheus client: vectors of metrics with labels, of an abstract type
  \<open>'v\<close>, and the registry. \<open>None\<close> is the nil pointer; an operation on a vector
  returns the vector afterwards. \<open>pm_MustRegister\<close> gets what \<open>Describe\<close> of the
  collector does.
\<close>

record ('v, 'f, 'd, 'x) prometheus =
  pm_NewGaugeVec :: "string \<Rightarrow> string \<Rightarrow> string list \<Rightarrow> 'v"
  pm_NewCounterVec :: "string \<Rightarrow> string \<Rightarrow> string list \<Rightarrow> 'v"
  pm_NewSummaryVec :: "string \<Rightarrow> string \<Rightarrow> string list \<Rightarrow> 'v"
  pm_Describe :: "'v option \<Rightarrow> 'd list outcome"
  pm_Collect :: "'v option \<Rightarrow> 'x list outcome"
  pm_Set :: "string list \<Rightarrow> 'f \<Rightarrow> 'v option \<Rightarrow> 'v option outcome"
  pm_Inc :: "string list \<Rightarrow> 'v option \<Rightarrow> 'v option outcome"
  pm_Observe :: "string list \<Rightarrow> 'f \<Rightarrow> 'v option \<Rightarrow> 'v option outcome"
  pm_MustRegister :: "'d list outcome \<Rightarrow> unit outcome"

record ('v, 'x) metrics_collector =
  mc_cpuUsage :: "'v option"
  mc_memoryUsage :: "'v option"
  mc_goroutines :: "'v option"
  mc_heapSize :: "'v option"
  mc_heapObjects :: "'v option"
  mc_gcDuration :: "'v option"
  mc_connectionCount :: "'v option"
  mc_actorCount :: "'v option"
  mc_messageCount :: "'v option"
  mc_errorCount :: "'v option"
  mc_requestDuration :: "'v option"
  mc_dbConnections :: "'v option"
  mc_customMetrics :: "string \<rightharpoonup> 'x"

text \<open>The format strings have a third verb without an argument.\<close>

definition metric_name :: "string \<Rightarrow> string \<Rightarrow> string \<Rightarrow> string" where
  "metric_name nodeType nodeID suffix = nodeType @ ''_'' @ nodeID @ ''_%!s(MISSING)_'' @ suffix"

definition NewMetricsCollector ::
  "('v, 'f, 'd, 'x) prometheus \<Rightarrow> string \<Rightarrow> string \<Rightarrow> ('v, 'x) metrics_collector" where
  "NewMetricsCollector pm nodeType nodeID =
     (let name = metric_name nodeType nodeID;
          labels = [''node_type'', ''node_id''];
          gauge = (\<lambda>suffix help. Some (pm_NewGaugeVec pm (name suffix) help labels));
          counter = (\<lambda>suffix help. Some (pm_NewCounterVec pm (name suffix) help labels));
          summary = (\<lambda>suffix help. Some (pm_NewSummaryVec pm (name suffix) help labels)) in
      \<lparr>mc_cpuUsage = gauge ''cpu_usage'' ''Current CPU usage percentage'',
       mc_memoryUsage = gauge ''memory_usage'' ''Current memory usage in bytes'',
       mc_goroutines = gauge ''goroutines'' ''Current number of goroutines'',
       mc_heapSize = gauge ''heap_size_bytes'' ''Current heap size in bytes'',
       mc_heapObjects = gauge ''heap_objects'' ''Current number of heap objects'',
       mc_gcDuration = summary ''gc_duration_seconds'' ''Current GC duration in seconds'',
       mc_connectionCount = gauge ''connection_count'' ''Current number of active connections'',
       mc_actorCount = gauge ''actor_count'' ''Current number of active actors'',
       mc_messageCount = counter ''message_count'' ''Total number of messages processed'',
       mc_errorCount = counter ''error_count'' ''Total number of errors'',
       mc_requestDuration = summary ''request_duration_seconds'' ''Request duration in seconds'',
       mc_dbConnections = None, mc_customMetrics = Map.empty\<rparr>)"

text \<open>\<open>Describe\<close> and \<open>Collect\<close> visit the vectors in this order.\<close>

definition vectors :: "('v, 'x) metrics_collector \<Rightarrow> 'v option list" where
  "vectors mc = [mc_cpuUsage mc, mc_memoryUsage mc, mc_goroutines mc, mc_heapSize mc, mc_heapObjects mc,
     mc_gcDuration mc, mc_connectionCount mc, mc_actorCount mc, mc_messageCount mc, mc_errorCount mc,
     mc_requestDuration mc, mc_dbConnections mc]"

fun visit :: "('v option \<Rightarrow> 'a list outcome) \<Rightarrow> 'v option list \<Rightarrow> 'a list outcome" where
  "visit f [] = Ret []"
| "visit f (v # vs) = obind (f v) (\<lambda>xs. obind (visit f vs) (\<lambda>ys. Ret (xs @ ys)))"

definition Describe :: "('v, 'f, 'd, 'x) prometheus \<Rightarrow> ('v, 'x) metrics_collector \<Rightarrow> 'd list outcome" where
  "Describe pm mc = visit (pm_Describe pm) (vectors mc)"

text \<open>\<open>keys\<close>: the names of the custom metrics in the order the range visits them.\<close>

definition Collect ::
  "('v, 'f, 'd, 'x) prometheus \<Rightarrow> string list \<Rightarrow> ('v, 'x) metrics_collector \<Rightarrow> 'x list outcome" where
  "Collect pm keys mc = obind (visit (pm_Collect pm) (vectors mc))
     (\<lambda>xs. Ret (xs @ List.map_filter (mc_customMetrics mc) keys))"

section \<open>Alerts\<close>

text \<open>
  A rule's condition and a channel may do anything, so both act on an ambient state \<open>'w\<close>. A
  channel's error is only logged.
\<close>

datatype alert_level = AlertLevelInfo | AlertLevelWarning | AlertLevelError | AlertLevelCritical

record alert =
  al_ID :: string
  al_Rule :: string
  al_Level :: alert_level
  al_Message :: string
  al_Timestamp :: time
  al_NodeID :: string
  al_NodeType :: string

record 'w alert_rule =
  ar_Name :: string
  ar_Condition :: "'w \<Rightarrow> bool \<times> 'w"
  ar_Message :: string
  ar_Level :: alert_level
  ar_Cooldown :: duration
  ar_LastAlert :: time

type_synonym 'w alert_channel = "alert \<Rightarrow> 'w \<Rightarrow> bool \<times> 'w"

record 'w alert_manager =
  am_rules :: "'w alert_rule list"
  am_channels :: "'w alert_channel list"
  am_history :: "alert list"

definition LogAlertChannel :: "'w alert_channel" where
  "LogAlertChannel alert w = (True, w)"

definition NewAlertManager :: "'w alert_manager" where
  "NewAlertManager = \<lparr>am_rules = [], am_channels = [], am_history = []\<rparr>"

definition AddRule :: "'w alert_rule \<Rightarrow> 'w alert_manager \<Rightarrow> 'w alert_manager" where
  "AddRule rule am = am\<lparr>am_rules := am_rules am @ [rule]\<rparr>"

definition AddChannel :: "'w alert_channel \<Rightarrow> 'w alert_manager \<Rightarrow> 'w alert_manager" where
  "AddChannel channel am = am\<lparr>am_channels := am_channels am @ [channel]\<rparr>"

definition GetRecentAlerts :: "int \<Rightarrow> 'w alert_manager \<Rightarrow> alert list outcome" where
  "GetRecentAlerts limit am =
     (let len = int (length (am_history am)) in
      if len \<le> limit then Ret (am_history am)
      else (let from = i64 (len - limit) in
            if from < 0 \<or> from > len then Panic SliceOutOfRange
            else Ret (drop (nat from) (am_history am))))"

fun send_alert :: "'w alert_channel list \<Rightarrow> alert \<Rightarrow> 'w \<Rightarrow> 'w" where
  "send_alert [] alert w = w"
| "send_alert (channel # cs) alert w = send_alert cs alert (snd (channel alert w))"

definition alert_of :: "time \<Rightarrow> string \<Rightarrow> string \<Rightarrow> 'w alert_rule \<Rightarrow> alert" where
  "alert_of now nodeID nodeType rule =
     \<lparr>al_ID = ar_Name rule @ ''_'' @ show_int (unix now), al_Rule = ar_Name rule, al_Level = ar_Level rule,
      al_Message = ar_Message rule, al_Timestamp = now, al_NodeID = nodeID, al_NodeType = nodeType\<rparr>"

text \<open>The loop over the rules: the rules afterwards, the alerts in order, and the ambient state.\<close>

fun check_rules ::
  "time \<Rightarrow> string \<Rightarrow> string \<Rightarrow> 'w alert_channel list \<Rightarrow> 'w alert_rule list \<Rightarrow> 'w \<Rightarrow> 'w alert_rule list \<times> alert list \<times> 'w" where
  "check_rules now nodeID nodeType cs [] w = ([], [], w)"
| "check_rules now nodeID nodeType cs (rule # rules) w =
     (if time_sub now (ar_LastAlert rule) < ar_Cooldown rule
      then (let (rs, as, w') = check_rules now nodeID nodeType cs rules w in (rule # rs, as, w'))
      else (let (triggered, w1) = ar_Condition rule w in
            if triggered
            then (let alert = alert_of now nodeID nodeType rule;
                      w2 = send_alert cs alert w1;
                      (rs, as, w') = check_rules now nodeID nodeType cs rules w2
                  in (rule\<lparr>ar_LastAlert := now\<rparr> # rs, alert # as, w'))
            else (let (rs, as, w') = check_rules now nodeID nodeType cs rules w1 in (rule # rs, as, w'))))"

definition CheckRules ::
  "time \<Rightarrow> string \<Rightarrow> string \<Rightarrow> 'w alert_manager \<Rightarrow> 'w \<Rightarrow> 'w alert_manager \<times> 'w" where
  "CheckRules now nodeID nodeType am w =
     (let (rs, as, w') = check_rules now nodeID nodeType (am_channels am) (am_rules am) w
      in (am\<lparr>am_rules := rs, am_history := am_history am @ as\<rparr>, w'))"

section \<open>The manager\<close>

record ('v, 'x, 'w) monitoring_manager =
  mm_alerts :: "'w alert_manager"
  mm_metrics :: "('v, 'x) metrics_collector"
  mm_cancelled :: bool
  mm_addr :: string
  mm_nodeType :: string
  mm_nodeID :: string

text \<open>The tickers' goroutines are \<open>collectMetrics_tick\<close> and \<open>checkAlerts_tick\<close> below.\<close>

definition NewMonitoringManager ::
  "('v, 'f, 'd, 'x) prometheus \<Rightarrow> string \<Rightarrow> string \<Rightarrow> int \<Rightarrow> ('v, 'x, 'w) monitoring_manager outcome" where
  "NewMonitoringManager pm nodeType nodeID port =
     (let mc = NewMetricsCollector pm nodeType nodeID in
      obind (pm_MustRegister pm (Describe pm mc)) (\<lambda>_.
        Ret \<lparr>mm_alerts = NewAlertManager, mm_metrics = mc, mm_cancelled = False, mm_addr = '':'' @ show_int port,
             mm_nodeType = nodeType, mm_nodeID = nodeID\<rparr>))"

text \<open>\<open>Stop\<close> cancels the tickers; whether the HTTP server shuts down in time is an argument.\<close>

definition monitoring_Stop :: "bool \<Rightarrow> ('v, 'x, 'w) monitoring_manager \<Rightarrow> bool \<times> ('v, 'x, 'w) monitoring_manager" where
  "monitoring_Stop shut mm = (shut, mm\<lparr>mm_cancelled := True\<rparr>)"

definition checkAlerts_tick ::
  "time \<Rightarrow> ('v, 'x, 'w) monitoring_manager \<Rightarrow> 'w \<Rightarrow> ('v, 'x, 'w) monitoring_manager \<times> 'w" where
  "checkAlerts_tick now mm w =
     (if mm_cancelled mm then (mm, w)
      else (let (am, w') = CheckRules now (mm_nodeID mm) (mm_nodeType mm) (mm_alerts mm) w in (mm\<lparr>mm_alerts := am\<rparr>, w')))"

section \<open>Recording\<close>

definition node_labels :: "('v, 'x, 'w) monitoring_manager \<Rightarrow> string list" where
  "node_labels mm = [mm_nodeType mm, mm_nodeID mm]"

definition RecordMessage :: "('v, 'f, 'd, 'x) prometheus \<Rightarrow> ('v, 'x, 'w) monitoring_manager \<Rightarrow> ('v, 'x, 'w) monitoring_manager outcome" where
  "RecordMessage pm mm = obind (pm_Inc pm (node_labels mm) (mc_messageCount (mm_metrics mm)))
     (\<lambda>v. Ret (mm\<lparr>mm_metrics := (mm_metrics mm)\<lparr>mc_messageCount := v\<rparr>\<rparr>))"

definition RecordError ::
  "('v, 'f, 'd, 'x) prometheus \<Rightarrow> string \<Rightarrow> ('v, 'x, 'w) monitoring_manager \<Rightarrow> ('v, 'x, 'w) monitoring_manager outcome" where
  "RecordError pm errorType mm = obind (pm_Inc pm (node_labels mm @ [errorType]) (mc_errorCount (mm_metrics mm)))
     (\<lambda>v. Ret (mm\<lparr>mm_metrics := (mm_metrics mm)\<lparr>mc_errorCount := v\<rparr>\<rparr>))"

text \<open>\<open>float64\<close> is the conversion of an integer.\<close>

definition SetConnectionCount ::
  "('v, 'f, 'd, 'x) prometheus \<Rightarrow> (int \<Rightarrow> 'f) \<Rightarrow> int \<Rightarrow> ('v, 'x, 'w) monitoring_manager \<Rightarrow> ('v, 'x, 'w) monitoring_manager outcome" where
  "SetConnectionCount pm float64 n mm = obind (pm_Set pm (node_labels mm) (float64 n) (mc_connectionCount (mm_metrics mm)))
     (\<lambda>v. Ret (mm\<lparr>mm_metrics := (mm_metrics mm)\<lparr>mc_connectionCount := v\<rparr>\<rparr>))"

definition SetActorCount ::
  "('v, 'f, 'd, 'x) prometheus \<Rightarrow> (int \<Rightarrow> 'f) \<Rightarrow> int \<Rightarrow> ('v, 'x, 'w) monitoring_manager \<Rightarrow> ('v, 'x, 'w) monitoring_manager outcome" where
  "SetActorCount pm float64 n mm = obind (pm_Set pm (node_labels mm) (float64 n) (mc_actorCount (mm_metrics mm)))
     (\<lambda>v. Ret (mm\<lparr>mm_metrics := (mm_metrics mm)\<lparr>mc_actorCount := v\<rparr>\<rparr>))"

definition SetDBConnections ::
  "('v, 'f, 'd, 'x) prometheus \<Rightarrow> (int \<Rightarrow> 'f) \<Rightarrow> int \<Rightarrow> ('v, 'x, 'w) monitoring_manager \<Rightarrow> ('v, 'x, 'w) monitoring_manager outcome" where
  "SetDBConnections pm float64 n mm = obind (pm_Set pm (node_labels mm) (float64 n) (mc_dbConnections (mm_metrics mm)))
     (\<lambda>v. Ret (mm\<lparr>mm_metrics := (mm_metrics mm)\<lparr>mc_dbConnections := v\<rparr>\<rparr>))"

text \<open>
  A reading of the system: CPU use (\<open>None\<close> on error), used memory, and the runtime's numbers;
  \<open>rd_PauseNs\<close> is a ring of 256 entries.
\<close>

record 'f reading =
  rd_cpu :: "'f list option"
  rd_memUsed :: "'f option"
  rd_goroutines :: 'f
  rd_heapSys :: 'f
  rd_heapObjects :: 'f
  rd_NumGC :: u32
  rd_PauseNs :: "u64 list"

text \<open>\<open>seconds\<close>: nanoseconds as a floating-point number of seconds.\<close>

definition updateSystemMetrics ::
  "('v, 'f, 'd, 'x) prometheus \<Rightarrow> (u64 \<Rightarrow> 'f) \<Rightarrow> 'f reading \<Rightarrow> ('v, 'x, 'w) monitoring_manager \<Rightarrow> ('v, 'x, 'w) monitoring_manager outcome" where
  "updateSystemMetrics pm seconds rd mm =
     (let ls = node_labels mm; mc0 = mm_metrics mm in
      obind (case rd_cpu rd of
               Some (x # _) \<Rightarrow> obind (pm_Set pm ls x (mc_cpuUsage mc0)) (\<lambda>v. Ret (mc0\<lparr>mc_cpuUsage := v\<rparr>))
             | _ \<Rightarrow> Ret mc0) (\<lambda>mc1.
      obind (case rd_memUsed rd of
               Some x \<Rightarrow> obind (pm_Set pm ls x (mc_memoryUsage mc1)) (\<lambda>v. Ret (mc1\<lparr>mc_memoryUsage := v\<rparr>))
             | None \<Rightarrow> Ret mc1) (\<lambda>mc2.
      obind (pm_Set pm ls (rd_goroutines rd) (mc_goroutines mc2)) (\<lambda>g.
      obind (pm_Set pm ls (rd_heapSys rd) (mc_heapSize mc2)) (\<lambda>s.
      obind (pm_Set pm ls (rd_heapObjects rd) (mc_heapObjects mc2)) (\<lambda>h.
      let mc3 = mc2\<lparr>mc_goroutines := g, mc_heapSize := s, mc_heapObjects := h\<rparr> in
      obind (if rd_NumGC rd > 0
             then obind (pm_Observe pm ls (seconds (rd_PauseNs rd ! unat ((rd_NumGC rd + 255) mod 256))) (mc_gcDuration mc3))
                    (\<lambda>v. Ret (mc3\<lparr>mc_gcDuration := v\<rparr>))
             else Ret mc3) (\<lambda>mc4. Ret (mm\<lparr>mm_metrics := mc4\<rparr>))))))))"

definition collectMetrics_tick ::
  "('v, 'f, 'd, 'x) prometheus \<Rightarrow> (u64 \<Rightarrow> 'f) \<Rightarrow> 'f reading \<Rightarrow> ('v, 'x, 'w) monitoring_manager \<Rightarrow> ('v, 'x, 'w) monitoring_manager outcome" where
  "collectMetrics_tick pm seconds rd mm = (if mm_cancelled mm then Ret mm else updateSystemMetrics pm seconds rd mm)"

section \<open>Routes\<close>

text \<open>
  \<open>GET\<close> of gin panics on a path that has a handler. The routes under \<open>/debug/pprof\<close> go to the
  default mux of \<open>net/http\<close>, on which the program registers nothing: it does not import
  \<open>net/http/pprof\<close>.
\<close>

datatype route_handler = MetricsHandler | DefaultServeMux | HealthCheck | GetMetrics | GetAlerts | GetSystemInfo

definition monitoring_routes :: "(string \<times> route_handler) list" where
  "monitoring_routes =
     [(''/metrics'', MetricsHandler), (''/debug/pprof/'', DefaultServeMux), (''/debug/pprof/cmdline'', DefaultServeMux),
      (''/debug/pprof/profile'', DefaultServeMux), (''/debug/pprof/heap'', DefaultServeMux),
      (''/debug/pprof/goroutine'', DefaultServeMux), (''/health'', HealthCheck), (''/api/metrics'', GetMetrics),
      (''/api/alerts'', GetAlerts), (''/api/system'', GetSystemInfo)]"

definition gin_GET :: "string \<times> route_handler \<Rightarrow> (string \<rightharpoonup> route_handler) \<Rightarrow> (string \<rightharpoonup> route_handler) outcome" where
  "gin_GET ph routes =
     (if routes (fst ph) \<noteq> None then Panic DuplicateRoute else Ret (routes(fst ph \<mapsto> snd ph)))"

fun registerRoutes :: "(string \<times> route_handler) list \<Rightarrow> (string \<rightharpoonup> route_handler) \<Rightarrow> (string \<rightharpoonup> route_handler) outcome" where
  "registerRoutes [] routes = Ret routes"
| "registerRoutes (ph # phs) routes = obind (gin_GET ph routes) (registerRoutes phs)"

lemma registerRoutes_distinct:
  "distinct (map fst phs) \<Longrightarrow> \<forall>p \<in> set (map fst phs). routes p = None \<Longrightarrow>
   registerRoutes phs routes = Ret (routes ++ map_of phs)"
proof (induction phs arbitrary: routes)
  case (Cons ph phs)
  have n: "fst ph \<notin> set (map fst phs)" using Cons.prems(1) by simp
  have "\<forall>p \<in> set (map fst phs). (routes(fst ph \<mapsto> snd ph)) p = None"
    using n Cons.prems(2) by (metis fun_upd_other list.set_intros(2) list.simps(9))
  then have ih: "registerRoutes phs (routes(fst ph \<mapsto> snd ph)) = Ret (routes(fst ph \<mapsto> snd ph) ++ map_of phs)"
    using Cons.prems(1) by (intro Cons.IH) simp_all
  have "map_of phs (fst ph) = None" using n by (simp add: map_of_eq_None_iff)
  then have eq: "routes(fst ph \<mapsto> snd ph) ++ map_of phs = routes ++ map_of (ph # phs)"
    by (cases ph) (auto simp: map_add_def fun_eq_iff split: option.splits)
  have "gin_GET ph routes = Ret (routes(fst ph \<mapsto> snd ph))" using Cons.prems(2) by (simp add: gin_GET_def)
  then show ?case by (simp only: registerRoutes.simps obind.simps ih eq)
qed simp

lemma routes_registered: "registerRoutes monitoring_routes Map.empty = Ret (map_of monitoring_routes)"
  by (subst registerRoutes_distinct) (simp_all add: monitoring_routes_def)

text \<open>\<open>Start\<close> serves in a goroutine and never fails; it logs an error other than the one of a shutdown.\<close>

definition monitoring_Start :: "bool \<Rightarrow> ('v, 'x, 'w) monitoring_manager \<Rightarrow> (string option \<times> string) outcome" where
  "monitoring_Start listens mm = Ret (if listens then None else Some ''monitoring HTTP server error'', mm_addr mm)"

section \<open>HTTP handlers\<close>

text \<open>The engine recovers a handler's panic and answers 500.\<close>

datatype 'r http_reply = OK 'r | InternalServerError

fun recovered :: "'r outcome \<Rightarrow> 'r http_reply outcome" where
  "recovered (Ret r) = Ret (OK r)"
| "recovered (Panic p) = Ret InternalServerError"
| "recovered Blocked = Blocked"

definition healthCheck :: "time \<Rightarrow> ('v, 'x, 'w) monitoring_manager \<Rightarrow> (string \<times> string \<times> string \<times> int) outcome" where
  "healthCheck now mm = Ret (''healthy'', mm_nodeID mm, mm_nodeType mm, unix now)"

text \<open>Used, total and percentage of the memory; \<open>VirtualMemory\<close> returns nil on an error.\<close>

definition getMetrics :: "'c \<Rightarrow> ('u \<times> 'u \<times> 'f) option \<Rightarrow> 'r \<Rightarrow> ('c \<times> ('u \<times> 'u \<times> 'f) \<times> 'r) outcome" where
  "getMetrics cpuPercent memInfo runtime =
     (case memInfo of None \<Rightarrow> Panic NilDereference | Some m \<Rightarrow> Ret (cpuPercent, m, runtime))"

text \<open>\<open>Sscanf\<close> with \<open>%d\<close>, on ASCII text: spaces, a sign, digits; what follows is not read.\<close>

definition is_space :: "char \<Rightarrow> bool" where
  "is_space c \<longleftrightarrow> c \<in> {CHR '' '', CHR 0x09, CHR 0x0B, CHR 0x0C, CHR 0x0D}"

definition scan_int :: "string \<Rightarrow> int option" where
  "scan_int s =
     (let t = dropWhile is_space s;
          neg = (t \<noteq> [] \<and> hd t = CHR ''-'');
          u = (if t \<noteq> [] \<and> hd t \<in> {CHR ''-'', CHR ''+''} then tl t else t);
          ds = takeWhile is_digit u;
          n = (if neg then - int (parse_digits ds) else int (parse_digits ds))
      in if ds = [] \<or> n < - (2 ^ 63) \<or> n \<ge> 2 ^ 63 then None else Some n)"

text \<open>\<open>limit\<close>: the query parameter, if the request has it.\<close>

definition getAlerts :: "string option \<Rightarrow> ('v, 'x, 'w) monitoring_manager \<Rightarrow> (alert list \<times> int) outcome" where
  "getAlerts limit mm =
     (let limitInt = (case scan_int (case limit of None \<Rightarrow> ''100'' | Some l \<Rightarrow> l) of None \<Rightarrow> 100 | Some n \<Rightarrow> n)
      in obind (GetRecentAlerts limitInt (mm_alerts mm)) (\<lambda>alerts. Ret (alerts, int (length alerts))))"

record system_info =
  in_node_id :: string
  in_node_type :: string
  in_process_id :: int
  in_start_time :: int
  in_cmdline :: "string option"

text \<open>
  \<open>proc\<close>: the process, if gopsutil finds it, with its creation time in milliseconds and its
  command line, each if it can be read. The Go version and platform are left out.
\<close>

definition getSystemInfo ::
  "time \<Rightarrow> int \<Rightarrow> (int option \<times> string option) option \<Rightarrow> ('v, 'x, 'w) monitoring_manager \<Rightarrow> system_info outcome" where
  "getSystemInfo now pid proc mm =
     (let base = \<lparr>in_node_id = mm_nodeID mm, in_node_type = mm_nodeType mm, in_process_id = i32 pid,
                   in_start_time = unix now, in_cmdline = None\<rparr>
      in Ret (case proc of
                None \<Rightarrow> base
              | Some (createTime, cmdline) \<Rightarrow>
                  base\<lparr>in_start_time := (case createTime of None \<Rightarrow> unix now | Some t \<Rightarrow> (if t < 0 then - (- t div 1000) else t div 1000)),
                       in_cmdline := cmdline\<rparr>))"

section \<open>Properties\<close>

text \<open>
  What the client library documents, with Go's rule for nil: a nil vector cannot be used, the number of
  label values must be the number of labels (\<open>labels\<close>), and a panic of the collector's
  \<open>Describe\<close> is not recovered by the registry.
\<close>

locale prometheus_client =
  fixes pm :: "('v, 'f, 'd, 'x) prometheus" and labels :: "'v \<Rightarrow> string list"
  assumes new_vectors: "labels (pm_NewGaugeVec pm name help ls) = ls" "labels (pm_NewCounterVec pm name help ls) = ls"
      "labels (pm_NewSummaryVec pm name help ls) = ls"
    and nil_vector: "pm_Describe pm None = Panic NilDereference" "pm_Collect pm None = Panic NilDereference"
      "pm_Set pm vs x None = Panic NilDereference" "pm_Inc pm vs None = Panic NilDereference"
      "pm_Observe pm vs x None = Panic NilDereference"
    and describes: "\<exists>ds. pm_Describe pm (Some v) = Ret ds"
    and wrong_labels: "length vs \<noteq> length (labels v) \<Longrightarrow> pm_Set pm vs x (Some v) = Panic LabelMismatch"
      "length vs \<noteq> length (labels v) \<Longrightarrow> pm_Inc pm vs (Some v) = Panic LabelMismatch"
      "length vs \<noteq> length (labels v) \<Longrightarrow> pm_Observe pm vs x (Some v) = Panic LabelMismatch"
    and right_labels: "length vs = length (labels v) \<Longrightarrow> \<exists>v'. pm_Set pm vs x (Some v) = Ret (Some v') \<and> labels v' = labels v"
      "length vs = length (labels v) \<Longrightarrow> \<exists>v'. pm_Inc pm vs (Some v) = Ret (Some v') \<and> labels v' = labels v"
      "length vs = length (labels v) \<Longrightarrow> \<exists>v'. pm_Observe pm vs x (Some v) = Ret (Some v') \<and> labels v' = labels v"
    and register_panics: "pm_MustRegister pm (Panic p) = Panic p"
begin

lemma visit_nil: "visit (pm_Describe pm) (map Some vs @ [None]) = Panic NilDereference"
proof (induction vs)
  case (Cons v vs)
  then show ?case using describes [of v] by auto
qed (simp add: nil_vector)

lemma describe_panics: "Describe pm (NewMetricsCollector pm nodeType nodeID) = Panic NilDereference"
proof -
  obtain vs where "vectors (NewMetricsCollector pm nodeType nodeID) = map Some vs @ [None]"
  proof
    let ?mc = "NewMetricsCollector pm nodeType nodeID"
    show "vectors ?mc = map Some (map the (butlast (vectors ?mc))) @ [None]"
      by (simp add: vectors_def NewMetricsCollector_def Let_def)
  qed
  then show ?thesis by (simp add: Describe_def visit_nil)
qed

lemma never_starts: "NewMonitoringManager pm nodeType nodeID port = Panic NilDereference"
  by (simp add: NewMonitoringManager_def describe_panics register_panics)

lemma counters:
  assumes "mm_metrics mm = NewMetricsCollector pm (mm_nodeType mm) (mm_nodeID mm)"
  shows "RecordError pm e mm = Panic LabelMismatch" and "\<exists>mm'. RecordMessage pm mm = Ret mm'"
    and "SetDBConnections pm float64 n mm = Panic NilDereference"
  using right_labels(2) [of "node_labels mm" "the (mc_messageCount (mm_metrics mm))"]
  by (auto simp: RecordError_def RecordMessage_def SetDBConnections_def assms NewMetricsCollector_def Let_def
      node_labels_def nil_vector wrong_labels new_vectors)

end

text \<open>A client library in memory: the values of each vector by the label values.\<close>

datatype metric_value = Gauge int | Counter nat | Observed "int list"

record metric_vec =
  mv_Name :: string
  mv_Help :: string
  mv_Labels :: "string list"
  mv_Values :: "string list \<rightharpoonup> metric_value"

fun with_values ::
  "string list \<Rightarrow> (metric_value option \<Rightarrow> metric_value) \<Rightarrow> metric_vec option \<Rightarrow> metric_vec option outcome" where
  "with_values vs upd None = Panic NilDereference"
| "with_values vs upd (Some mv) =
     (if length vs \<noteq> length (mv_Labels mv) then Panic LabelMismatch
      else Ret (Some (mv\<lparr>mv_Values := (mv_Values mv)(vs \<mapsto> upd (mv_Values mv vs))\<rparr>)))"

fun of_vec :: "(metric_vec \<Rightarrow> 'a) \<Rightarrow> metric_vec option \<Rightarrow> 'a list outcome" where
  "of_vec f None = Panic NilDereference"
| "of_vec f (Some mv) = Ret [f mv]"

definition new_vec :: "string \<Rightarrow> string \<Rightarrow> string list \<Rightarrow> metric_vec" where
  "new_vec name help ls = \<lparr>mv_Name = name, mv_Help = help, mv_Labels = ls, mv_Values = Map.empty\<rparr>"

definition mem_prometheus :: "(metric_vec, int, string \<times> string list, metric_vec) prometheus" where
  "mem_prometheus = \<lparr>pm_NewGaugeVec = new_vec, pm_NewCounterVec = new_vec, pm_NewSummaryVec = new_vec,
     pm_Describe = of_vec (\<lambda>v. (mv_Name v, mv_Labels v)), pm_Collect = of_vec id,
     pm_Set = (\<lambda>vs x. with_values vs (\<lambda>_. Gauge x)),
     pm_Inc = (\<lambda>vs. with_values vs (\<lambda>old. case old of Some (Counter n) \<Rightarrow> Counter (Suc n) | _ \<Rightarrow> Counter 1)),
     pm_Observe = (\<lambda>vs x. with_values vs (\<lambda>old. case old of Some (Observed xs) \<Rightarrow> Observed (xs @ [x]) | _ \<Rightarrow> Observed [x])),
     pm_MustRegister = (\<lambda>d. obind d (\<lambda>ds. if distinct (map fst ds) then Ret () else Panic DuplicateMetric))\<rparr>"

interpretation mem_prom: prometheus_client mem_prometheus mv_Labels
  by unfold_locales (auto simp: mem_prometheus_def new_vec_def)

text \<open>
  C40. NewMonitoringManager panics with every argument, because NewMetricsCollector leaves
  dbConnections nil and Describe uses it. On a manager with these metrics RecordError panics
  (three label values for two labels), SetDBConnections panics, and RecordMessage returns.
\<close>

theorem monitoring_never_starts:
  assumes "prometheus_client pm labels" and "mm_metrics mm = NewMetricsCollector pm (mm_nodeType mm) (mm_nodeID mm)"
  shows "NewMonitoringManager pm nodeType nodeID port = Panic NilDereference \<and>
    RecordError pm errorType mm = Panic LabelMismatch \<and> SetDBConnections pm float64 n mm = Panic NilDereference \<and>
    (\<exists>mm'. RecordMessage pm mm = Ret mm')"
  using prometheus_client.never_starts [OF assms(1)] prometheus_client.counters [OF assms] by blast

lemma i64_overflow:
  assumes "2 ^ 63 \<le> x" and "x < 2 ^ 64"
  shows "i64 x = x - 2 ^ 64"
proof -
  have "(x + 2 ^ 63) mod 2 ^ 64 = (x - 2 ^ 63 + 2 ^ 64) mod (2 ^ 64 :: int)" by (rule arg_cong [where f = "\<lambda>y. y mod 2 ^ 64"]) simp
  also have "\<dots> = x - 2 ^ 63" using assms by (simp only: mod_add_self2) simp
  finally show ?thesis by (simp add: i64_def)
qed

text \<open>
  The alerts endpoint on every request: the limit is the query's leading integer, or 100 if
  there is none or it does not fit; the answer is the last so many alerts of the history and
  their number, all of them if there are fewer, and a negative limit is answered with 500,
  because the slice bounds panic.
\<close>

theorem getAlerts_limit:
  assumes "int (length (am_history (mm_alerts mm))) < 2 ^ 63"
  shows "recovered (getAlerts limit mm) =
    (let h = am_history (mm_alerts mm);
         n = (case scan_int (case limit of None \<Rightarrow> ''100'' | Some l \<Rightarrow> l) of None \<Rightarrow> 100 | Some n \<Rightarrow> n)
     in if n < 0 then Ret InternalServerError
        else let recent = drop (length h - nat n) h in Ret (OK (recent, int (length recent))))"
proof -
  let ?h = "am_history (mm_alerts mm)"
  define n where "n = (case scan_int (case limit of None \<Rightarrow> ''100'' | Some l \<Rightarrow> l) of None \<Rightarrow> 100 | Some n \<Rightarrow> n)"
  have range: "- (2 ^ 63) \<le> n \<and> n < 2 ^ 63"
    by (auto simp: n_def scan_int_def Let_def split: option.split if_splits)
  have "GetRecentAlerts n (mm_alerts mm) = (if n < 0 then Panic SliceOutOfRange else Ret (drop (length ?h - nat n) ?h))"
  proof (cases "int (length ?h) \<le> n")
    case True
    then show ?thesis by (auto simp: GetRecentAlerts_def Let_def)
  next
    case False
    show ?thesis
    proof (cases "n < 0")
      case True
      have "i64 (int (length ?h) - n) < 0 \<or> i64 (int (length ?h) - n) > int (length ?h)"
        using range True assms i64_overflow [of "int (length ?h) - n"]
        by (cases "int (length ?h) - n < 2 ^ 63") auto
      then show ?thesis using True False by (auto simp: GetRecentAlerts_def Let_def)
    next
      case nn: False
      then have "i64 (int (length ?h) - n) = int (length ?h) - n" "nat (int (length ?h) - n) = length ?h - nat n"
        using False assms by auto
      then show ?thesis using False nn by (auto simp: GetRecentAlerts_def Let_def)
    qed
  qed
  then show ?thesis by (simp add: getAlerts_def n_def [symmetric] Let_def)
qed

text \<open>The witness: limit -1 is answered with 500, although there is nothing wrong with the history.\<close>

definition demo_monitor :: "(metric_vec, metric_vec, unit) monitoring_manager" where
  "demo_monitor = \<lparr>mm_alerts = \<lparr>am_rules = [], am_channels = [],
       am_history = map (\<lambda>k. alert_of k ''game1'' ''game'' \<lparr>ar_Name = ''r'', ar_Condition = (Pair True :: unit \<Rightarrow> bool \<times> unit), ar_Message = '''',
         ar_Level = AlertLevelInfo, ar_Cooldown = 0, ar_LastAlert = zero_time\<rparr>) [1, 2, 3]\<rparr>,
     mm_metrics = NewMetricsCollector mem_prometheus ''game'' ''game1'', mm_cancelled = False, mm_addr = '':8080'',
     mm_nodeType = ''game'', mm_nodeID = ''game1''\<rparr>"

theorem getAlerts_limit_witness:
  "recovered (getAlerts (Some ''-1'') demo_monitor) = Ret InternalServerError \<and>
   recovered (getAlerts (Some ''2'') demo_monitor) = Ret (OK (drop 1 (am_history (mm_alerts demo_monitor)), 2))"
proof -
  have l: "length (am_history (mm_alerts demo_monitor)) = 3" by (simp add: demo_monitor_def)
  have s: "scan_int ''-1'' = Some (- 1)" "scan_int ''2'' = Some 2" by code_simp+
  show ?thesis using getAlerts_limit [of demo_monitor "Some ''-1''"] getAlerts_limit [of demo_monitor "Some ''2''"]
    by (simp add: s l Let_def)
qed

theorem monitoring_never_starts_witness:
  "NewMonitoringManager mem_prometheus ''game'' ''game1'' 8080 = (Panic NilDereference :: (metric_vec, metric_vec, unit) monitoring_manager outcome) \<and>
   RecordError mem_prometheus ''db'' demo_monitor = Panic LabelMismatch"
proof -
  have m: "mm_metrics demo_monitor = NewMetricsCollector mem_prometheus (mm_nodeType demo_monitor) (mm_nodeID demo_monitor)"
    by (simp add: demo_monitor_def)
  show ?thesis using monitoring_never_starts [OF mem_prom.prometheus_client_axioms m] by blast
qed

section \<open>Runs of the alert manager\<close>

datatype 'w monitor_event = EvRule "'w alert_rule" | EvChannel "'w alert_channel" | EvCheck time

fun monitor_step :: "string \<Rightarrow> string \<Rightarrow> 'w monitor_event \<Rightarrow> 'w alert_manager \<times> 'w \<Rightarrow> 'w alert_manager \<times> 'w" where
  "monitor_step nodeID nodeType (EvRule r) (am, w) = (AddRule r am, w)"
| "monitor_step nodeID nodeType (EvChannel c) (am, w) = (AddChannel c am, w)"
| "monitor_step nodeID nodeType (EvCheck now) (am, w) = CheckRules now nodeID nodeType am w"

definition added :: "'w monitor_event list \<Rightarrow> string list" where
  "added evs = List.map_filter (\<lambda>ev. case ev of EvRule r \<Rightarrow> Some (ar_Name r) | _ \<Rightarrow> None) evs"

definition alert_times :: "string \<Rightarrow> alert list \<Rightarrow> time list" where
  "alert_times n h = map al_Timestamp (filter (\<lambda>a. al_Rule a = n) h)"

text \<open>The alerts of a rule are a cooldown apart, and none is later than its last one.\<close>

definition rule_ok :: "alert list \<Rightarrow> 'w alert_rule \<Rightarrow> bool" where
  "rule_ok h r \<longleftrightarrow> (ar_Cooldown r \<ge> 0 \<longrightarrow>
     sorted_wrt (\<lambda>t u. u - t \<ge> ar_Cooldown r) (alert_times (ar_Name r) h) \<and>
     (\<forall>t \<in> set (alert_times (ar_Name r) h). t \<le> ar_LastAlert r))"

definition alerts_ok :: "'w alert_manager \<Rightarrow> bool" where
  "alerts_ok am \<longleftrightarrow> distinct (map ar_Name (am_rules am)) \<and> (\<forall>r \<in> set (am_rules am). rule_ok (am_history am) r) \<and>
     (\<forall>a \<in> set (am_history am). al_Rule a \<in> ar_Name ` set (am_rules am))"

lemma alert_times_append [simp]: "alert_times n (h @ h') = alert_times n h @ alert_times n h'"
  by (simp add: alert_times_def)

lemma alert_times_none: "n \<notin> al_Rule ` set h \<Longrightarrow> alert_times n h = []"
  by (auto simp: alert_times_def filter_empty_conv)

lemma elapsed:
  assumes "\<not> time_sub now t < c" and "0 \<le> c"
  shows "c \<le> now - t"
  using assms by (auto simp: time_sub_def)

text \<open>One iteration: the rule is passed over, or it fires.\<close>

lemma check_rules_Cons:
  assumes "check_rules now i t cs (r # rules) w = (rs, as, w')"
  obtains w1 rs1 as1 where "check_rules now i t cs rules w1 = (rs1, as1, w')" and "rs = r # rs1" and "as = as1"
  | w1 rs1 as1 where "check_rules now i t cs rules w1 = (rs1, as1, w')" and "rs = r\<lparr>ar_LastAlert := now\<rparr> # rs1"
    and "as = alert_of now i t r # as1" and "\<not> time_sub now (ar_LastAlert r) < ar_Cooldown r"
  using assms by (auto simp: Let_def split: if_splits prod.splits)

lemma check_rules_names:
  assumes "check_rules now i t cs rules w = (rs, as, w')"
  shows "map ar_Name rs = map ar_Name rules \<and> al_Rule ` set as \<subseteq> ar_Name ` set rules"
  using assms
proof (induction rules arbitrary: w rs as)
  case (Cons r rules)
  from Cons.prems show ?case
  proof (cases rule: check_rules_Cons)
    case (1 w1 rs1 as1)
    then show ?thesis using Cons.IH [OF 1(1)] by auto
  next
    case (2 w1 rs1 as1)
    then show ?thesis using Cons.IH [OF 2(1)] by (auto simp: alert_of_def)
  qed
qed simp

lemma rule_fires:
  assumes "rule_ok h r" and "\<not> time_sub now (ar_LastAlert r) < ar_Cooldown r" and "alert_times (ar_Name r) as = []"
  shows "rule_ok (h @ alert_of now i t r # as) (r\<lparr>ar_LastAlert := now\<rparr>)"
proof (cases "ar_Cooldown r \<ge> 0")
  case True
  have e: "ar_Cooldown r \<le> now - ar_LastAlert r" by (rule elapsed [OF assms(2) True])
  have ts: "alert_times (ar_Name r) (alert_of now i t r # as) = [now]"
    using assms(3) by (simp add: alert_times_def alert_of_def)
  have s: "sorted_wrt (\<lambda>t u. u - t \<ge> ar_Cooldown r) (alert_times (ar_Name r) h)"
    and l: "\<forall>t \<in> set (alert_times (ar_Name r) h). t \<le> ar_LastAlert r"
    using assms(1) True by (simp_all add: rule_ok_def)
  have "\<forall>t \<in> set (alert_times (ar_Name r) h). now - t \<ge> ar_Cooldown r \<and> t \<le> now" using l e True by fastforce
  then show ?thesis using s by (simp add: rule_ok_def ts sorted_wrt_append)
qed (simp add: rule_ok_def)

lemma check_rules_ok:
  assumes "check_rules now i t cs rules w = (rs, as, w')" and "distinct (map ar_Name rules)"
    and "\<forall>r \<in> set rules. rule_ok h r"
  shows "\<forall>r \<in> set rs. rule_ok (h @ as) r"
  using assms
proof (induction rules arbitrary: w rs as h)
  case Nil
  then show ?case by simp
next
  case (Cons r rules)
  have other: "alert_times (ar_Name r) as1 = []" if "check_rules now i t cs rules w1 = (rs1, as1, w')" for w1 rs1 as1
    using check_rules_names [OF that] Cons.prems(2) by (intro alert_times_none) auto
  have pre: "\<forall>q \<in> set rules. rule_ok (h @ [alert_of now i t r]) q"
  proof
    fix q
    assume q: "q \<in> set rules"
    then have "ar_Name q \<noteq> ar_Name r"
      using Cons.prems(2) by (metis distinct.simps(2) image_eqI list.set_map list.simps(9))
    then have "alert_times (ar_Name q) [alert_of now i t r] = []" by (simp add: alert_times_def alert_of_def)
    then show "rule_ok (h @ [alert_of now i t r]) q" using Cons.prems(3) q by (simp add: rule_ok_def)
  qed
  from Cons.prems(1) show ?case
  proof (cases rule: check_rules_Cons)
    case (1 w1 rs1 as1)
    then have "\<forall>q \<in> set rs1. rule_ok (h @ as) q" using Cons.IH [OF 1(1)] Cons.prems(2,3) by simp
    moreover have "rule_ok (h @ as) r" using Cons.prems(3) other [OF 1(1)] 1(3) by (simp add: rule_ok_def)
    ultimately show ?thesis using 1(2) by simp
  next
    case (2 w1 rs1 as1)
    then have "\<forall>q \<in> set rs1. rule_ok (h @ as) q" using Cons.IH [OF 2(1) _ pre] Cons.prems(2) by simp
    moreover have "rule_ok (h @ as) (r\<lparr>ar_LastAlert := now\<rparr>)"
      using rule_fires [OF _ 2(4) other [OF 2(1)]] Cons.prems(3) 2(3) by simp
    ultimately show ?thesis using 2(2) by simp
  qed
qed

lemma monitor_step_ok:
  assumes "alerts_ok am" and "monitor_step i t ev (am, w) = (am', w')"
    and "\<And>r. ev = EvRule r \<Longrightarrow> ar_Name r \<notin> ar_Name ` set (am_rules am)"
  shows "alerts_ok am' \<and> ar_Name ` set (am_rules am') = ar_Name ` set (am_rules am) \<union> set (added [ev])"
proof (cases ev)
  case (EvRule r)
  have new: "ar_Name r \<notin> ar_Name ` set (am_rules am)" using assms(3) EvRule by blast
  then have "alert_times (ar_Name r) (am_history am) = []"
    using assms(1) by (intro alert_times_none) (auto simp: alerts_ok_def)
  then show ?thesis using assms(1,2) new EvRule
    by (auto simp: alerts_ok_def AddRule_def rule_ok_def added_def List.map_filter_simps)
next
  case (EvChannel c)
  then show ?thesis using assms(1,2) by (auto simp: alerts_ok_def AddChannel_def added_def List.map_filter_simps)
next
  case (EvCheck now)
  obtain rs as w1 where c: "check_rules now i t (am_channels am) (am_rules am) w = (rs, as, w1)" by (metis prod_cases3)
  then have am': "am' = am\<lparr>am_rules := rs, am_history := am_history am @ as\<rparr>"
    using assms(2) EvCheck by (simp add: CheckRules_def)
  have n: "map ar_Name rs = map ar_Name (am_rules am)" "al_Rule ` set as \<subseteq> ar_Name ` set (am_rules am)"
    using check_rules_names [OF c] by simp_all
  have s: "ar_Name ` set rs = ar_Name ` set (am_rules am)" using n(1) by (metis list.set_map)
  have "\<forall>r \<in> set rs. rule_ok (am_history am @ as) r"
    by (rule check_rules_ok [OF c]) (use assms(1) in \<open>simp_all add: alerts_ok_def\<close>)
  then show ?thesis using assms(1) n s EvCheck by (auto simp: alerts_ok_def am' added_def List.map_filter_simps)
qed

lemma monitor_run_ok:
  assumes "alerts_ok am" and "fold (monitor_step i t) evs (am, w) = (am', w')"
    and "distinct (added evs)" and "ar_Name ` set (am_rules am) \<inter> set (added evs) = {}"
  shows "alerts_ok am'"
  using assms
proof (induction evs arbitrary: am w)
  case (Cons ev evs)
  obtain am1 w1 where s: "monitor_step i t ev (am, w) = (am1, w1)" by fastforce
  have a: "added (ev # evs) = added [ev] @ added evs"
    by (cases ev) (simp_all add: added_def List.map_filter_simps)
  have "\<And>r. ev = EvRule r \<Longrightarrow> ar_Name r \<in> set (added [ev])" by (simp add: added_def List.map_filter_simps)
  then have ok: "alerts_ok am1" "ar_Name ` set (am_rules am1) = ar_Name ` set (am_rules am) \<union> set (added [ev])"
    using monitor_step_ok [OF Cons.prems(1) s] Cons.prems(4) a by auto
  show ?case by (rule Cons.IH [OF ok(1)]) (use Cons.prems s a ok(2) in auto)
qed simp

text \<open>
  C38. Over any run of a new alert manager that adds rules with distinct names and channels and
  checks the rules at any times (clock jumps included), with conditions and channels that do
  anything, any two alerts of a rule in the history are at least its cooldown apart, in order,
  and none is later than the rule's last alert.
\<close>

theorem alerts_respect_cooldown:
  assumes "fold (monitor_step i t) evs (NewAlertManager, w) = (am, w')" and "distinct (added evs)"
    and "r \<in> set (am_rules am)" and "0 \<le> ar_Cooldown r"
  shows "sorted_wrt (\<lambda>t u. u - t \<ge> ar_Cooldown r) (alert_times (ar_Name r) (am_history am)) \<and>
    (\<forall>u \<in> set (alert_times (ar_Name r) (am_history am)). u \<le> ar_LastAlert r)"
proof -
  have "alerts_ok (NewAlertManager :: 'a alert_manager)" by (simp add: alerts_ok_def NewAlertManager_def)
  from monitor_run_ok [OF this assms(1,2)] have "alerts_ok am" by (simp add: NewAlertManager_def)
  then show ?thesis using assms(3,4) by (simp add: alerts_ok_def rule_ok_def)
qed

definition cpu_rule :: "nat alert_rule" where
  "cpu_rule = \<lparr>ar_Name = ''high_cpu'', ar_Condition = Pair True, ar_Message = ''CPU above 80 percent'',
     ar_Level = AlertLevelWarning, ar_Cooldown = 60 * second, ar_LastAlert = zero_time\<rparr>"

definition demo_monitor_events :: "nat monitor_event list" where
  "demo_monitor_events = [EvChannel (\<lambda>a n. (False, Suc n)), EvRule cpu_rule, EvCheck 0, EvCheck (30 * second),
     EvCheck (60 * second), EvCheck (90 * second), EvCheck (120 * second)]"

text \<open>The condition holds at every check, every 30 s; alerts go out every 60 s, whatever the channel answers.\<close>

theorem alerts_respect_cooldown_witness:
  "let (am, w) = fold (monitor_step ''game1'' ''game'') demo_monitor_events (NewAlertManager, 0)
   in alert_times ''high_cpu'' (am_history am) = [0, 60 * second, 120 * second] \<and> w = 3 \<and>
      sorted_wrt (\<lambda>t u. u - t \<ge> 60 * second) (alert_times ''high_cpu'' (am_history am))"
proof -
  obtain am w where f: "fold (monitor_step ''game1'' ''game'') demo_monitor_events (NewAlertManager, 0) = (am, w)" by fastforce
  have d: "distinct (added demo_monitor_events)" by (simp add: added_def demo_monitor_events_def List.map_filter_simps)
  have am: "am_rules am = [cpu_rule\<lparr>ar_LastAlert := 120 * second\<rparr>] \<and> w = 3 \<and>
      alert_times ''high_cpu'' (am_history am) = [0, 60 * second, 120 * second]"
    using f by (auto simp: demo_monitor_events_def NewAlertManager_def AddRule_def AddChannel_def CheckRules_def cpu_rule_def
        time_sub_def zero_time_def alert_of_def alert_times_def)
  have r: "cpu_rule\<lparr>ar_LastAlert := 120 * second\<rparr> \<in> set (am_rules am)" using am by simp
  show ?thesis using alerts_respect_cooldown [OF f d r] am f by (simp add: cpu_rule_def)
qed

end
