(* ===== verification/Logger.thy ===== *)
theory Logger
  imports Prelude
begin

text \<open>
  The logger, \<open>internal/logger/logger.go\<close>: its construction from the configuration, the fields a
  logger carries, and the specialised loggers. The zap library is where entries go: an entry is the
  call the code makes on a \<open>zap.Logger\<close> or its sugared form. Slices of fields lie on a store of
  arrays, because \<open>append\<close> may write into the array of its first argument.
\<close>

section \<open>Configuration\<close>

record sampling_config =
  sm_Initial :: int
  sm_Thereafter :: int

record log_config =
  lc_Level :: string
  lc_Format :: string
  lc_Output :: string
  lc_FilePath :: string
  lc_MaxSize :: int
  lc_MaxBackups :: int
  lc_MaxAge :: int
  lc_Compress :: bool
  lc_Development :: bool
  lc_DisableCaller :: bool
  lc_DisableStacktrace :: bool
  lc_Sampling :: "sampling_config option"

text \<open>The levels of zapcore that the code names, and their numbers.\<close>

datatype log_level = DebugLevel | InfoLevel | WarnLevel | ErrorLevel | PanicLevel | FatalLevel

primrec level_number :: "log_level \<Rightarrow> int" where
  "level_number DebugLevel = - 1"
| "level_number InfoLevel = 0"
| "level_number WarnLevel = 1"
| "level_number ErrorLevel = 2"
| "level_number PanicLevel = 4"
| "level_number FatalLevel = 5"

definition parseLogLevel :: "string \<Rightarrow> log_level" where
  "parseLogLevel level =
     (if level = ''debug'' then DebugLevel
      else if level = ''info'' then InfoLevel
      else if level = ''warn'' \<or> level = ''warning'' then WarnLevel
      else if level = ''error'' then ErrorLevel
      else if level = ''fatal'' then FatalLevel
      else if level = ''panic'' then PanicLevel
      else InfoLevel)"

text \<open>What is set on zap's development or production encoder configuration.\<close>

record encoder_config =
  ec_development :: bool
  ec_set :: "(string \<times> string) list"

definition getEncoderConfig :: "bool \<Rightarrow> encoder_config" where
  "getEncoderConfig development =
     (if development
      then \<lparr>ec_development = True,
             ec_set = [(''EncodeTime'', ''2006-01-02 15:04:05.000''), (''EncodeLevel'', ''CapitalColorLevelEncoder'')]\<rparr>
      else \<lparr>ec_development = False,
             ec_set = [(''TimeKey'', ''timestamp''), (''LevelKey'', ''level''), (''MessageKey'', ''message''),
               (''CallerKey'', ''caller''), (''StacktraceKey'', ''stacktrace''), (''EncodeTime'', ''ISO8601TimeEncoder''),
               (''EncodeLevel'', ''LowercaseLevelEncoder''), (''EncodeDuration'', ''SecondsDurationEncoder''),
               (''EncodeCaller'', ''ShortCallerEncoder'')]\<rparr>)"

datatype log_writer = Stdout | Stderr | LogFile string

text \<open>\<open>opens\<close>: whether the file can be opened for appending.\<close>

definition getRotatingFileWriter :: "(string \<Rightarrow> bool) \<Rightarrow> log_config \<Rightarrow> log_writer" where
  "getRotatingFileWriter opens config =
     (if opens (lc_FilePath config) then LogFile (lc_FilePath config) else Stdout)"

definition getLogWriter :: "(string \<Rightarrow> bool) \<Rightarrow> log_config \<Rightarrow> log_writer" where
  "getLogWriter opens config =
     (if lc_Output config = ''stderr'' then Stderr
      else if lc_Output config = ''file'' \<and> lc_FilePath config \<noteq> '''' then getRotatingFileWriter opens config
      else Stdout)"

datatype log_option = AddCaller | AddCallerSkip nat | AddStacktrace log_level | WrapSampler int int | DevelopmentOption

definition buildLoggerOptions :: "log_config \<Rightarrow> log_option list" where
  "buildLoggerOptions config =
     (if lc_DisableCaller config then [] else [AddCaller, AddCallerSkip 1]) @
     (if lc_DisableStacktrace config then [] else [AddStacktrace ErrorLevel]) @
     (case lc_Sampling config of None \<Rightarrow> [] | Some s \<Rightarrow> [WrapSampler (sm_Initial s) (sm_Thereafter s)]) @
     (if lc_Development config then [DevelopmentOption] else [])"

record zap_core =
  zc_json :: bool
  zc_encoder :: encoder_config
  zc_writer :: log_writer
  zc_level :: log_level
  zc_options :: "log_option list"

section \<open>Fields\<close>

datatype 'a log_value = FString string | FInt int | FUint64 u64 | FUint64s "u64 list" | FDuration duration
  | FBool bool | FTime time | FAny 'a | FZero

type_synonym 'a field = "string \<times> 'a log_value"

text \<open>A slice: array, length and capacity; the array's length is its capacity.\<close>

record field_slice =
  fs_array :: nat
  fs_len :: nat
  fs_cap :: nat

type_synonym 'a field_store = "'a field list list"

definition slice_fields :: "field_slice \<Rightarrow> 'a field_store \<Rightarrow> 'a field list" where
  "slice_fields s h = take (fs_len s) (h ! fs_array s)"

text \<open>\<open>make\<close> with exactly these elements.\<close>

definition make_fields :: "'a field list \<Rightarrow> 'a field_store \<Rightarrow> field_slice \<times> 'a field_store" where
  "make_fields xs h = (\<lparr>fs_array = length h, fs_len = length xs, fs_cap = length xs\<rparr>, h @ [xs])"

text \<open>\<open>append\<close>: in place if the capacity suffices; \<open>grow\<close> is the capacity of a new array.\<close>

definition go_append :: "(nat \<Rightarrow> nat) \<Rightarrow> field_slice \<Rightarrow> 'a field list \<Rightarrow> 'a field_store \<Rightarrow> field_slice \<times> 'a field_store" where
  "go_append grow s xs h =
     (let n = fs_len s + length xs; old = h ! fs_array s in
      if n \<le> fs_cap s then (s\<lparr>fs_len := n\<rparr>, h[fs_array s := take (fs_len s) old @ xs @ drop n old])
      else (\<lparr>fs_array = length h, fs_len = n, fs_cap = grow n\<rparr>,
            h @ [take (fs_len s) old @ xs @ replicate (grow n - n) ('''', FZero)]))"

section \<open>The logger\<close>

text \<open>
  The embedded \<open>zap.Logger\<close> and its sugared form are the same for all loggers derived from one,
  so a logger is its core and its fields.
\<close>

record logger =
  lg_core :: zap_core
  lg_fields :: field_slice

datatype 'a entry = Structured log_level string "'a field list" | Formatted log_level string "'a list"

record 'a log_world =
  lw_store :: "'a field_store"
  lw_out :: "'a entry list"
  lw_once :: bool
  lw_global :: "logger option"

definition NewLogger :: "(string \<Rightarrow> bool) \<Rightarrow> log_config \<Rightarrow> 'a log_world \<Rightarrow> logger \<times> 'a log_world" where
  "NewLogger opens config w =
     (let core = \<lparr>zc_json = (lc_Format config = ''json''), zc_encoder = getEncoderConfig (lc_Development config),
                  zc_writer = getLogWriter opens config, zc_level = parseLogLevel (lc_Level config),
                  zc_options = buildLoggerOptions config\<rparr>;
          (fs, h) = make_fields [] (lw_store w)
      in (\<lparr>lg_core = core, lg_fields = fs\<rparr>, w\<lparr>lw_store := h\<rparr>))"

text \<open>\<open>zap.Any\<close> chooses the kind of field by the type of the value.\<close>

definition WithField :: "string \<Rightarrow> 'a log_value \<Rightarrow> logger \<Rightarrow> 'a log_world \<Rightarrow> logger \<times> 'a log_world" where
  "WithField key v l w =
     (let (fs, h) = make_fields (slice_fields (lg_fields l) (lw_store w) @ [(key, v)]) (lw_store w)
      in (l\<lparr>lg_fields := fs\<rparr>, w\<lparr>lw_store := h\<rparr>))"

text \<open>The entries of the map in the order the range visits them.\<close>

definition WithFields :: "'a field list \<Rightarrow> logger \<Rightarrow> 'a log_world \<Rightarrow> logger \<times> 'a log_world" where
  "WithFields extra l w =
     (let (fs, h) = make_fields (slice_fields (lg_fields l) (lw_store w) @ extra) (lw_store w)
      in (l\<lparr>lg_fields := fs\<rparr>, w\<lparr>lw_store := h\<rparr>))"

text \<open>
  \<open>Debug\<close>, \<open>Info\<close>, \<open>Warn\<close>, \<open>Error\<close>, \<open>Fatal\<close> and \<open>Panic\<close>
  differ in the level only; so do the six formatted functions. That zap ends the process or panics
  after the last two is zap's.
\<close>

definition log_at :: "(nat \<Rightarrow> nat) \<Rightarrow> log_level \<Rightarrow> logger \<Rightarrow> string \<Rightarrow> 'a field list \<Rightarrow> 'a log_world \<Rightarrow> 'a log_world" where
  "log_at grow level l msg extra w =
     (let (all, h) = go_append grow (lg_fields l) extra (lw_store w)
      in w\<lparr>lw_store := h, lw_out := lw_out w @ [Structured level msg (slice_fields all h)]\<rparr>)"

definition logf_at :: "log_level \<Rightarrow> logger \<Rightarrow> string \<Rightarrow> 'a list \<Rightarrow> 'a log_world \<Rightarrow> 'a log_world" where
  "logf_at level l template args w = w\<lparr>lw_out := lw_out w @ [Formatted level template args]\<rparr>"

text \<open>\<open>Log\<close> is not defined for the logger: a call of it is a call of the embedded \<open>zap.Logger\<close>.\<close>

definition zap_Log :: "log_level \<Rightarrow> logger \<Rightarrow> string \<Rightarrow> 'a field list \<Rightarrow> 'a log_world \<Rightarrow> 'a log_world" where
  "zap_Log level l msg extra w = w\<lparr>lw_out := lw_out w @ [Structured level msg extra]\<rparr>"

section \<open>The global logger\<close>

definition InitGlobalLogger :: "(string \<Rightarrow> bool) \<Rightarrow> log_config \<Rightarrow> 'a log_world \<Rightarrow> 'a log_world" where
  "InitGlobalLogger opens config w =
     (if lw_once w then w
      else (let (l, w1) = NewLogger opens config w in w1\<lparr>lw_once := True, lw_global := Some l\<rparr>))"

definition default_log_config :: log_config where
  "default_log_config = \<lparr>lc_Level = ''info'', lc_Format = ''console'', lc_Output = ''stdout'', lc_FilePath = '''',
     lc_MaxSize = 0, lc_MaxBackups = 0, lc_MaxAge = 0, lc_Compress = False, lc_Development = True,
     lc_DisableCaller = False, lc_DisableStacktrace = False, lc_Sampling = None\<rparr>"

text \<open>The result is nil only if the initialisation ran and left it nil, which it does not.\<close>

definition GetGlobalLogger :: "(string \<Rightarrow> bool) \<Rightarrow> 'a log_world \<Rightarrow> logger outcome \<times> 'a log_world" where
  "GetGlobalLogger opens w =
     (let w1 = (if lw_global w = None then InitGlobalLogger opens default_log_config w else w)
      in (case lw_global w1 of None \<Rightarrow> Panic NilDereference | Some l \<Rightarrow> Ret l, w1))"

definition with_global ::
  "(string \<Rightarrow> bool) \<Rightarrow> (logger \<Rightarrow> 'a log_world \<Rightarrow> 'b \<times> 'a log_world) \<Rightarrow> 'a log_world \<Rightarrow> ('b \<times> 'a log_world) outcome" where
  "with_global opens f w = (case GetGlobalLogger opens w of (r, w1) \<Rightarrow> obind r (\<lambda>l. Ret (f l w1)))"

definition global_log ::
  "(nat \<Rightarrow> nat) \<Rightarrow> (string \<Rightarrow> bool) \<Rightarrow> log_level \<Rightarrow> string \<Rightarrow> 'a field list \<Rightarrow> 'a log_world \<Rightarrow> (unit \<times> 'a log_world) outcome" where
  "global_log grow opens level msg extra w = with_global opens (\<lambda>l w1. ((), log_at grow level l msg extra w1)) w"

definition global_logf ::
  "(string \<Rightarrow> bool) \<Rightarrow> log_level \<Rightarrow> string \<Rightarrow> 'a list \<Rightarrow> 'a log_world \<Rightarrow> (unit \<times> 'a log_world) outcome" where
  "global_logf opens level template args w = with_global opens (\<lambda>l w1. ((), logf_at level l template args w1)) w"

definition global_WithField ::
  "(string \<Rightarrow> bool) \<Rightarrow> string \<Rightarrow> 'a log_value \<Rightarrow> 'a log_world \<Rightarrow> (logger \<times> 'a log_world) outcome" where
  "global_WithField opens key v w = with_global opens (WithField key v) w"

definition global_WithFields ::
  "(string \<Rightarrow> bool) \<Rightarrow> 'a field list \<Rightarrow> 'a log_world \<Rightarrow> (logger \<times> 'a log_world) outcome" where
  "global_WithFields opens extra w = with_global opens (WithFields extra) w"

definition IsDebugEnabled :: "(string \<Rightarrow> bool) \<Rightarrow> 'a log_world \<Rightarrow> (bool \<times> 'a log_world) outcome" where
  "IsDebugEnabled opens w = with_global opens
     (\<lambda>l w1. (level_number DebugLevel \<ge> level_number (zc_level (lg_core l)), w1)) w"

text \<open>\<open>sync\<close>: what flushing the core answers.\<close>

definition logger_Sync :: "(zap_core \<Rightarrow> string option) \<Rightarrow> logger \<Rightarrow> string option" where
  "logger_Sync sync l = sync (lg_core l)"

definition global_Sync :: "(string \<Rightarrow> bool) \<Rightarrow> (zap_core \<Rightarrow> string option) \<Rightarrow> 'a log_world \<Rightarrow> (string option \<times> 'a log_world) outcome" where
  "global_Sync opens sync w = with_global opens (\<lambda>l w1. (logger_Sync sync l, w1)) w"

text \<open>Unlike \<open>Sync\<close>, \<open>Close\<close> does not make a logger to flush it.\<close>

definition logger_Close :: "(zap_core \<Rightarrow> string option) \<Rightarrow> 'a log_world \<Rightarrow> string option" where
  "logger_Close sync w = (case lw_global w of None \<Rightarrow> None | Some l \<Rightarrow> logger_Sync sync l)"

lemma Close_Sync: "global_Sync opens sync w = Ret (e, w) \<Longrightarrow> lw_global w \<noteq> None \<Longrightarrow> logger_Close sync w = e"
  by (auto simp: global_Sync_def with_global_def GetGlobalLogger_def logger_Close_def)

definition SetGlobalLevel :: "string \<Rightarrow> 'a log_world \<Rightarrow> 'a log_world" where
  "SetGlobalLevel level w = w"

section \<open>Specialised loggers\<close>

text \<open>Those with a field of their own start from the global logger with it.\<close>

definition component_logger :: "(string \<Rightarrow> bool) \<Rightarrow> string \<Rightarrow> 'a log_world \<Rightarrow> (logger \<times> 'a log_world) outcome" where
  "component_logger opens component w = global_WithField opens ''component'' (FString component) w"

definition millis :: "duration \<Rightarrow> int" where
  "millis d = (if d < 0 then - (- d div 1000000) else d div 1000000)"

record performance_logger =
  pf_logger :: logger
  pf_startTime :: time
  pf_operation :: string

definition NewPerformanceLogger ::
  "(string \<Rightarrow> bool) \<Rightarrow> time \<Rightarrow> string \<Rightarrow> 'a log_world \<Rightarrow> (performance_logger \<times> 'a log_world) outcome" where
  "NewPerformanceLogger opens now operation w = with_global opens
     (\<lambda>l w1. (\<lparr>pf_logger = l, pf_startTime = now, pf_operation = operation\<rparr>, w1)) w"

definition measured :: "time \<Rightarrow> performance_logger \<Rightarrow> 'a field list" where
  "measured now p =
     (let duration = time_sub now (pf_startTime p) in
      [(''operation'', FString (pf_operation p)), (''duration'', FDuration duration), (''duration_ms'', FInt (millis duration))])"

definition EndMeasure :: "(nat \<Rightarrow> nat) \<Rightarrow> time \<Rightarrow> performance_logger \<Rightarrow> 'a log_world \<Rightarrow> 'a log_world" where
  "EndMeasure grow now p w = log_at grow InfoLevel (pf_logger p) ''Performance measurement'' (measured now p) w"

definition EndWithFields ::
  "(nat \<Rightarrow> nat) \<Rightarrow> time \<Rightarrow> 'a field list \<Rightarrow> performance_logger \<Rightarrow> 'a log_world \<Rightarrow> 'a log_world" where
  "EndWithFields grow now extra p w =
     log_at grow InfoLevel (pf_logger p) ''Performance measurement'' (measured now p @ extra) w"

definition NewAccessLogger :: "(string \<Rightarrow> bool) \<Rightarrow> 'a log_world \<Rightarrow> (logger \<times> 'a log_world) outcome" where
  "NewAccessLogger opens w = with_global opens Pair w"

definition LogRequest ::
  "(nat \<Rightarrow> nat) \<Rightarrow> string \<Rightarrow> string \<Rightarrow> string \<Rightarrow> int \<Rightarrow> duration \<Rightarrow> int \<Rightarrow> logger \<Rightarrow> 'a log_world \<Rightarrow> 'a log_world" where
  "LogRequest grow method path clientIP statusCode duration bytes_sent al w =
     log_at grow InfoLevel al ''HTTP Request''
       [(''method'', FString method), (''path'', FString path), (''client_ip'', FString clientIP),
        (''status_code'', FInt statusCode), (''duration'', FDuration duration), (''response_size'', FInt bytes_sent)] w"

text \<open>\<open>order\<close>: how the range over the map of three visits it.\<close>

definition NewGameLogger ::
  "(string \<Rightarrow> bool) \<Rightarrow> ('a field list \<Rightarrow> 'a field list) \<Rightarrow> string \<Rightarrow> string \<Rightarrow> 'a log_world \<Rightarrow> (logger \<times> 'a log_world) outcome" where
  "NewGameLogger opens order gameID roomID w = global_WithFields opens
     (order [(''game_id'', FString gameID), (''room_id'', FString roomID), (''component'', FString ''game'')]) w"

definition LogPlayerAction ::
  "(nat \<Rightarrow> nat) \<Rightarrow> u64 \<Rightarrow> string \<Rightarrow> 'a log_value \<Rightarrow> logger \<Rightarrow> 'a log_world \<Rightarrow> 'a log_world" where
  "LogPlayerAction grow userID action data gl w =
     log_at grow InfoLevel gl ''Player action'' [(''user_id'', FUint64 userID), (''action'', FString action), (''data'', data)] w"

definition LogGameEvent :: "(nat \<Rightarrow> nat) \<Rightarrow> string \<Rightarrow> 'a log_value \<Rightarrow> logger \<Rightarrow> 'a log_world \<Rightarrow> 'a log_world" where
  "LogGameEvent grow eventType data gl w =
     log_at grow InfoLevel gl ''Game event'' [(''event_type'', FString eventType), (''data'', data)] w"

definition NewSecurityLogger :: "(string \<Rightarrow> bool) \<Rightarrow> 'a log_world \<Rightarrow> (logger \<times> 'a log_world) outcome" where
  "NewSecurityLogger opens w = component_logger opens ''security'' w"

definition LogSecurityEvent ::
  "(nat \<Rightarrow> nat) \<Rightarrow> string \<Rightarrow> string \<Rightarrow> u64 \<Rightarrow> 'a log_value \<Rightarrow> logger \<Rightarrow> 'a log_world \<Rightarrow> 'a log_world" where
  "LogSecurityEvent grow eventType clientIP userID details sl w =
     log_at grow WarnLevel sl ''Security event''
       [(''event_type'', FString eventType), (''client_ip'', FString clientIP), (''user_id'', FUint64 userID), (''details'', details)] w"

definition LogAuthAttempt :: "string \<Rightarrow> string \<Rightarrow> bool \<Rightarrow> string \<Rightarrow> logger \<Rightarrow> 'a log_world \<Rightarrow> 'a log_world" where
  "LogAuthAttempt username clientIP success reason sl w =
     (let level = (if \<not> success then WarnLevel else InfoLevel) in
      zap_Log level sl ''Authentication attempt''
        [(''username'', FString username), (''client_ip'', FString clientIP), (''success'', FBool success), (''reason'', FString reason)] w)"

definition NewBusinessLogger :: "(string \<Rightarrow> bool) \<Rightarrow> 'a log_world \<Rightarrow> (logger \<times> 'a log_world) outcome" where
  "NewBusinessLogger opens w = component_logger opens ''business'' w"

definition LogUserLogin ::
  "(nat \<Rightarrow> nat) \<Rightarrow> u64 \<Rightarrow> string \<Rightarrow> string \<Rightarrow> string \<Rightarrow> logger \<Rightarrow> 'a log_world \<Rightarrow> 'a log_world" where
  "LogUserLogin grow userID username platform clientIP bl w =
     log_at grow InfoLevel bl ''User login''
       [(''user_id'', FUint64 userID), (''username'', FString username), (''platform'', FString platform), (''client_ip'', FString clientIP)] w"

definition LogUserLogout :: "(nat \<Rightarrow> nat) \<Rightarrow> u64 \<Rightarrow> duration \<Rightarrow> logger \<Rightarrow> 'a log_world \<Rightarrow> 'a log_world" where
  "LogUserLogout grow userID onlineTime bl w =
     log_at grow InfoLevel bl ''User logout'' [(''user_id'', FUint64 userID), (''online_time'', FDuration onlineTime)] w"

definition LogGameStart :: "(nat \<Rightarrow> nat) \<Rightarrow> u64 \<Rightarrow> string \<Rightarrow> u64 list \<Rightarrow> logger \<Rightarrow> 'a log_world \<Rightarrow> 'a log_world" where
  "LogGameStart grow roomID gameType players bl w =
     log_at grow InfoLevel bl ''Game started''
       [(''room_id'', FUint64 roomID), (''game_type'', FString gameType), (''players'', FUint64s players)] w"

definition LogGameEnd :: "(nat \<Rightarrow> nat) \<Rightarrow> u64 \<Rightarrow> u64 \<Rightarrow> duration \<Rightarrow> string \<Rightarrow> logger \<Rightarrow> 'a log_world \<Rightarrow> 'a log_world" where
  "LogGameEnd grow roomID winner duration reason bl w =
     log_at grow InfoLevel bl ''Game ended''
       [(''room_id'', FUint64 roomID), (''winner'', FUint64 winner), (''duration'', FDuration duration), (''reason'', FString reason)] w"

text \<open>The context of the structured logger is a map, \<open>None\<close> when nil; \<open>keys\<close> is a range over it.\<close>

record 'a structured_logger =
  st_logger :: logger
  st_context :: "(string \<rightharpoonup> 'a log_value) option"

definition NewStructuredLogger ::
  "(string \<Rightarrow> bool) \<Rightarrow> (string \<rightharpoonup> 'a log_value) option \<Rightarrow> 'a log_world \<Rightarrow> ('a structured_logger \<times> 'a log_world) outcome" where
  "NewStructuredLogger opens ctx w = with_global opens (\<lambda>l w1. (\<lparr>st_logger = l, st_context = ctx\<rparr>, w1)) w"

definition SetContext :: "string \<Rightarrow> 'a log_value \<Rightarrow> 'a structured_logger \<Rightarrow> 'a structured_logger" where
  "SetContext key v sl =
     (let ctx = (case st_context sl of None \<Rightarrow> Map.empty | Some c \<Rightarrow> c) in sl\<lparr>st_context := Some (ctx(key \<mapsto> v))\<rparr>)"

definition LogWithContext ::
  "string list \<Rightarrow> log_level \<Rightarrow> string \<Rightarrow> 'a field list \<Rightarrow> 'a structured_logger \<Rightarrow> 'a log_world \<Rightarrow> 'a log_world" where
  "LogWithContext keys level msg additional sl w =
     (let ctx = (case st_context sl of None \<Rightarrow> Map.empty | Some c \<Rightarrow> c)
      in zap_Log level (st_logger sl) msg (List.map_filter (\<lambda>k. map_option (Pair k) (ctx k)) keys @ additional) w)"

definition NewMetricsLogger :: "(string \<Rightarrow> bool) \<Rightarrow> 'a log_world \<Rightarrow> (logger \<times> 'a log_world) outcome" where
  "NewMetricsLogger opens w = component_logger opens ''metrics'' w"

definition LogMetric ::
  "(nat \<Rightarrow> nat) \<Rightarrow> string \<Rightarrow> 'a log_value \<Rightarrow> (string \<times> string) list \<Rightarrow> logger \<Rightarrow> 'a log_world \<Rightarrow> 'a log_world" where
  "LogMetric grow name v labels ml w =
     log_at grow InfoLevel ml ''Metric recorded''
       ([(''metric_name'', FString name), (''value'', v)] @ map (\<lambda>(k, x). (''label_'' @ k, FString x)) labels) w"

definition NewAuditLogger :: "(string \<Rightarrow> bool) \<Rightarrow> 'a log_world \<Rightarrow> (logger \<times> 'a log_world) outcome" where
  "NewAuditLogger opens w = component_logger opens ''audit'' w"

definition LogAuditEvent ::
  "(nat \<Rightarrow> nat) \<Rightarrow> time \<Rightarrow> u64 \<Rightarrow> string \<Rightarrow> string \<Rightarrow> bool \<Rightarrow> 'a log_value \<Rightarrow> logger \<Rightarrow> 'a log_world \<Rightarrow> 'a log_world" where
  "LogAuditEvent grow now userID action resource success details al w =
     log_at grow InfoLevel al ''Audit event''
       [(''user_id'', FUint64 userID), (''action'', FString action), (''resource'', FString resource),
        (''success'', FBool success), (''details'', details), (''audit_time'', FTime now)] w"

section \<open>Slices of loggers are full\<close>

definition full :: "'a field_store \<Rightarrow> field_slice \<Rightarrow> bool" where
  "full h s \<longleftrightarrow> fs_array s < length h \<and> fs_cap s = fs_len s \<and> length (h ! fs_array s) = fs_cap s"

lemma full_append [simp]: "full h s \<Longrightarrow> full (h @ ys) s"
  by (simp add: full_def nth_append)

lemma slice_fields_append [simp]: "full h s \<Longrightarrow> slice_fields s (h @ ys) = slice_fields s h"
  by (simp add: full_def slice_fields_def nth_append)

lemma make_fields_full:
  assumes "make_fields xs h = (s, h')"
  shows "full h' s \<and> slice_fields s h' = xs \<and> h' = h @ [xs]"
  using assms by (auto simp: make_fields_def full_def slice_fields_def)

text \<open>So an append never writes into the array of another logger.\<close>

lemma go_append_full:
  assumes "go_append grow s xs h = (s', h')" and "full h s"
  shows "slice_fields s' h' = slice_fields s h @ xs \<and> (\<exists>ys. h' = h @ ys)"
proof (cases "xs = []")
  case True
  then show ?thesis using assms by (auto simp: go_append_def full_def slice_fields_def Let_def)
next
  case False
  then show ?thesis using assms by (auto simp: go_append_def full_def slice_fields_def Let_def nth_append)
qed

section \<open>Runs of derived loggers\<close>

text \<open>Calls on any of the loggers derived so far, by number; a call on none does nothing.\<close>

datatype 'a log_op = OpField nat string "'a log_value" | OpFields nat "'a field list"
  | OpLog nat log_level string "'a field list" | OpLogf nat log_level string "'a list"
  | OpZap nat log_level string "'a field list"

fun log_step :: "(nat \<Rightarrow> nat) \<Rightarrow> 'a log_op \<Rightarrow> logger list \<times> 'a log_world \<Rightarrow> logger list \<times> 'a log_world" where
  "log_step grow (OpField i k v) (ls, w) =
     (if i < length ls then (let (l, w1) = WithField k v (ls ! i) w in (ls @ [l], w1)) else (ls, w))"
| "log_step grow (OpFields i xs) (ls, w) =
     (if i < length ls then (let (l, w1) = WithFields xs (ls ! i) w in (ls @ [l], w1)) else (ls, w))"
| "log_step grow (OpLog i level msg xs) (ls, w) =
     (if i < length ls then (ls, log_at grow level (ls ! i) msg xs w) else (ls, w))"
| "log_step grow (OpLogf i level template args) (ls, w) =
     (if i < length ls then (ls, logf_at level (ls ! i) template args w) else (ls, w))"
| "log_step grow (OpZap i level msg xs) (ls, w) =
     (if i < length ls then (ls, zap_Log level (ls ! i) msg xs w) else (ls, w))"

text \<open>The specification has no store: a logger is the list of its fields.\<close>

fun spec_step :: "'a log_op \<Rightarrow> 'a field list list \<times> 'a entry list \<Rightarrow> 'a field list list \<times> 'a entry list" where
  "spec_step (OpField i k v) (fss, out) = (if i < length fss then (fss @ [fss ! i @ [(k, v)]], out) else (fss, out))"
| "spec_step (OpFields i xs) (fss, out) = (if i < length fss then (fss @ [fss ! i @ xs], out) else (fss, out))"
| "spec_step (OpLog i level msg xs) (fss, out) =
     (if i < length fss then (fss, out @ [Structured level msg (fss ! i @ xs)]) else (fss, out))"
| "spec_step (OpLogf i level template args) (fss, out) =
     (if i < length fss then (fss, out @ [Formatted level template args]) else (fss, out))"
| "spec_step (OpZap i level msg xs) (fss, out) =
     (if i < length fss then (fss, out @ [Structured level msg xs]) else (fss, out))"

definition abs_log :: "logger list \<times> 'a log_world \<Rightarrow> 'a field list list \<times> 'a entry list" where
  "abs_log s = (map (\<lambda>l. slice_fields (lg_fields l) (lw_store (snd s))) (fst s), lw_out (snd s))"

definition log_ok :: "logger list \<times> 'a log_world \<Rightarrow> bool" where
  "log_ok s \<longleftrightarrow> (\<forall>l \<in> set (fst s). full (lw_store (snd s)) (lg_fields l))"

text \<open>A step that only adds arrays keeps what every logger has.\<close>

lemma abs_log_extend:
  assumes "log_ok (ls, w)" and "lw_store w' = lw_store w @ ys"
  shows "log_ok (ls, w') \<and> abs_log (ls, w') = (fst (abs_log (ls, w)), lw_out w')"
  using assms by (auto simp: log_ok_def abs_log_def)

lemma derive_refines:
  assumes "log_ok (ls, w)" and "i < length ls"
    and "make_fields (slice_fields (lg_fields (ls ! i)) (lw_store w) @ xs) (lw_store w) = (fs, h)"
  shows "log_ok (ls @ [(ls ! i)\<lparr>lg_fields := fs\<rparr>], w\<lparr>lw_store := h\<rparr>) \<and>
    abs_log (ls @ [(ls ! i)\<lparr>lg_fields := fs\<rparr>], w\<lparr>lw_store := h\<rparr>) =
      (let (fss, out) = abs_log (ls, w) in (fss @ [fss ! i @ xs], out))"
  using make_fields_full [OF assms(3)] abs_log_extend [OF assms(1), of "w\<lparr>lw_store := h\<rparr>"] assms(2)
  by (auto simp: log_ok_def abs_log_def)

lemma log_step_refines:
  assumes "log_ok s"
  shows "log_ok (log_step grow ev s) \<and> abs_log (log_step grow ev s) = spec_step ev (abs_log s)"
proof -
  obtain ls w where s: "s = (ls, w)" by fastforce
  have len: "length (fst (abs_log s)) = length ls" by (simp add: abs_log_def s)
  have nth: "i < length ls \<Longrightarrow> fst (abs_log s) ! i = slice_fields (lg_fields (ls ! i)) (lw_store w)" for i
    by (simp add: abs_log_def s)
  have out: "snd (abs_log s) = lw_out w" by (simp add: abs_log_def s)
  obtain fss where a: "abs_log s = (fss, lw_out w)" using out by (metis prod.collapse)
  note facts = len nth a s
  show ?thesis
  proof (cases ev)
    case (OpField i k v)
    obtain fs h where m: "make_fields (slice_fields (lg_fields (ls ! i)) (lw_store w) @ [(k, v)]) (lw_store w) = (fs, h)" by fastforce
    show ?thesis using derive_refines [OF assms [unfolded s] _ m] assms facts
      by (auto simp: OpField WithField_def m)
  next
    case (OpFields i xs)
    obtain fs h where m: "make_fields (slice_fields (lg_fields (ls ! i)) (lw_store w) @ xs) (lw_store w) = (fs, h)" by fastforce
    show ?thesis using derive_refines [OF assms [unfolded s] _ m] assms facts
      by (auto simp: OpFields WithFields_def m)
  next
    case (OpLog i level msg xs)
    show ?thesis
    proof (cases "i < length ls")
      case True
      obtain al h where g: "go_append grow (lg_fields (ls ! i)) xs (lw_store w) = (al, h)" by fastforce
      have "full (lw_store w) (lg_fields (ls ! i))" using assms True by (simp add: log_ok_def s)
      from go_append_full [OF g this] obtain ys where h: "h = lw_store w @ ys"
        "slice_fields al h = slice_fields (lg_fields (ls ! i)) (lw_store w) @ xs" by blast
      let ?w = "w\<lparr>lw_store := h, lw_out := lw_out w @ [Structured level msg (slice_fields al h)]\<rparr>"
      have "log_ok (ls, ?w) \<and> abs_log (ls, ?w) = (fst (abs_log (ls, w)), lw_out ?w)"
        by (rule abs_log_extend [where ys = ys]) (use assms s h(1) in simp_all)
      then show ?thesis using True h(2) facts by (simp add: OpLog log_at_def g)
    qed (use assms facts in \<open>simp add: OpLog\<close>)
  next
    case (OpLogf i level template args)
    then show ?thesis using assms facts abs_log_extend [OF assms [unfolded s], of "logf_at level (ls ! i) template args w" "[]"]
      by (auto simp: logf_at_def)
  next
    case (OpZap i level msg xs)
    then show ?thesis using assms facts abs_log_extend [OF assms [unfolded s], of "zap_Log level (ls ! i) msg xs w" "[]"]
      by (auto simp: zap_Log_def)
  qed
qed

section \<open>Properties\<close>

text \<open>
  C30. Loggers are values: over any sequence of WithField, WithFields, logging, formatted
  logging and direct calls of zap on any of the loggers derived from a new one, whatever
  capacity append gives to new arrays, every logger keeps exactly the fields it was derived
  with, and each entry carries its logger's fields followed by its own (none of the logger's
  for the formatted and the direct calls). The store of shared arrays refines to lists: no
  append writes into another logger's array.
\<close>

theorem derived_loggers_isolated:
  "let (l, w0) = NewLogger opens config w
   in abs_log (fold (log_step grow) ops ([l], w0)) = fold spec_step ops ([[]], lw_out w)"
proof -
  obtain l w0 where n: "NewLogger opens config w = (l, w0)" by fastforce
  have "log_ok ([l], w0) \<and> abs_log ([l], w0) = ([[]], lw_out w)"
    using n make_fields_full [of "[]" "lw_store w"] by (auto simp: NewLogger_def log_ok_def abs_log_def Let_def split: prod.splits)
  moreover have "log_ok s \<Longrightarrow> abs_log (fold (log_step grow) ops s) = fold spec_step ops (abs_log s)" for s :: "logger list \<times> 'a log_world"
    by (induction ops arbitrary: s) (simp_all add: log_step_refines)
  ultimately show ?thesis by (simp add: n)
qed

text \<open>Uses of the global logger from the start of the process.\<close>

datatype 'a global_event = GInit log_config | GLog log_level string "'a field list" | GLevel string

definition fresh_world :: "'a log_world" where
  "fresh_world = \<lparr>lw_store = [], lw_out = [], lw_once = False, lw_global = None\<rparr>"

fun global_step :: "(nat \<Rightarrow> nat) \<Rightarrow> (string \<Rightarrow> bool) \<Rightarrow> 'a global_event \<Rightarrow> 'a log_world \<Rightarrow> 'a log_world" where
  "global_step grow opens (GInit config) w = InitGlobalLogger opens config w"
| "global_step grow opens (GLog level msg extra) w =
     (case global_log grow opens level msg extra w of Ret (_, w1) \<Rightarrow> w1 | _ \<Rightarrow> w)"
| "global_step grow opens (GLevel level) w = SetGlobalLevel level w"

fun first_config :: "'a global_event list \<Rightarrow> log_config option" where
  "first_config [] = None"
| "first_config (GInit config # evs) = Some config"
| "first_config (GLog level msg extra # evs) = Some default_log_config"
| "first_config (GLevel level # evs) = first_config evs"

definition core_of :: "(string \<Rightarrow> bool) \<Rightarrow> log_config \<Rightarrow> zap_core" where
  "core_of opens config = lg_core (fst (NewLogger opens config (fresh_world :: unit log_world)))"

definition global_ok :: "'a log_world \<Rightarrow> bool" where
  "global_ok w \<longleftrightarrow> (lw_once w \<longleftrightarrow> lw_global w \<noteq> None) \<and>
     (\<forall>l. lw_global w = Some l \<longrightarrow> full (lw_store w) (lg_fields l) \<and> slice_fields (lg_fields l) (lw_store w) = [])"

lemma InitGlobalLogger_ok:
  assumes "global_ok w"
  shows "global_ok (InitGlobalLogger opens config w) \<and> lw_out (InitGlobalLogger opens config w) = lw_out w \<and>
    (\<exists>l. lw_global (InitGlobalLogger opens config w) = Some l) \<and>
    map_option lg_core (lw_global (InitGlobalLogger opens config w)) =
      (if lw_global w = None then Some (core_of opens config) else map_option lg_core (lw_global w))"
proof (cases "lw_global w")
  case None
  obtain fs h where m: "make_fields [] (lw_store w) = (fs, h)" by fastforce
  obtain core where n: "NewLogger opens config w = (\<lparr>lg_core = core, lg_fields = fs\<rparr>, w\<lparr>lw_store := h\<rparr>)"
    and c: "core_of opens config = core"
    using m by (simp add: NewLogger_def core_of_def split_beta Let_def)
  have "\<not> lw_once w" using assms None by (auto simp: global_ok_def)
  then show ?thesis using make_fields_full [OF m] by (auto simp: InitGlobalLogger_def n c None global_ok_def)
next
  case (Some g)
  then have "lw_once w" using assms by (simp add: global_ok_def)
  then show ?thesis using assms Some by (simp add: InitGlobalLogger_def)
qed

lemma GetGlobalLogger_ok:
  assumes "global_ok w"
  obtains l w1 where "GetGlobalLogger opens w = (Ret l, w1)" and "global_ok w1" and "lw_global w1 = Some l" and "lw_out w1 = lw_out w"
    and "lg_core l = (case lw_global w of None \<Rightarrow> core_of opens default_log_config | Some g \<Rightarrow> lg_core g)"
proof (cases "lw_global w")
  case None
  then show thesis using InitGlobalLogger_ok [OF assms, of opens default_log_config] that
    by (auto simp: GetGlobalLogger_def)
next
  case (Some g)
  then show thesis using assms that by (simp add: GetGlobalLogger_def)
qed

lemma global_log_ok:
  assumes "global_ok w"
  obtains w1 where "global_log grow opens level msg extra w = Ret ((), w1)" and "global_ok w1"
    and "map_option lg_core (lw_global w1) =
      Some (case lw_global w of None \<Rightarrow> core_of opens default_log_config | Some g \<Rightarrow> lg_core g)"
proof -
  obtain l w1 where g: "GetGlobalLogger opens w = (Ret l, w1)" "global_ok w1" "lw_global w1 = Some l"
    "lg_core l = (case lw_global w of None \<Rightarrow> core_of opens default_log_config | Some g \<Rightarrow> lg_core g)"
    by (rule GetGlobalLogger_ok [OF assms])
  obtain al h where a: "go_append grow (lg_fields l) extra (lw_store w1) = (al, h)" by fastforce
  have "full (lw_store w1) (lg_fields l)" using g(2,3) by (simp add: global_ok_def)
  from go_append_full [OF a this] obtain ys where "h = lw_store w1 @ ys" by blast
  then show thesis using that [of "log_at grow level l msg extra w1"] g
    by (auto simp: global_log_def with_global_def log_at_def a global_ok_def)
qed

lemma global_step_ok:
  assumes "global_ok w"
  shows "global_ok (global_step grow opens ev w) \<and> map_option lg_core (lw_global (global_step grow opens ev w)) =
    (case map_option lg_core (lw_global w) of
       None \<Rightarrow> map_option (core_of opens) (first_config [ev]) | Some c \<Rightarrow> Some c)"
proof (cases ev)
  case (GInit config)
  then show ?thesis using InitGlobalLogger_ok [OF assms, of opens config] by (auto split: option.splits)
next
  case (GLog level msg extra)
  obtain w1 where "global_log grow opens level msg extra w = Ret ((), w1)" "global_ok w1" "map_option lg_core (lw_global w1) =
      Some (case lw_global w of None \<Rightarrow> core_of opens default_log_config | Some g \<Rightarrow> lg_core g)"
    by (rule global_log_ok [OF assms])
  then show ?thesis using GLog by (cases "lw_global w") simp_all
next
  case (GLevel level)
  then show ?thesis using assms by (auto simp: SetGlobalLevel_def split: option.splits)
qed

lemma global_run_ok:
  "global_ok w \<Longrightarrow> global_ok (fold (global_step grow opens) evs w) \<and>
    map_option lg_core (lw_global (fold (global_step grow opens) evs w)) =
      (case map_option lg_core (lw_global w) of
         None \<Rightarrow> map_option (core_of opens) (first_config evs) | Some c \<Rightarrow> Some c)"
proof (induction evs arbitrary: w)
  case (Cons ev evs)
  have "first_config (ev # evs) = (case first_config [ev] of None \<Rightarrow> first_config evs | Some c \<Rightarrow> Some c)"
    by (cases ev) simp_all
  then show ?case using Cons.IH [of "global_step grow opens ev w"] global_step_ok [OF Cons.prems, of grow opens ev]
    by (auto split: option.splits)
qed (simp split: option.splits)

lemma fresh_ok: "global_ok fresh_world"
  by (simp add: global_ok_def fresh_world_def)

text \<open>
  Over any sequence of InitGlobalLogger, global log calls and SetGlobalLevel from the start of
  the process, the global logger's level, writer, encoder and options are those of the first
  use, the default configuration if that is a log call: a later InitGlobalLogger and every
  SetGlobalLevel change nothing.
\<close>

theorem first_use_configures:
  "map_option lg_core (lw_global (fold (global_step grow opens) evs (fresh_world :: 'a log_world))) =
     map_option (core_of opens) (first_config evs)"
  using global_run_ok [OF fresh_ok, of grow opens evs] by (simp add: fresh_world_def)

lemma component_logger_ok:
  assumes "global_ok w"
  obtains l w1 where "component_logger opens component w = Ret (l, w1)" and "lw_out w1 = lw_out w"
    and "full (lw_store w1) (lg_fields l)" and "slice_fields (lg_fields l) (lw_store w1) = [(''component'', FString component)]"
proof -
  obtain g w1 where g: "GetGlobalLogger opens w = (Ret g, w1)" "global_ok w1" "lw_global w1 = Some g" "lw_out w1 = lw_out w"
    by (rule GetGlobalLogger_ok [OF assms])
  obtain fs h where m: "make_fields (slice_fields (lg_fields g) (lw_store w1) @ [(''component'', FString component)]) (lw_store w1) = (fs, h)"
    by fastforce
  have "slice_fields (lg_fields g) (lw_store w1) = []" using g(2,3) by (simp add: global_ok_def)
  then show thesis using that [of "g\<lparr>lg_fields := fs\<rparr>" "w1\<lparr>lw_store := h\<rparr>"] make_fields_full [OF m] g m
    by (auto simp: component_logger_def global_WithField_def with_global_def WithField_def)
qed

text \<open>
  Whatever was logged before, the security logger writes its events with the field
  component=security in front, but the authentication attempts without it, because they call
  Log of the embedded zap logger.
\<close>

theorem auth_attempt_unattributed:
  "let w = fold (global_step grow opens) evs fresh_world in
   \<exists>sl w1. NewSecurityLogger opens w = Ret (sl, w1) \<and>
     lw_out (LogSecurityEvent grow eventType clientIP userID details sl w1) =
       lw_out w @ [Structured WarnLevel ''Security event''
         [(''component'', FString ''security''), (''event_type'', FString eventType), (''client_ip'', FString clientIP),
          (''user_id'', FUint64 userID), (''details'', details)]] \<and>
     lw_out (LogAuthAttempt username clientIP success reason sl w1) =
       lw_out w @ [Structured (if success then InfoLevel else WarnLevel) ''Authentication attempt''
         [(''username'', FString username), (''client_ip'', FString clientIP), (''success'', FBool success), (''reason'', FString reason)]]"
proof -
  define w where "w = fold (global_step grow opens) evs (fresh_world :: 'a log_world)"
  have "global_ok w" unfolding w_def by (rule global_run_ok [OF fresh_ok, THEN conjunct1])
  then obtain sl w1 where s: "component_logger opens ''security'' w = Ret (sl, w1)" "lw_out w1 = lw_out w"
    "full (lw_store w1) (lg_fields sl)" "slice_fields (lg_fields sl) (lw_store w1) = [(''component'', FString ''security'')]"
    by (rule component_logger_ok)
  have event: "lw_out (log_at grow level sl msg xs w1) = lw_out w @ [Structured level msg ((''component'', FString ''security'') # xs)]"
    for level msg xs
    using go_append_full [OF _ s(3)] s(2,4) by (auto simp: log_at_def split: prod.splits)
  show ?thesis using s(1,2) event
    by (auto simp: w_def [symmetric] NewSecurityLogger_def LogSecurityEvent_def LogAuthAttempt_def zap_Log_def Let_def)
qed

end
