(* ===== verification/JsonRegistry.thy ===== *)
theory JsonRegistry
  imports Discovery Wire
begin

text \<open>
  The registry of \<open>internal/discovery/etcd.go\<close> on etcd as it is: values are bytes, written and read
  by the JSON model of \<open>Wire\<close>. The contract of \<open>Discovery\<close>, which asks that the codec
  brings every description back, holds for the descriptions that JSON can carry.
\<close>

section \<open>The registry's codec\<close>

definition over_json :: "(bytes, 'd) etcd \<Rightarrow> (bytes, 'd) etcd" where
  "over_json et = et\<lparr>et_marshal := service_marshal, et_unmarshal := service_unmarshal\<rparr>"

text \<open>The same client, refusing to write what would not come back: it meets the contract.\<close>

definition checked_json :: "(bytes, 'd) etcd \<Rightarrow> (bytes, 'd) etcd" where
  "checked_json et =
     et\<lparr>et_marshal := \<lambda>i. if service_ok i then service_marshal i else None, et_unmarshal := service_unmarshal\<rparr>"

lemma json_calls [simp]:
  "et_Put (over_json et) = et_Put et" "et_Put (checked_json et) = et_Put et"
  "et_Delete (over_json et) = et_Delete et" "et_Delete (checked_json et) = et_Delete et"
  "et_GetPrefix (over_json et) = et_GetPrefix et" "et_GetPrefix (checked_json et) = et_GetPrefix et"
  "et_Revoke (checked_json et) = et_Revoke et" "et_Close (checked_json et) = et_Close et"
  "et_marshal (over_json et) = service_marshal"
  "et_marshal (checked_json et) = (\<lambda>i. if service_ok i then service_marshal i else None)"
  "et_unmarshal (over_json et) = service_unmarshal" "et_unmarshal (checked_json et) = service_unmarshal"
  by (simp_all add: over_json_def checked_json_def)

lemma json_decode_all [simp]:
  "decode_all (over_json et) = decode_all (checked_json et)"
  by (simp add: decode_all_def fun_eq_iff)

locale json_store = etcd_store et view for et :: "(bytes, 'd) etcd" and view :: "'d \<Rightarrow> string \<rightharpoonup> bytes"
begin

lemma checked_client: "etcd_client (checked_json et) view"
proof unfold_locales
  show "et_marshal (checked_json et) i = Some v \<Longrightarrow> et_unmarshal (checked_json et) v = Some i" for i v
    by (auto intro: service_roundtrip split: if_splits)
qed (simp_all, fact put, fact delete, fact get, fact revoke, fact close)

end

sublocale json_store \<subseteq> checked: etcd_client "checked_json et" view
  by (rule checked_client)

definition mem_json :: "(bytes, (string \<times> bytes) list) etcd" where
  "mem_json = mem_store service_marshal service_unmarshal"

interpretation mem_json: json_store mem_json map_of
  unfolding mem_json_def by unfold_locales

text \<open>On descriptions that JSON carries the two are the same.\<close>

lemma Register_over_json:
  assumes "service_ok (i\<lparr>si_UpdateTime := unix now\<rparr>)"
  shows "Register (over_json et) now i rg d = Register (checked_json et) now i rg d"
  using assms by (simp add: Register_def Let_def split: option.split)

lemma over_json_same:
  "GetServices (over_json et) t rg d = GetServices (checked_json et) t rg d"
  "Unregister (over_json et) n rg d = Unregister (checked_json et) n rg d"
  "etcd_ok (over_json et) view s = etcd_ok (checked_json et) view s"
  "etcd_abs (over_json et) view s = etcd_abs (checked_json et) view s"
  by (simp_all add: GetServices_def Unregister_def etcd_ok_def etcd_abs_def fun_eq_iff split: option.split)

lemma GetServices_typed:
  assumes "GetServices (over_json et) t rg d = (Some xs, d')" and "x \<in> set xs"
  shows "service_ok x"
proof -
  obtain bs where "service_unmarshal bs = Some x"
    using assms by (auto simp: GetServices_def decode_all_def List.map_filter_def simp del: json_decode_all split: prod.splits)
  then show ?thesis using service_unmarshal_typed [of bs] by simp
qed

text \<open>
  C9. On any etcd that does what it documents, holding bytes, the registry implements a map
  from (type, id) to descriptions: from a consistent state, after a successful Register of a
  description that JSON can carry, GetServices of a type returns exactly the registered
  services of that type, the new one with its update time, none of another type, and all of
  them typed; after a successful Unregister it returns exactly the same services without that
  one. Types have no slash, since keys are built with it.
\<close>

theorem registry_over_json:
  assumes "etcd_store et view" and "etcd_ok (over_json et) view (rg, d)" and "service_ok (i\<lparr>si_UpdateTime := unix now\<rparr>)"
    and "plain (si_NodeType i)" and "plain t"
    and "Register (over_json et) now i rg d = (Ret None, rg1, d1)"
    and "GetServices (over_json et) t rg1 d1 = (Some xs, d2)"
    and "Unregister (over_json et) (si_NodeID i) rg1 d2 = (Ret None, rg2, d3)"
    and "GetServices (over_json et) t rg2 d3 = (Some ys, d4)"
  shows "set xs =
      of_type ((etcd_abs (over_json et) view (rg, d))((si_NodeType i, si_NodeID i) \<mapsto> i\<lparr>si_UpdateTime := unix now\<rparr>)) t \<and>
    set ys = {x \<in> set xs. (si_NodeType x, si_NodeID x) \<noteq> (si_NodeType i, si_NodeID i)} \<and>
    (\<forall>x \<in> set xs. service_ok x)"
proof -
  have c: "etcd_client (checked_json et) view" by (rule json_store.checked_client) (simp add: json_store_def assms(1))
  show ?thesis
    using etcd_client.registry_session [OF c, of rg d i t now rg1 d1 xs d2 rg2 d3 ys d4] assms(2,4-9) GetServices_typed [OF assms(7)]
    by (simp add: over_json_same Register_over_json [OF assms(3)])
qed

theorem registry_over_json_witness:
  "\<exists>rg1 d1 xs d2 rg2 d3 ys d4. let i = demo_service ''a'' ''online'' 0 in
     Register (over_json mem_json) 5000000000 i demo_registry [] = (Ret None, rg1, d1) \<and>
     GetServices (over_json mem_json) ''game'' rg1 d1 = (Some xs, d2) \<and>
     Unregister (over_json mem_json) ''a'' rg1 d2 = (Ret None, rg2, d3) \<and>
     GetServices (over_json mem_json) ''game'' rg2 d3 = (Some ys, d4) \<and>
     set xs = {i\<lparr>si_UpdateTime := 5\<rparr>} \<and> ys = [] \<and> (\<forall>x \<in> set xs. service_ok x)"
proof -
  let ?i = "demo_service ''a'' ''online'' 0" and ?now = "5000000000 :: int"
  let ?j = "?i\<lparr>si_UpdateTime := unix ?now\<rparr>"
  let ?k = "''/lufy/services/game/a''"
  let ?rg1 = "demo_registry\<lparr>rg_services := [''a'' \<mapsto> ?j]\<rparr>"
  have ok: "service_ok ?j"
    by (simp add: demo_service_def service_ok_def typed_strings_def unix_def int64_def rune_len.simps)
  obtain v where v: "service_marshal ?j = Some v" by (simp add: service_marshal_def)
  have u: "service_unmarshal v = Some ?j" by (rule service_roundtrip [OF ok v])
  have json: "over_json mem_json = mem_json" by (simp add: over_json_def mem_json_def mem_store_def)
  have r: "Register (over_json mem_json) ?now ?i demo_registry [] = (Ret None, ?rg1, [(?k, v)])"
    using v unfolding json
    by (simp add: Register_def demo_registry_def demo_service_def service_key_def mem_json_def mem_store_def Let_def)
  have g: "GetServices (over_json mem_json) ''game'' ?rg1 [(?k, v)] = (Some [?j], [(?k, v)])"
    using u unfolding json by (simp add: GetServices_def demo_registry_def service_key_def mem_json_def mem_store_def has_prefix_def
        decode_all_def List.map_filter_simps)
  have un: "Unregister (over_json mem_json) (si_NodeID ?i) ?rg1 [(?k, v)] = (Ret None, ?rg1\<lparr>rg_services := Map.empty\<rparr>, [])"
    unfolding json
    by (simp add: Unregister_def demo_registry_def demo_service_def service_key_def mem_json_def mem_store_def Let_def)
  have g2: "GetServices (over_json mem_json) ''game'' (?rg1\<lparr>rg_services := Map.empty\<rparr>) [] = (Some [], [])"
    unfolding json by (simp add: GetServices_def demo_registry_def mem_json_def mem_store_def decode_all_def List.map_filter_simps)
  have st: "etcd_ok (over_json mem_json) map_of (demo_registry, [])" by (simp add: etcd_ok_def demo_registry_def)
  have "set [?j] = of_type ((etcd_abs (over_json mem_json) map_of (demo_registry, []))((si_NodeType ?i, si_NodeID ?i) \<mapsto> ?j)) ''game'' \<and>
    set ([] :: service_info list) = {x \<in> set [?j]. (si_NodeType x, si_NodeID x) \<noteq> (si_NodeType ?i, si_NodeID ?i)} \<and>
    (\<forall>x \<in> set [?j]. service_ok x)"
    by (rule registry_over_json [OF mem_json.etcd_store_axioms st ok _ _ r g un g2]) (simp_all add: demo_service_def)
  then have typed: "\<forall>x \<in> set [?j]. service_ok x" by blast
  have e: "?j = ?i\<lparr>si_UpdateTime := 5\<rparr>" by (simp add: unix_def)
  have n: "si_NodeID ?i = ''a''" by (simp add: demo_service_def)
  have "set [?j] = {?i\<lparr>si_UpdateTime := 5\<rparr>}" unfolding e by simp
  then show ?thesis using r g un [unfolded n] g2 typed unfolding Let_def by blast
qed

end
