(* ===== verification/Orders.thy ===== *)
theory Orders
  imports Queue Json
begin

text \<open>
  The demo \<open>examples/nsq/main.go\<close>: orders published to a topic that three services consume through
  channels of their own, directly on the NSQ library of \<open>Queue\<close>. The local clock is a parameter,
  as the readings it gives; sleeps are the time they take; the limit on messages in flight is left out.
\<close>

section \<open>Times as Go formats them\<close>

record civil =
  cv_year :: int
  cv_month :: nat
  cv_day :: nat
  cv_hour :: nat
  cv_minute :: nat
  cv_second :: nat
  cv_offset :: int

definition padded :: "nat \<Rightarrow> nat \<Rightarrow> string" where
  "padded w n = replicate (w - length (show_nat n)) (CHR ''0'') @ show_nat n"

definition year_text :: "int \<Rightarrow> string" where
  "year_text y = (if y < 0 then ''-'' @ padded 4 (nat (- y)) else padded 4 (nat y))"

definition date_text :: "civil \<Rightarrow> string" where
  "date_text c = year_text (cv_year c) @ ''-'' @ padded 2 (cv_month c) @ ''-'' @ padded 2 (cv_day c)"

definition clock_text :: "civil \<Rightarrow> string" where
  "clock_text c = padded 2 (cv_hour c) @ '':'' @ padded 2 (cv_minute c) @ '':'' @ padded 2 (cv_second c)"

text \<open>The offset east of UTC in whole minutes.\<close>

definition zone_text :: "int \<Rightarrow> string" where
  "zone_text off =
     (if off = 0 then ''Z''
      else let m = nat \<bar>off\<bar> div 60
           in (if off \<le> - 60 then ''-'' else ''+'') @ padded 2 (m div 60) @ '':'' @ padded 2 (m mod 60))"

definition datetime_text :: "civil \<Rightarrow> string" where
  "datetime_text c = date_text c @ '' '' @ clock_text c"

definition rfc3339 :: "civil \<Rightarrow> string" where
  "rfc3339 c = date_text c @ ''T'' @ clock_text c @ zone_text (cv_offset c)"

section \<open>The programs\<close>

definition nsqdAddr :: string where
  "nsqdAddr = ''127.0.0.1:4150''"

definition order_topic :: string where
  "order_topic = ''order_created''"

definition order_channels :: "string list" where
  "order_channels = [''inventory'', ''payment'', ''customer_service'']"

definition order_text :: "int \<Rightarrow> string \<Rightarrow> string" where
  "order_text i created =
     ''{'' @ [CHR 0x22] @ ''order_id'' @ [CHR 0x22] @ '': '' @ show_int i @ '', '' @
     [CHR 0x22] @ ''created_at'' @ [CHR 0x22] @ '': '' @ [CHR 0x22] @ created @ [CHR 0x22] @ ''}''"

text \<open>
  What a goroutine logs. \<open>log.Fatalf\<close> ends the process: the deferred Stop of the producer does not
  run then.
\<close>

datatype producer_log = OrderPublished int | OrderNotPublished int

datatype order_error = NoProducer | NoConsumer | NsqdUnreachable | PublishFatal

record 'n order_nsq =
  on_nsq :: "'n nsq"
  on_ConnectToNSQD :: "nat \<Rightarrow> string \<Rightarrow> 'n \<Rightarrow> bool \<times> 'n"

definition Foo2 :: "'n order_nsq \<Rightarrow> civil \<Rightarrow> 'n \<Rightarrow> order_error option \<times> 'n" where
  "Foo2 lib now n =
     (case nl_NewProducer (on_nsq lib) nsqdAddr n of
        (None, n1) \<Rightarrow> (Some NoProducer, n1)
      | (Some p, n1) \<Rightarrow>
          (case nl_Publish (on_nsq lib) p order_topic (bytes_of (order_text 1 (datetime_text now))) n1 of
             (False, n2) \<Rightarrow> (Some PublishFatal, n2)
           | (True, n2) \<Rightarrow> (None, nl_StopProducer (on_nsq lib) p n2)))"

text \<open>The loop of \<open>runProducer\<close> over the order ids that are left.\<close>

fun produce :: "'n nsq \<Rightarrow> nat \<Rightarrow> (int \<Rightarrow> civil) \<Rightarrow> int list \<Rightarrow> 'n \<Rightarrow> producer_log list \<times> 'n" where
  "produce nl p clock [] n = ([], n)"
| "produce nl p clock (i # is) n =
     (let (ok, n1) = nl_Publish nl p order_topic (bytes_of (order_text i (rfc3339 (clock i)))) n;
          (ls, n2) = produce nl p clock is n1
      in ((if ok then OrderPublished i else OrderNotPublished i) # ls, n2))"

definition runProducer ::
  "'n nsq \<Rightarrow> (int \<Rightarrow> civil) \<Rightarrow> int \<Rightarrow> duration \<Rightarrow> 'n \<Rightarrow> order_error option \<times> producer_log list \<times> duration \<times> 'n" where
  "runProducer nl clock k interval n =
     (case nl_NewProducer nl nsqdAddr n of
        (None, n1) \<Rightarrow> (Some NoProducer, [], 0, n1)
      | (Some p, n1) \<Rightarrow>
          (let (ls, n2) = produce nl p clock [1..k] n1
           in (None, ls, max 0 k * interval + second, nl_StopProducer nl p n2)))"

datatype order_work = Inventory bytes | Payment bytes | CustomerService bytes | UnknownChannel string bytes

text \<open>The handler of a channel: what it does with a message and how long it sleeps; it never fails.\<close>

definition order_handler :: "string \<Rightarrow> bytes \<Rightarrow> order_work \<times> duration" where
  "order_handler channel body =
     (if channel = ''inventory'' then (Inventory body, 0)
      else if channel = ''payment'' then (Payment body, 200 * 1000000)
      else if channel = ''customer_service'' then (CustomerService body, 50 * 1000000)
      else (UnknownChannel channel body, 0))"

text \<open>\<open>runConsumer\<close> up to its wait for the context, and after it.\<close>

definition start_consumer :: "'n order_nsq \<Rightarrow> string \<Rightarrow> string \<Rightarrow> 'n \<Rightarrow> (order_error + nat) \<times> 'n" where
  "start_consumer lib topic channel n =
     (case nl_NewConsumer (on_nsq lib) topic channel n of
        (None, n1) \<Rightarrow> (Inl NoConsumer, n1)
      | (Some c, n1) \<Rightarrow>
          (case on_ConnectToNSQD lib c nsqdAddr n1 of
             (False, n2) \<Rightarrow> (Inl NsqdUnreachable, n2)
           | (True, n2) \<Rightarrow> (Inr c, n2)))"

definition finish_consumer :: "'n order_nsq \<Rightarrow> order_error + nat \<Rightarrow> 'n \<Rightarrow> order_error option \<times> 'n" where
  "finish_consumer lib r n = (case r of Inl e \<Rightarrow> (Some e, n) | Inr c \<Rightarrow> (None, nl_StopConsumer (on_nsq lib) c n))"

definition runConsumer ::
  "'n order_nsq \<Rightarrow> string \<Rightarrow> string \<Rightarrow> bytes list \<Rightarrow> 'n \<Rightarrow> order_error option \<times> order_work list \<times> 'n" where
  "runConsumer lib topic channel bodies n =
     (let (r, n1) = start_consumer lib topic channel n; (e, n2) = finish_consumer lib r n1
      in (e, if e = None then map (\<lambda>b. fst (order_handler channel b)) bodies else [], n2))"

fun start_consumers :: "'n order_nsq \<Rightarrow> string list \<Rightarrow> 'n \<Rightarrow> (order_error + nat) list \<times> 'n" where
  "start_consumers lib [] n = ([], n)"
| "start_consumers lib (ch # chs) n =
     (let (r, n1) = start_consumer lib order_topic ch n; (rs, n2) = start_consumers lib chs n1 in (r # rs, n2))"

fun finish_consumers :: "'n order_nsq \<Rightarrow> (order_error + nat) list \<Rightarrow> 'n \<Rightarrow> order_error option list \<times> 'n" where
  "finish_consumers lib [] n = ([], n)"
| "finish_consumers lib (r # rs) n =
     (let (e, n1) = finish_consumer lib r n; (es, n2) = finish_consumers lib rs n1 in (e # es, n2))"

text \<open>
  \<open>Foo1\<close> when the signal comes after \<open>k\<close> of the ten orders: it cancels the consumers, the
  producer does not look at the context, and the program waits for all four goroutines.
\<close>

definition Foo1 ::
  "'n order_nsq \<Rightarrow> (int \<Rightarrow> civil) \<Rightarrow> int \<Rightarrow> 'n \<Rightarrow> order_error option list \<times> (order_error + producer_log list) \<times> 'n" where
  "Foo1 lib clock k n =
     (let (rs, n1) = start_consumers lib order_channels n in
      case nl_NewProducer (on_nsq lib) nsqdAddr n1 of
        (None, n2) \<Rightarrow> (let (es, n3) = finish_consumers lib rs n2 in (es, Inl NoProducer, n3))
      | (Some p, n2) \<Rightarrow>
          (let (ls1, n3) = produce (on_nsq lib) p clock [1..k] n2;
               (es, n4) = finish_consumers lib rs n3;
               (ls2, n5) = produce (on_nsq lib) p clock [k + 1..10] n4
           in (es, Inr (ls1 @ ls2), nl_StopProducer (on_nsq lib) p n5)))"

section \<open>The orders are JSON\<close>

definition plain_ascii :: "string \<Rightarrow> bool" where
  "plain_ascii s \<longleftrightarrow> (\<forall>c \<in> set s. 32 \<le> byte_of c \<and> byte_of c < 128 \<and> byte_of c \<noteq> 34 \<and> byte_of c \<noteq> 92)"

lemma plain_ascii_simps [simp]:
  "plain_ascii []"
  "plain_ascii (c # s) \<longleftrightarrow> 32 \<le> byte_of c \<and> byte_of c < 128 \<and> byte_of c \<noteq> 34 \<and> byte_of c \<noteq> 92 \<and> plain_ascii s"
  "plain_ascii (s @ t) \<longleftrightarrow> plain_ascii s \<and> plain_ascii t"
  by (auto simp: plain_ascii_def)

lemma unq_plain: "plain_ascii s \<Longrightarrow> unq (s @ CHR 0x22 # r) = Some (s, r)"
  by (induction s) (auto simp: plain_ascii_def)

lemma plain_digits: "list_all is_digit s \<Longrightarrow> plain_ascii s"
  by (auto simp: plain_ascii_def list_all_iff is_digit_def)

lemma plain_padded [simp]: "plain_ascii (padded w n)"
  using plain_digits [OF show_nat_digits, of n] by (simp add: padded_def) (simp add: plain_ascii_def)

lemma plain_times: "plain_ascii (rfc3339 c)" "plain_ascii (datetime_text c)"
  by (simp_all add: rfc3339_def datetime_text_def date_text_def clock_text_def zone_text_def year_text_def Let_def)

lemma order_text_parse:
  assumes "plain_ascii created"
  shows "json_parse (order_text i created) = Some (JObj [(''order_id'', JInt i), (''created_at'', JString created)])"
proof -
  let ?q = "CHR 0x22"
  let ?rest = "'', '' @ [?q] @ ''created_at'' @ [?q] @ '': '' @ [?q] @ created @ [?q] @ ''}''"
  have sp: "skip_ws (CHR '' '' # s) = skip_ws s" for s by (simp add: skip_ws_def is_space_def)
  have st: "stops ?rest" by (simp add: stops_def is_digit_def)
  obtain c t where c: "show_int i = c # t" "c = CHR ''-'' \<or> is_digit c" by (rule show_int_hd)
  have ws: "\<not> is_space c" using c(2) is_digit_not [of c] by (auto simp: is_space_def)
  have num: "p_val (Suc n) (CHR '' '' # show_int i @ ?rest) = Some (JInt i, ?rest)" for n
  proof -
    have "p_val (Suc n) (show_int i @ ?rest) = p_val (Suc (length (show_int i))) (show_int i @ ?rest)"
      using c ws is_digit_not [of c] by (auto simp: skip_ws_id)
    also have "\<dots> = Some (JInt i, ?rest)"
      using p_val_jprint(1) [of "JInt i" ?rest "Suc (length (show_int i))"] st by auto
    finally show ?thesis by (simp add: sp del: append_Cons)
  qed
  have str: "p_val (Suc n) (CHR '' '' # ?q # created @ ?q # r) = Some (JString created, r)" for n r
    using unq_plain [OF assms, of r] by (simp add: sp skip_ws_id)
  have k1: "unq (''order_id'' @ ?q # r) = Some (''order_id'', r)" and k2: "unq (''created_at'' @ ?q # r) = Some (''created_at'', r)" for r
    by (rule unq_plain; simp add: plain_ascii_def)+
  have m2: "p_members (Suc (Suc n)) (CHR '' '' # ?q # ''created_at'' @ ?q # CHR '':'' # CHR '' '' # ?q # created @ ?q # ''}'') =
      Some ([(''created_at'', JString created)], [])" for n
    using k2 str [of n "''}''"] by (simp add: expect_def sp skip_ws_id del: p_val.simps)
  have m1: "p_members (Suc (Suc (Suc n))) (?q # ''order_id'' @ ?q # CHR '':'' # CHR '' '' # show_int i @ ?rest) =
      Some ([(''order_id'', JInt i), (''created_at'', JString created)], [])" for n
    using k1 num [of "Suc n"] m2 [of n] by (simp add: expect_def sp skip_ws_id del: p_val.simps)
  obtain n where len: "length (order_text i created) = Suc (Suc (Suc n))"
    by (rule that [of "length (order_text i created) - 3"]) (simp add: order_text_def)
  have ot: "order_text i created = CHR ''{'' # ?q # ''order_id'' @ ?q # CHR '':'' # CHR '' '' # show_int i @ ?rest"
    by (simp add: order_text_def)
  have "p_val (Suc (Suc (Suc (Suc n)))) (order_text i created) =
      Some (JObj [(''order_id'', JInt i), (''created_at'', JString created)], [])"
    unfolding ot p_val.simps(2) using m1 [of n] by (simp add: skip_ws_id expect_id del: p_members.simps append_Cons)
  then show ?thesis by (simp add: json_parse_def len skip_ws_def del: p_val.simps)
qed

section \<open>What is published\<close>

lemma produce_append:
  "produce nl p clock (is @ js) n =
     (let (ls1, n1) = produce nl p clock is n; (ls2, n2) = produce nl p clock js n1 in (ls1 @ ls2, n2))"
  by (induction "is" arbitrary: n) (simp_all add: Let_def split: prod.splits)

definition order_message :: "(int \<Rightarrow> civil) \<Rightarrow> int \<Rightarrow> string \<times> bytes" where
  "order_message clock i = (order_topic, bytes_of (order_text i (rfc3339 (clock i))))"

context nsq_client
begin

text \<open>One line per order; what was delivered is a part of the orders, with every one reported as published.\<close>

lemma produce_delivers:
  assumes "produce nl p clock is n = (ls, n')"
  shows "\<exists>ks. delivered n' = delivered n @ map (order_message clock) ks \<and> set ks \<subseteq> set is \<and>
    length ls = length is \<and> (\<forall>i. OrderPublished i \<in> set ls \<longrightarrow> i \<in> set ks)"
  using assms
proof (induction "is" arbitrary: n ls)
  case (Cons i "is")
  obtain ok n1 where pub: "nl_Publish nl p order_topic (bytes_of (order_text i (rfc3339 (clock i)))) n = (ok, n1)" by fastforce
  obtain ls' where rest: "produce nl p clock is n1 = (ls', n')" and ls: "ls = (if ok then OrderPublished i else OrderNotPublished i) # ls'"
    using Cons.prems pub by (auto split: prod.splits)
  obtain ks where ks: "delivered n' = delivered n1 @ map (order_message clock) ks" "set ks \<subseteq> set is" "length ls' = length is"
    "\<forall>i. OrderPublished i \<in> set ls' \<longrightarrow> i \<in> set ks" using Cons.IH [OF rest] by blast
  show ?case
  proof (cases "delivered n1 = delivered n")
    case True
    then have "\<not> ok" using publish [OF pub] by auto
    then show ?thesis using ks ls True by (intro exI [of _ ks]) auto
  next
    case False
    then have "delivered n1 = delivered n @ [order_message clock i]" using publish [OF pub] by (simp add: order_message_def)
    then show ?thesis using ks ls by (intro exI [of _ "i # ks"]) auto
  qed
qed auto

end

text \<open>Whenever the signal comes, all ten orders are tried, in their order, and the program ends only then.\<close>

lemma produce_ids: "map (\<lambda>l. case l of OrderPublished i \<Rightarrow> i | OrderNotPublished i \<Rightarrow> i) (fst (produce nl p clock is n)) = is"
  by (induction "is" arbitrary: n) (simp_all add: Let_def case_prod_beta)

lemma Foo1_tries_all:
  assumes "Foo1 lib clock k n = (es, Inr ls, n')" and "0 \<le> k" and "k \<le> 10"
  shows "map (\<lambda>l. case l of OrderPublished i \<Rightarrow> i | OrderNotPublished i \<Rightarrow> i) ls = [1..10]"
proof -
  obtain p n2 n4 where "ls = fst (produce (on_nsq lib) p clock [1..k] n2) @ fst (produce (on_nsq lib) p clock [k + 1..10] n4)"
    using assms(1) by (auto simp: Foo1_def Let_def split: prod.splits option.splits) (metis fst_conv)
  moreover have "[1..10] = [1..k] @ [k + 1..10]" using assms(2,3) upto_split2 [of 1 k 10] by (cases "k = 0") simp_all
  ultimately show ?thesis by (simp add: produce_ids del: upto_rec_numeral)
qed

text \<open>A published order reads back as its number and time.\<close>

lemma order_message_json:
  "json_parse (string_of (snd (order_message clock i))) =
     Some (JObj [(''order_id'', JInt i), (''created_at'', JString (rfc3339 (clock i)))])"
  using order_text_parse [OF plain_times(1)] by (simp add: order_message_def)

end
